theory Spec2Isabelle
  imports Complex_Main "HOL-Library.Multiset"
begin

section \<open>Data model\<close>

text \<open>
  The Python program keeps its data in dictionaries with fixed string keys and in tuples
  of integers. Each such dictionary is a record here; tuples stay tuples. The results of
  \<^verbatim>\<open>time.time()\<close> are inputs of the functions that read the clock.
\<close>

type_synonym pos2 = "int \<times> int"
type_synonym pos3 = "int \<times> int \<times> int"
type_synonym timestamp = real

text \<open>Exceptions a method of the program can raise, as values.\<close>

datatype error =
    KeyError string
  | TypeError
  | IndexError
  | ZeroDivisionError
  | NanCast

text \<open>
  The dictionary built by \<^verbatim>\<open>ColorDetector.process_contours\<close> for one detection
  (keys \<^verbatim>\<open>pixel_pos, robot_pos, size, area, color, bbox, id\<close>).
\<close>

record detected_object =
  pixel_pos :: pos2
  robot_pos :: pos3
  obj_size :: "int \<times> int"
  area :: real
  color :: string
  bbox :: "int \<times> int \<times> int \<times> int"
  obj_id :: string

text \<open>
  One step of a mission: the dictionaries of \<^verbatim>\<open>calculate_pick_mission\<close>, tagged by
  their \<^verbatim>\<open>"type"\<close> entry (\<^verbatim>\<open>"move"\<close> with a target, \<^verbatim>\<open>"gripper"\<close> with an action),
  each with its description.
\<close>

datatype step =
    Move pos3 string
  | Gripper string string

record mission =
  object_pos :: pos3
  object_color :: string
  start_time :: timestamp

record pick_entry =
  entry_color :: string
  entry_position :: pos3
  entry_timestamp :: timestamp
  entry_drop_location :: pos3
  entry_success :: bool

record metrics =
  total_picks :: int
  successful_picks :: int
  failed_picks :: int
  average_pick_time :: int
  batch_completions :: int

record robot_arm =
  workspace_width :: int
  workspace_height :: int
  drop_locations :: "string \<rightharpoonup> pos3"
  current_position :: pos3
  gripper_state :: string
  is_moving :: bool
  current_mission :: "mission option"
  mission_progress :: int
  mission_steps :: "step list"
  batch_mode :: bool
  batch_queue :: "detected_object list"
  pick_history :: "pick_entry list"
  robot_metrics :: metrics

section \<open>RobotArmSimulator\<close>

definition drop_table :: "string \<rightharpoonup> pos3" where
  "drop_table =
     [''Red'' \<mapsto> (100, 350, 50), ''Green'' \<mapsto> (300, 350, 50), ''Blue'' \<mapsto> (500, 350, 50)]"

definition home_position :: pos3 where
  "home_position = (300, 200, 100)"

definition RobotArmSimulator_init :: robot_arm where
  "RobotArmSimulator_init =
     \<lparr> workspace_width = 600,
       workspace_height = 400,
       drop_locations = drop_table,
       current_position = home_position,
       gripper_state = ''open'',
       is_moving = False,
       current_mission = None,
       mission_progress = 0,
       mission_steps = [],
       batch_mode = False,
       batch_queue = [],
       pick_history = [],
       robot_metrics =
         \<lparr> total_picks = 0, successful_picks = 0, failed_picks = 0,
           average_pick_time = 0, batch_completions = 0 \<rparr> \<rparr>"

text \<open>
  \<^verbatim>\<open>calculate_pick_mission\<close>: the lookup \<^verbatim>\<open>self.drop_locations[object_color]\<close> raises
  \<^verbatim>\<open>KeyError\<close> for a colour that is not in the table.
\<close>

definition calculate_pick_mission :: "robot_arm \<Rightarrow> pos3 \<Rightarrow> string \<Rightarrow> error + step list" where
  "calculate_pick_mission s obj_pos obj_color =
     (case obj_pos of (object_x, object_y, object_z) \<Rightarrow>
        (case drop_locations s obj_color of
           None \<Rightarrow> Inl (KeyError obj_color)
         | Some (drop_x, drop_y, drop_z) \<Rightarrow>
             Inr [ Move (object_x, object_y, object_z + 50) ''Approach object'',
                   Move (object_x, object_y, object_z) ''Lower to object'',
                   Gripper ''close'' ''Pick up object'',
                   Move (object_x, object_y, object_z + 80) ''Lift object'',
                   Move (drop_x, drop_y, object_z + 80) ''Move above drop zone'',
                   Move (drop_x, drop_y, drop_z) ''Lower to drop height'',
                   Gripper ''open'' ''Release object'',
                   Move (drop_x, drop_y, drop_z + 80) ''Lift from drop zone'',
                   Move (current_position s) ''Return to home'' ]))"

text \<open>
  \<^verbatim>\<open>start_next_mission\<close>: \<^verbatim>\<open>pop(0)\<close> raises \<^verbatim>\<open>IndexError\<close> on an empty queue. The argument
  \<open>t\<close> is what \<^verbatim>\<open>time.time()\<close> returns for the new mission's start time.
\<close>

definition start_next_mission :: "timestamp \<Rightarrow> robot_arm \<Rightarrow> error + robot_arm" where
  "start_next_mission t s =
     (case batch_queue s of
        [] \<Rightarrow> Inl IndexError
      | next_mission # rest \<Rightarrow>
          (case calculate_pick_mission s (robot_pos next_mission) (color next_mission) of
             Inl e \<Rightarrow> Inl e
           | Inr steps \<Rightarrow>
               Inr (s\<lparr> batch_queue := rest,
                       current_mission :=
                         Some \<lparr> object_pos = robot_pos next_mission,
                                object_color = color next_mission,
                                start_time = t \<rparr>,
                       mission_steps := steps \<rparr>)))"

text \<open>
  \<^verbatim>\<open>complete_mission\<close>: resets the progress, counts the pick, appends the history entry
  (reading the current mission, which raises \<^verbatim>\<open>TypeError\<close> when it is \<^verbatim>\<open>None\<close>, and the
  drop table), then either starts the next queued mission or goes idle. \<open>t_done\<close> is the
  clock value stored in the history entry, \<open>t_next\<close> the one read by
  \<^verbatim>\<open>start_next_mission\<close>.
\<close>

definition count_pick :: "metrics \<Rightarrow> metrics" where
  "count_pick m =
     m\<lparr> successful_picks := successful_picks m + 1, total_picks := total_picks m + 1 \<rparr>"

definition complete_mission :: "timestamp \<Rightarrow> timestamp \<Rightarrow> robot_arm \<Rightarrow> error + robot_arm" where
  "complete_mission t_done t_next s =
     (let s1 = s\<lparr> mission_progress := 0 \<rparr>;
          s2 = s1\<lparr> robot_metrics := count_pick (robot_metrics s1) \<rparr>
      in case current_mission s2 of
           None \<Rightarrow> Inl TypeError
         | Some m \<Rightarrow>
             (case drop_locations s2 (object_color m) of
                None \<Rightarrow> Inl (KeyError (object_color m))
              | Some d \<Rightarrow>
                  (let s3 = s2\<lparr> pick_history := pick_history s2 @
                                 [\<lparr> entry_color = object_color m,
                                    entry_position = object_pos m,
                                    entry_timestamp = t_done,
                                    entry_drop_location = d,
                                    entry_success = True \<rparr>] \<rparr>
                   in if batch_queue s3 \<noteq> [] then start_next_mission t_next s3
                      else
                        (let s4 = (if batch_mode s3
                                   then s3\<lparr> robot_metrics := (robot_metrics s3)
                                             \<lparr> batch_completions :=
                                                 batch_completions (robot_metrics s3) + 1 \<rparr> \<rparr>
                                   else s3)
                         in Inr (s4\<lparr> current_mission := None,
                                    is_moving := False,
                                    batch_mode := False \<rparr>)))))"

text \<open>
  \<^verbatim>\<open>update_mission\<close>, the controller's tick. A mission dictionary is never empty, so the
  test \<^verbatim>\<open>self.is_moving and self.current_mission\<close> is true exactly when the flag is set
  and the mission is not \<^verbatim>\<open>None\<close>.
\<close>

definition update_mission :: "timestamp \<Rightarrow> timestamp \<Rightarrow> robot_arm \<Rightarrow> error + robot_arm" where
  "update_mission t_done t_next s =
     (if is_moving s \<and> current_mission s \<noteq> None then
        (let s1 = s\<lparr> mission_progress := mission_progress s + 2 \<rparr>
         in if mission_progress s1 \<ge> 100 then complete_mission t_done t_next s1 else Inr s1)
      else Inr s)"

definition start_mission :: "timestamp \<Rightarrow> pos3 \<Rightarrow> string \<Rightarrow> robot_arm \<Rightarrow> error + robot_arm" where
  "start_mission t obj_pos obj_color s =
     (if \<not> is_moving s then
        (case calculate_pick_mission s obj_pos obj_color of
           Inl e \<Rightarrow> Inl e
         | Inr steps \<Rightarrow>
             Inr (s\<lparr> current_mission :=
                       Some \<lparr> object_pos = obj_pos, object_color = obj_color, start_time = t \<rparr>,
                     mission_steps := steps,
                     is_moving := True,
                     mission_progress := 0 \<rparr>))
      else Inr s)"

definition start_batch_pick :: "timestamp \<Rightarrow> detected_object list \<Rightarrow> robot_arm \<Rightarrow> error + robot_arm" where
  "start_batch_pick t objects_list s =
     (if \<not> is_moving s \<and> objects_list \<noteq> [] then
        start_mission t (robot_pos (hd objects_list)) (color (hd objects_list))
          (s\<lparr> batch_mode := True, batch_queue := tl objects_list \<rparr>)
      else Inr s)"

definition start_color_batch_pick ::
  "timestamp \<Rightarrow> detected_object list \<Rightarrow> string \<Rightarrow> robot_arm \<Rightarrow> error + robot_arm" where
  "start_color_batch_pick t objects_by_color c s =
     (let color_objects = filter (\<lambda>obj. color obj = c) objects_by_color
      in if color_objects \<noteq> [] then start_batch_pick t color_objects s else Inr s)"

text \<open>
  \<^verbatim>\<open>color_order.get(x['color'], 3)\<close>, the sort key of \<^verbatim>\<open>start_all_objects_batch\<close>.
  Python's \<^verbatim>\<open>sorted\<close> is stable, as \<^const>\<open>sort_key\<close> is.
\<close>

definition color_order :: "string \<Rightarrow> nat" where
  "color_order c =
     (if c = ''Red'' then 0 else if c = ''Green'' then 1 else if c = ''Blue'' then 2 else 3)"

definition start_all_objects_batch ::
  "timestamp \<Rightarrow> detected_object list \<Rightarrow> robot_arm \<Rightarrow> error + robot_arm" where
  "start_all_objects_batch t all_objects s =
     (if all_objects \<noteq> [] then
        start_batch_pick t (sort_key (\<lambda>x. color_order (color x)) all_objects) s
      else Inr s)"

text \<open>A run of consecutive ticks, each with its two clock values; an exception ends it.\<close>

fun run_ticks :: "(timestamp \<times> timestamp) list \<Rightarrow> robot_arm \<Rightarrow> error + robot_arm" where
  "run_ticks [] s = Inr s"
| "run_ticks (t # ts) s =
     (case update_mission (fst t) (snd t) s of
        Inl e \<Rightarrow> Inl e
      | Inr s' \<Rightarrow> run_ticks ts s')"


text \<open>The history entry of a completed mission and the mission of a queued detection.\<close>

definition history_entry :: "mission \<Rightarrow> timestamp \<Rightarrow> pos3 \<Rightarrow> pick_entry" where
  "history_entry m t d =
     \<lparr> entry_color = object_color m, entry_position = object_pos m, entry_timestamp = t,
       entry_drop_location = d, entry_success = True \<rparr>"

definition mission_of :: "detected_object \<Rightarrow> timestamp \<Rightarrow> mission" where
  "mission_of obj t = \<lparr> object_pos = robot_pos obj, object_color = color obj, start_time = t \<rparr>"

section \<open>ObjectSelector\<close>

record object_selector =
  tolerance_radius :: int
  selected_object :: "detected_object option"
  selection_id :: "string option"

definition ObjectSelector_init :: "int \<Rightarrow> object_selector" where
  "ObjectSelector_init tol =
     \<lparr> tolerance_radius = tol, selected_object = None, selection_id = None \<rparr>"

text \<open>
  \<^verbatim>\<open>math.sqrt((current_x - selected_x) ** 2 + (current_y - selected_y) ** 2)\<close>, in exact
  real arithmetic.
\<close>

definition distance :: "pos2 \<Rightarrow> pos2 \<Rightarrow> real" where
  "distance cur sel =
     sqrt (real_of_int ((fst cur - fst sel)\<^sup>2 + (snd cur - snd sel)\<^sup>2))"

text \<open>The loop that collects the pairs \<^verbatim>\<open>(obj, distance)\<close> within the tolerance radius.\<close>

fun matching_objects :: "pos2 \<Rightarrow> int \<Rightarrow> detected_object list \<Rightarrow> (detected_object \<times> real) list" where
  "matching_objects sel tol [] = []"
| "matching_objects sel tol (obj # rest) =
     (let d = distance (pixel_pos obj) sel
      in if d \<le> real_of_int tol then (obj, d) # matching_objects sel tol rest
         else matching_objects sel tol rest)"

text \<open>
  \<^verbatim>\<open>update_selection\<close> returns the closest match (or \<^verbatim>\<open>None\<close>) and the selector. The list
  sort of Python is stable, as \<^const>\<open>sort_key\<close> is.
\<close>

definition update_selection ::
  "detected_object list \<Rightarrow> object_selector \<Rightarrow> detected_object option \<times> object_selector" where
  "update_selection current_objects sel =
     (case selected_object sel of
        None \<Rightarrow> (None, sel)
      | Some so \<Rightarrow>
          (let ms = matching_objects (pixel_pos so) (tolerance_radius sel) current_objects
           in if ms \<noteq> [] then
                (let closest_obj = fst (hd (sort_key snd ms))
                 in (Some closest_obj,
                     sel\<lparr> selected_object := Some closest_obj,
                          selection_id := Some (obj_id closest_obj) \<rparr>))
              else (None, sel)))"

definition select_object :: "detected_object \<Rightarrow> object_selector \<Rightarrow> object_selector" where
  "select_object obj sel = sel\<lparr> selected_object := Some obj, selection_id := Some (obj_id obj) \<rparr>"

definition clear_selection :: "object_selector \<Rightarrow> object_selector" where
  "clear_selection sel = sel\<lparr> selected_object := None, selection_id := None \<rparr>"

definition is_object_selected :: "object_selector \<Rightarrow> bool" where
  "is_object_selected sel = (selected_object sel \<noteq> None)"

section \<open>PositionStabilizer\<close>

record position_stabilizer =
  buffer_size :: nat
  position_buffers :: "string \<rightharpoonup> pos2 list"

definition PositionStabilizer_init :: "nat \<Rightarrow> position_stabilizer" where
  "PositionStabilizer_init n = \<lparr> buffer_size = n, position_buffers = Map.empty \<rparr>"

text \<open>
  \<^verbatim>\<open>deque(maxlen=n).append(x)\<close>: the new element enters on the right, and the deque keeps
  its last \<open>n\<close> elements.
\<close>

definition deque_append :: "nat \<Rightarrow> 'a list \<Rightarrow> 'a \<Rightarrow> 'a list" where
  "deque_append n buf x = (let b = buf @ [x] in drop (length b - n) b)"

text \<open>
  \<^verbatim>\<open>np.median(..., axis=0).astype(int)\<close> on one coordinate of a non-empty buffer: the
  middle element of the sorted values, or for an even count the mean of the two middle
  ones, cut towards zero by the cast.
\<close>

definition half_towards_zero :: "int \<Rightarrow> int" where
  "half_towards_zero k = (if 0 \<le> k then k div 2 else - ((- k) div 2))"

definition median_int :: "int list \<Rightarrow> int" where
  "median_int xs =
     (let s = sort xs; n = length s
      in if odd n then s ! (n div 2)
         else half_towards_zero (s ! (n div 2 - 1) + s ! (n div 2)))"

text \<open>
  \<^verbatim>\<open>PositionStabilizer.update\<close>. With \<^verbatim>\<open>buffer_size = 0\<close> the deque stays empty and numpy's
  median of no values is \<^verbatim>\<open>nan\<close>, whose cast to an integer numpy leaves undefined: that
  case is the error \<open>NanCast\<close> here.
\<close>

definition update ::
  "string \<Rightarrow> pos2 \<Rightarrow> position_stabilizer \<Rightarrow> error + (pos2 \<times> position_stabilizer)" where
  "update oid position st =
     (let old = (case position_buffers st oid of None \<Rightarrow> [] | Some b \<Rightarrow> b);
          buf = deque_append (buffer_size st) old position;
          st' = st\<lparr> position_buffers := (position_buffers st)(oid \<mapsto> buf) \<rparr>
      in if length buf = buffer_size st then
           (if buf = [] then Inl NanCast
            else Inr ((median_int (map fst buf), median_int (map snd buf)), st'))
         else Inr (position, st'))"

definition cleanup :: "string list \<Rightarrow> position_stabilizer \<Rightarrow> position_stabilizer" where
  "cleanup current_ids st =
     st\<lparr> position_buffers := position_buffers st |` set current_ids \<rparr>"


section \<open>ColorDetector\<close>

text \<open>
  The OpenCV and numpy operations that \<^verbatim>\<open>ColorDetector\<close> calls are a library outside the
  repository: they are parameters of the model, over types of images, masks and contours
  of the library's choice. The fixed arguments of the calls (the \<open>5 \<times> 5\<close> kernels, the
  retrieval mode) are part of each parameter.
\<close>

type_synonym hsv = "int \<times> int \<times> int"

record ('img, 'mask, 'cnt) cv2 =
  GaussianBlur :: "'img \<Rightarrow> 'img"
  cvtColor_BGR2HSV :: "'img \<Rightarrow> 'img"
  zeros_like_shape :: "'img \<Rightarrow> 'mask"
  inRange :: "'img \<Rightarrow> hsv \<Rightarrow> hsv \<Rightarrow> 'mask"
  bitwise_or :: "'mask \<Rightarrow> 'mask \<Rightarrow> 'mask"
  morph_open :: "'mask \<Rightarrow> 'mask"
  morph_close :: "'mask \<Rightarrow> 'mask"
  dilate :: "'mask \<Rightarrow> 'mask"
  findContours :: "'mask \<Rightarrow> 'cnt list"
  contourArea :: "'cnt \<Rightarrow> real"
  convexHull :: "'cnt \<Rightarrow> 'cnt"
  boundingRect :: "'cnt \<Rightarrow> int \<times> int \<times> int \<times> int"
  frame_shape :: "'img \<Rightarrow> int \<times> int"

text \<open>
  A cell of the colour dataset, and what \<^verbatim>\<open>pd.read_csv\<close> gives: the columns by header,
  or nothing when reading raises.
\<close>

datatype cell = IntCell int | StrCell string | FloatCell real

type_synonym dataframe = "string \<rightharpoonup> cell list"

record color_detector =
  color_names :: "cell list"
  R :: "cell list"
  G :: "cell list"
  B :: "cell list"
  hsv_ranges :: "(string \<times> (hsv \<times> hsv) list) list"

definition setup_default_colors :: "color_detector \<Rightarrow> color_detector" where
  "setup_default_colors det =
     det\<lparr> color_names := [StrCell ''Red'', StrCell ''Green'', StrCell ''Blue''],
          R := [IntCell 255, IntCell 0, IntCell 0],
          G := [IntCell 0, IntCell 255, IntCell 0],
          B := [IntCell 0, IntCell 0, IntCell 255] \<rparr>"

text \<open>
  \<^verbatim>\<open>load_color_dataset\<close>: any exception of the \<^verbatim>\<open>try\<close> block (the read, or a missing
  column) leads to the default colours, which overwrite whatever was assigned before.
\<close>

definition load_color_dataset :: "dataframe option \<Rightarrow> color_detector \<Rightarrow> color_detector" where
  "load_color_dataset csv det =
     (case csv of
        None \<Rightarrow> setup_default_colors det
      | Some df \<Rightarrow>
          (case (df ''Air Force Blue (Raf)'', df ''93'', df ''138'', df ''168'') of
             (Some names, Some r, Some g, Some b) \<Rightarrow>
               det\<lparr> color_names := names, R := r, G := g, B := b \<rparr>
           | _ \<Rightarrow> setup_default_colors det))"

definition setup_hsv_ranges :: "color_detector \<Rightarrow> color_detector" where
  "setup_hsv_ranges det =
     det\<lparr> hsv_ranges :=
            [ (''Red'', [((0, 100, 100), (10, 255, 255)), ((160, 100, 100), (180, 255, 255))]),
              (''Green'', [((35, 50, 50), (90, 255, 255))]),
              (''Blue'', [((95, 50, 50), (135, 255, 255))]) ] \<rparr>"

definition ColorDetector_init :: "dataframe option \<Rightarrow> color_detector" where
  "ColorDetector_init csv =
     setup_hsv_ranges (load_color_dataset csv
       \<lparr> color_names = [], R = [], G = [], B = [], hsv_ranges = [] \<rparr>)"

definition preprocess_frame :: "('img, 'mask, 'cnt) cv2 \<Rightarrow> 'img \<Rightarrow> 'img" where
  "preprocess_frame cv frame = cvtColor_BGR2HSV cv (GaussianBlur cv frame)"

definition clean_mask :: "('img, 'mask, 'cnt) cv2 \<Rightarrow> 'mask \<Rightarrow> 'mask" where
  "clean_mask cv msk = dilate cv (morph_close cv (morph_open cv msk))"

definition create_color_mask ::
  "('img, 'mask, 'cnt) cv2 \<Rightarrow> color_detector \<Rightarrow> 'img \<Rightarrow> string \<Rightarrow> 'mask option" where
  "create_color_mask cv det hsv_frame color_name =
     (case map_of (hsv_ranges det) color_name of
        None \<Rightarrow> None
      | Some ranges \<Rightarrow>
          Some (clean_mask cv
                  (foldl (\<lambda>msk (lower, upper). bitwise_or cv msk (inRange cv hsv_frame lower upper))
                         (zeros_like_shape cv hsv_frame) ranges)))"

text \<open>
  The filter of \<^verbatim>\<open>find_contours\<close>. Areas are the library's floating-point numbers, taken
  as reals; the areas of pixel contours are multiples of one half far below \<open>2\<^sup>5\<^sup>2\<close>, where
  the floating-point quotient exceeds the constant \<^verbatim>\<open>0.7\<close> exactly when the real one
  exceeds seven tenths.
\<close>

definition solidity :: "('img, 'mask, 'cnt) cv2 \<Rightarrow> 'cnt \<Rightarrow> real" where
  "solidity cv cnt =
     (let a = contourArea cv cnt; hull_area = contourArea cv (convexHull cv cnt)
      in if hull_area > 0 then a / hull_area else 0)"

fun filter_contours :: "('img, 'mask, 'cnt) cv2 \<Rightarrow> real \<Rightarrow> 'cnt list \<Rightarrow> 'cnt list" where
  "filter_contours cv min_area [] = []"
| "filter_contours cv min_area (cnt # rest) =
     (if contourArea cv cnt > min_area then
        (if solidity cv cnt > 7 / 10 then cnt # filter_contours cv min_area rest
         else filter_contours cv min_area rest)
      else filter_contours cv min_area rest)"

definition find_contours :: "('img, 'mask, 'cnt) cv2 \<Rightarrow> 'mask \<Rightarrow> real \<Rightarrow> 'cnt list" where
  "find_contours cv msk min_area = filter_contours cv min_area (findContours cv msk)"

text \<open>
  \<^verbatim>\<open>int(a / b)\<close> on integers: the quotient cut towards zero, \<^verbatim>\<open>ZeroDivisionError\<close> for
  \<open>b = 0\<close>.
\<close>

definition int_of_quotient :: "int \<Rightarrow> int \<Rightarrow> error + int" where
  "int_of_quotient a b =
     (if b = 0 then Inl ZeroDivisionError
      else Inr (sgn a * sgn b * (\<bar>a\<bar> div \<bar>b\<bar>)))"

text \<open>The decimal text of an integer, as an f-string prints it.\<close>

fun str_nat :: "nat \<Rightarrow> string" where
  "str_nat n =
     (if n < 10 then [char_of (48 + n)]
      else str_nat (n div 10) @ [char_of (48 + n mod 10)])"

declare str_nat.simps [simp del]

definition str_int :: "int \<Rightarrow> string" where
  "str_int i = (if i < 0 then CHR ''-'' # str_nat (nat (- i)) else str_nat (nat i))"

fun process_contours ::
  "('img, 'mask, 'cnt) cv2 \<Rightarrow> 'cnt list \<Rightarrow> string \<Rightarrow> int \<times> int \<Rightarrow> error + detected_object list" where
  "process_contours cv [] color_name shape = Inr []"
| "process_contours cv (cnt # rest) color_name shape =
     (case (boundingRect cv cnt, shape) of ((x, y, w, h), (height, width)) \<Rightarrow>
        (let center_x = x + w div 2; center_y = y + h div 2
         in case int_of_quotient (center_x * 600) width of
              Inl e \<Rightarrow> Inl e
            | Inr robot_x \<Rightarrow>
                (case int_of_quotient (center_y * 400) height of
                   Inl e \<Rightarrow> Inl e
                 | Inr robot_y \<Rightarrow>
                     (case process_contours cv rest color_name shape of
                        Inl e \<Rightarrow> Inl e
                      | Inr objs \<Rightarrow>
                          Inr (\<lparr> pixel_pos = (center_x, center_y),
                                 robot_pos = (robot_x, robot_y, 20),
                                 obj_size = (w, h),
                                 area = contourArea cv cnt,
                                 color = color_name,
                                 bbox = (x, y, w, h),
                                 obj_id = color_name @ ''_'' @ str_int center_x @ ''_'' @
                                          str_int center_y \<rparr> # objs)))))"

text \<open>The loop of \<^verbatim>\<open>detect_objects\<close> over the colour names, in the order of the table.\<close>

fun detect_colors ::
  "('img, 'mask, 'cnt) cv2 \<Rightarrow> color_detector \<Rightarrow> 'img \<Rightarrow> 'img \<Rightarrow> real \<Rightarrow> string list \<Rightarrow>
   error + detected_object list" where
  "detect_colors cv det frame hsv_frame min_area [] = Inr []"
| "detect_colors cv det frame hsv_frame min_area (color_name # rest) =
     (case (case create_color_mask cv det hsv_frame color_name of
              None \<Rightarrow> Inr []
            | Some msk \<Rightarrow>
                process_contours cv (find_contours cv msk min_area) color_name
                  (frame_shape cv frame)) of
        Inl e \<Rightarrow> Inl e
      | Inr objs \<Rightarrow>
          (case detect_colors cv det frame hsv_frame min_area rest of
             Inl e \<Rightarrow> Inl e
           | Inr others \<Rightarrow> Inr (objs @ others)))"

definition detect_objects ::
  "('img, 'mask, 'cnt) cv2 \<Rightarrow> color_detector \<Rightarrow> 'img \<Rightarrow> real \<Rightarrow> error + detected_object list" where
  "detect_objects cv det frame min_area =
     detect_colors cv det frame (preprocess_frame cv frame) min_area (map fst (hsv_ranges det))"


section \<open>RobotArmSortingSystem: the frame loop\<close>

text \<open>
  The system holds its four components. The field \<open>trace\<close> is not a field of the program:
  it records, in the order of execution, which phase of the loop body has just run, so
  that statements about the order of the phases can be made.
\<close>

datatype phase = Segmentation | Stabilization | MissionAdvance | SelectionUpdate | KeyboardInput

record sorting_system =
  color_detector :: color_detector
  robot_sim :: robot_arm
  object_selector :: object_selector
  position_stabilizer :: position_stabilizer
  trace :: "phase list"

definition RobotArmSortingSystem_init :: "dataframe option \<Rightarrow> sorting_system" where
  "RobotArmSortingSystem_init csv =
     \<lparr> color_detector = ColorDetector_init csv,
       robot_sim = RobotArmSimulator_init,
       object_selector = ObjectSelector_init 40,
       position_stabilizer = PositionStabilizer_init 5,
       trace = [] \<rparr>"

text \<open>The stabilization loop of \<^verbatim>\<open>process_frame\<close>: the smoothed objects and their ids.\<close>

fun stabilize ::
  "detected_object list \<Rightarrow> position_stabilizer \<Rightarrow>
   error + (detected_object list \<times> string list \<times> position_stabilizer)" where
  "stabilize [] st = Inr ([], [], st)"
| "stabilize (obj # rest) st =
     (case update (obj_id obj) (pixel_pos obj) st of
        Inl e \<Rightarrow> Inl e
      | Inr (stable_pos, st1) \<Rightarrow>
          (case stabilize rest st1 of
             Inl e \<Rightarrow> Inl e
           | Inr (objs, ids, st2) \<Rightarrow>
               Inr (obj\<lparr> pixel_pos := stable_pos \<rparr> # objs, obj_id obj # ids, st2)))"

definition process_frame ::
  "('img, 'mask, 'cnt) cv2 \<Rightarrow> 'img \<Rightarrow> sorting_system \<Rightarrow>
   error + (detected_object list \<times> sorting_system)" where
  "process_frame cv frame sys =
     (case detect_objects cv (color_detector sys) frame 1000 of
        Inl e \<Rightarrow> Inl e
      | Inr detected \<Rightarrow>
          (let sys1 = sys\<lparr> trace := trace sys @ [Segmentation] \<rparr>
           in case stabilize detected (position_stabilizer sys1) of
                Inl e \<Rightarrow> Inl e
              | Inr (objs, ids, st) \<Rightarrow>
                  Inr (objs, sys1\<lparr> position_stabilizer := cleanup ids st,
                                   trace := trace sys1 @ [Stabilization] \<rparr>)))"

text \<open>
  \<^verbatim>\<open>handle_keyboard_input\<close>: the key is the low byte of \<^verbatim>\<open>cv2.waitKey\<close>; the result is the
  flag that keeps the loop running. \<open>t\<close> is the clock value a started mission reads.
\<close>

definition color_map :: "char \<Rightarrow> string" where
  "color_map k = (if k = CHR ''r'' then ''Red'' else if k = CHR ''g'' then ''Green'' else ''Blue'')"

definition handle_keyboard_input ::
  "char \<Rightarrow> detected_object list \<Rightarrow> timestamp \<Rightarrow> sorting_system \<Rightarrow> error + (bool \<times> sorting_system)" where
  "handle_keyboard_input key objects t sys =
     (let sel = object_selector sys; rob = robot_sim sys
      in if key = CHR ''q'' then Inr (False, sys)
         else if key = CHR ''c'' then Inr (True, sys\<lparr> object_selector := clear_selection sel \<rparr>)
         else if key = CHR ''+'' then
           Inr (True, sys\<lparr> object_selector :=
                             sel\<lparr> tolerance_radius := min 100 (tolerance_radius sel + 5) \<rparr> \<rparr>)
         else if key = CHR ''-'' then
           Inr (True, sys\<lparr> object_selector :=
                             sel\<lparr> tolerance_radius := max 10 (tolerance_radius sel - 5) \<rparr> \<rparr>)
         else if key = CHR '' '' \<and> \<not> is_moving rob then
           (case selected_object sel of
              None \<Rightarrow> Inr (True, sys)
            | Some obj \<Rightarrow>
                (case start_mission t (robot_pos obj) (color obj) rob of
                   Inl e \<Rightarrow> Inl e
                 | Inr rob' \<Rightarrow>
                     Inr (True, sys\<lparr> robot_sim := rob',
                                     object_selector := clear_selection sel \<rparr>)))
         else if key = CHR ''f'' \<and> \<not> is_moving rob then
           (case start_all_objects_batch t objects rob of
              Inl e \<Rightarrow> Inl e
            | Inr rob' \<Rightarrow>
                Inr (True, sys\<lparr> robot_sim := rob', object_selector := clear_selection sel \<rparr>))
         else if key \<in> {CHR ''r'', CHR ''g'', CHR ''b''} \<and> \<not> is_moving rob then
           (case start_color_batch_pick t objects (color_map key) rob of
              Inl e \<Rightarrow> Inl e
            | Inr rob' \<Rightarrow>
                Inr (True, sys\<lparr> robot_sim := rob', object_selector := clear_selection sel \<rparr>))
         else if key \<in> set ''123456'' \<and> \<not> is_moving rob then
           (let obj_index = of_char key - (49 :: nat)
            in if obj_index < length objects
               then Inr (True, sys\<lparr> object_selector := select_object (objects ! obj_index) sel \<rparr>)
               else Inr (True, sys))
         else Inr (True, sys))"

text \<open>
  What one pass of the \<^verbatim>\<open>while\<close> loop of \<^verbatim>\<open>run\<close> reads from outside: the frame (none when
  the capture fails), the key, and the clock values that the controller may read.
\<close>

record 'img frame_input =
  in_frame :: "'img option"
  in_key :: char
  in_t_done :: timestamp
  in_t_next :: timestamp
  in_t_key :: timestamp

text \<open>
  One pass of the loop body, from \<^verbatim>\<open>process_frame\<close> to \<^verbatim>\<open>handle_keyboard_input\<close>, in the
  order of the statements of \<^verbatim>\<open>run\<close>. The drawing calls in between only read the state
  and are left out. The result is the flag returned by the keyboard handler.
\<close>

definition run_iteration ::
  "('img, 'mask, 'cnt) cv2 \<Rightarrow> 'img \<Rightarrow> 'img frame_input \<Rightarrow> sorting_system \<Rightarrow>
   error + (bool \<times> sorting_system)" where
  "run_iteration cv frame inp sys =
     (case process_frame cv frame sys of
        Inl e \<Rightarrow> Inl e
      | Inr (objects, sys1) \<Rightarrow>
          (case update_mission (in_t_done inp) (in_t_next inp) (robot_sim sys1) of
             Inl e \<Rightarrow> Inl e
           | Inr rob \<Rightarrow>
               (let sys2 = sys1\<lparr> robot_sim := rob, trace := trace sys1 @ [MissionAdvance] \<rparr>;
                    sel = (if is_moving (robot_sim sys2)
                           then clear_selection (object_selector sys2)
                           else snd (update_selection objects (object_selector sys2)));
                    sys3 = sys2\<lparr> object_selector := sel,
                                trace := trace sys2 @ [SelectionUpdate] \<rparr>
                in case handle_keyboard_input (in_key inp) objects (in_t_key inp) sys3 of
                     Inl e \<Rightarrow> Inl e
                   | Inr (continue, sys4) \<Rightarrow>
                       Inr (continue, sys4\<lparr> trace := trace sys4 @ [KeyboardInput] \<rparr>))))"

text \<open>
  The loop of \<^verbatim>\<open>run\<close> over a finite sequence of inputs: it ends when the capture gives no
  frame, when the handler returns \<^verbatim>\<open>False\<close>, with an exception, or with the inputs.
\<close>

fun run :: "('img, 'mask, 'cnt) cv2 \<Rightarrow> 'img frame_input list \<Rightarrow> sorting_system \<Rightarrow> error + sorting_system" where
  "run cv [] sys = Inr sys"
| "run cv (inp # inps) sys =
     (case in_frame inp of
        None \<Rightarrow> Inr sys
      | Some frame \<Rightarrow>
          (case run_iteration cv frame inp sys of
             Inl e \<Rightarrow> Inl e
           | Inr (continue, sys') \<Rightarrow> if continue then run cv inps sys' else Inr sys'))"

section \<open>Notions used in the statements, and examples\<close>

text \<open>
  The nine steps that \<^verbatim>\<open>calculate_pick_mission\<close> lists, for an object position, a drop
  position and the home position.
\<close>

definition mission_plan :: "pos3 \<Rightarrow> pos3 \<Rightarrow> pos3 \<Rightarrow> step list" where
  "mission_plan obj drp home =
     (case (obj, drp) of ((x, y, z), (dx, dy, dz)) \<Rightarrow>
        [ Move (x, y, z + 50) ''Approach object'',
          Move (x, y, z) ''Lower to object'',
          Gripper ''close'' ''Pick up object'',
          Move (x, y, z + 80) ''Lift object'',
          Move (dx, dy, z + 80) ''Move above drop zone'',
          Move (dx, dy, dz) ''Lower to drop height'',
          Gripper ''open'' ''Release object'',
          Move (dx, dy, dz + 80) ''Lift from drop zone'',
          Move home ''Return to home'' ])"

text \<open>
  The states a controller can be in: every method that changes the controller, called
  with any arguments in any order from the constructor's state, when it returns.
\<close>

inductive controller_step :: "robot_arm \<Rightarrow> robot_arm \<Rightarrow> bool" where
  step_start_mission: "start_mission t p c s = Inr s' \<Longrightarrow> controller_step s s'"
| step_start_batch_pick: "start_batch_pick t objs s = Inr s' \<Longrightarrow> controller_step s s'"
| step_start_color_batch_pick:
    "start_color_batch_pick t objs c s = Inr s' \<Longrightarrow> controller_step s s'"
| step_start_all_objects_batch:
    "start_all_objects_batch t objs s = Inr s' \<Longrightarrow> controller_step s s'"
| step_update_mission: "update_mission t_done t_next s = Inr s' \<Longrightarrow> controller_step s s'"
| step_complete_mission: "complete_mission t_done t_next s = Inr s' \<Longrightarrow> controller_step s s'"
| step_start_next_mission: "start_next_mission t s = Inr s' \<Longrightarrow> controller_step s s'"

inductive reachable :: "robot_arm \<Rightarrow> bool" where
  reachable_init: "reachable RobotArmSimulator_init"
| reachable_step: "reachable s \<Longrightarrow> controller_step s s' \<Longrightarrow> reachable s'"

text \<open>A state in the middle of a mission, for examples.\<close>

definition busy_example :: robot_arm where
  "busy_example =
     RobotArmSimulator_init
       \<lparr> current_mission :=
           Some \<lparr> object_pos = (120, 80, 20), object_color = ''Red'', start_time = 7 \<rparr>,
         mission_steps := mission_plan (120, 80, 20) (100, 350, 50) home_position,
         is_moving := True,
         mission_progress := 0 \<rparr>"

text \<open>The state after that mission has been completed at time 8.\<close>

definition done_example :: robot_arm where
  "done_example =
     RobotArmSimulator_init
       \<lparr> mission_steps := mission_plan (120, 80, 20) (100, 350, 50) home_position,
         pick_history :=
           [\<lparr> entry_color = ''Red'', entry_position = (120, 80, 20), entry_timestamp = 8,
              entry_drop_location = (100, 350, 50), entry_success = True \<rparr>],
         robot_metrics :=
           \<lparr> total_picks = 1, successful_picks = 1, failed_picks = 0,
             average_pick_time = 0, batch_completions = 0 \<rparr> \<rparr>"

text \<open>
  The bookkeeping of picks: the two pick counters and the history agree, and nothing has
  failed. Between two states: no counter is lower and the old history is a prefix of
  the new one.
\<close>

definition counters_kept :: "metrics \<Rightarrow> metrics \<Rightarrow> bool" where
  "counters_kept m m' =
     (total_picks m \<le> total_picks m' \<and> successful_picks m \<le> successful_picks m' \<and>
      failed_picks m \<le> failed_picks m' \<and> average_pick_time m \<le> average_pick_time m' \<and>
      batch_completions m \<le> batch_completions m')"

definition pick_bookkeeping :: "robot_arm \<Rightarrow> bool" where
  "pick_bookkeeping s =
     (total_picks (robot_metrics s) = successful_picks (robot_metrics s) \<and>
      successful_picks (robot_metrics s) = int (length (pick_history s)) \<and>
      failed_picks (robot_metrics s) = 0 \<and>
      list_all entry_success (pick_history s))"

definition history_kept :: "robot_arm \<Rightarrow> robot_arm \<Rightarrow> bool" where
  "history_kept s s' =
     (counters_kept (robot_metrics s) (robot_metrics s') \<and>
      take (length (pick_history s)) (pick_history s') = pick_history s \<and>
      length (pick_history s) \<le> length (pick_history s'))"

text \<open>
  The order in which \<^verbatim>\<open>start_all_objects_batch\<close> hands the objects on, and what a
  detection, a mission and the history say about the colour and place of a pick.
\<close>

definition batch_order :: "detected_object list \<Rightarrow> detected_object list" where
  "batch_order objs = sort_key (\<lambda>x. color_order (color x)) objs"

definition target_of :: "detected_object \<Rightarrow> string \<times> pos3" where
  "target_of obj = (color obj, robot_pos obj)"

definition mission_target :: "mission \<Rightarrow> string \<times> pos3" where
  "mission_target m = (object_color m, object_pos m)"

definition picked :: "robot_arm \<Rightarrow> (string \<times> pos3) list" where
  "picked s = map (\<lambda>e. (entry_color e, entry_position e)) (pick_history s)"

text \<open>Three detections in a \<open>640 \<times> 480\<close> frame, for examples.\<close>

definition red_obj :: detected_object where
  "red_obj = \<lparr> pixel_pos = (128, 96), robot_pos = (120, 80, 20), obj_size = (40, 40),
               area = 1600, color = ''Red'', bbox = (108, 76, 40, 40), obj_id = ''Red_128_96'' \<rparr>"

definition green_obj :: detected_object where
  "green_obj = \<lparr> pixel_pos = (320, 240), robot_pos = (300, 200, 20), obj_size = (40, 40),
                 area = 1600, color = ''Green'', bbox = (300, 220, 40, 40),
                 obj_id = ''Green_320_240'' \<rparr>"

definition blue_obj :: detected_object where
  "blue_obj = \<lparr> pixel_pos = (480, 120), robot_pos = (450, 100, 20), obj_size = (40, 40),
                area = 1600, color = ''Blue'', bbox = (460, 100, 40, 40),
                obj_id = ''Blue_480_120'' \<rparr>"

text \<open>
  The history that the stabilizer holds for an identity (none yet is the empty one), a
  run of consecutive updates for one identity with the positions they return, and what
  it means for a value to be the median of an odd number of values: it occurs among
  them, with fewer than half of them below it and fewer than half above it.
\<close>

definition history_of :: "position_stabilizer \<Rightarrow> string \<Rightarrow> pos2 list" where
  "history_of st oid = (case position_buffers st oid of None \<Rightarrow> [] | Some b \<Rightarrow> b)"

fun feed ::
  "string \<Rightarrow> pos2 list \<Rightarrow> position_stabilizer \<Rightarrow> error + (pos2 list \<times> position_stabilizer)" where
  "feed oid [] st = Inr ([], st)"
| "feed oid (p # ps) st =
     (case update oid p st of
        Inl e \<Rightarrow> Inl e
      | Inr (r, st1) \<Rightarrow>
          (case feed oid ps st1 of
             Inl e \<Rightarrow> Inl e
           | Inr (rs, st2) \<Rightarrow> Inr (r # rs, st2)))"

definition is_median :: "int \<Rightarrow> int list \<Rightarrow> bool" where
  "is_median m xs =
     (m \<in> set xs \<and> 2 * length (filter (\<lambda>x. x < m) xs) < length xs \<and>
      2 * length (filter (\<lambda>x. m < x) xs) < length xs)"

text \<open>A stabilizer that has seen the same position of one identity four times.\<close>

definition four_seen :: position_stabilizer where
  "four_seen =
     \<lparr> buffer_size = 5,
       position_buffers =
         [''Red_128_96'' \<mapsto> [(128, 96), (128, 96), (128, 96), (128, 96)]] \<rparr>"

text \<open>
  A detection lies within the tolerance radius of the selected position; and a selector
  with a Red object at pixel (100, 100) selected and tolerance 40, with two detections
  at distances 20 and 100 from it, for examples.
\<close>

definition within_tolerance :: "object_selector \<Rightarrow> detected_object \<Rightarrow> detected_object \<Rightarrow> bool" where
  "within_tolerance sel so obj =
     (distance (pixel_pos obj) (pixel_pos so) \<le> real_of_int (tolerance_radius sel))"

definition object_at :: "int \<Rightarrow> int \<Rightarrow> detected_object" where
  "object_at x y =
     \<lparr> pixel_pos = (x, y), robot_pos = (x * 600 div 640, y * 400 div 480, 20),
       obj_size = (40, 40), area = 1600, color = ''Red'',
       bbox = (x - 20, y - 20, 40, 40),
       obj_id = ''Red_'' @ str_int x @ ''_'' @ str_int y \<rparr>"

definition selector_example :: object_selector where
  "selector_example =
     \<lparr> tolerance_radius = 40, selected_object = Some (object_at 100 100),
       selection_id = Some (obj_id (object_at 100 100)) \<rparr>"

section \<open>A synthetic scene for examples\<close>

text \<open>
  To run the detector on concrete input, the library's parameters are instantiated by a
  scene of blobs: each blob has one HSV colour, a bounding box, an area and the area of
  its convex hull. A frame is its shape (height, width) and its blobs; a mask is the list
  of the blobs it selects; blur, colour conversion and the morphological steps leave a
  scene as it is.
\<close>

record blob =
  blob_hsv :: hsv
  blob_bbox :: "int \<times> int \<times> int \<times> int"
  blob_area :: real
  blob_hull_area :: real

type_synonym scene = "(int \<times> int) \<times> blob list"

definition hsv_in_range :: "hsv \<Rightarrow> hsv \<Rightarrow> hsv \<Rightarrow> bool" where
  "hsv_in_range lower upper v =
     (case (lower, upper, v) of ((lh, ls, lv), (uh, us, uv), (h, s, b)) \<Rightarrow>
        lh \<le> h \<and> h \<le> uh \<and> ls \<le> s \<and> s \<le> us \<and> lv \<le> b \<and> b \<le> uv)"

definition scene_cv :: "(scene, blob list, blob) cv2" where
  "scene_cv =
     \<lparr> GaussianBlur = (\<lambda>img. img),
       cvtColor_BGR2HSV = (\<lambda>img. img),
       zeros_like_shape = (\<lambda>img. []),
       inRange = (\<lambda>img lower upper. filter (\<lambda>b. hsv_in_range lower upper (blob_hsv b)) (snd img)),
       bitwise_or = (\<lambda>m1 m2. m1 @ m2),
       morph_open = (\<lambda>m. m),
       morph_close = (\<lambda>m. m),
       dilate = (\<lambda>m. m),
       findContours = (\<lambda>m. m),
       contourArea = blob_area,
       convexHull = (\<lambda>b. b\<lparr> blob_area := blob_hull_area b \<rparr>),
       boundingRect = blob_bbox,
       frame_shape = fst \<rparr>"

text \<open>
  Three red blobs: a \<open>40 \<times> 40\<close> square; a \<open>40 \<times> 25\<close> rectangle, whose area is exactly
  1000; and a concave shape that fills six tenths of its hull.
\<close>

definition square_blob :: blob where
  "square_blob = \<lparr> blob_hsv = (5, 200, 200), blob_bbox = (108, 76, 40, 40),
                    blob_area = 1600, blob_hull_area = 1600 \<rparr>"

definition boundary_blob :: blob where
  "boundary_blob = \<lparr> blob_hsv = (5, 200, 200), blob_bbox = (300, 200, 40, 25),
                      blob_area = 1000, blob_hull_area = 1000 \<rparr>"

definition concave_blob :: blob where
  "concave_blob = \<lparr> blob_hsv = (5, 200, 200), blob_bbox = (400, 300, 50, 40),
                     blob_area = 1200, blob_hull_area = 2000 \<rparr>"

definition red_scene :: scene where
  "red_scene = ((480, 640), [square_blob])"

text \<open>A dataset with the four columns that \<^verbatim>\<open>load_color_dataset\<close> reads.\<close>

definition colors_csv :: dataframe where
  "colors_csv =
     [''Air Force Blue (Raf)'' \<mapsto> [StrCell ''Alabama Crimson'', StrCell ''Amber''],
      ''93'' \<mapsto> [IntCell 163, IntCell 255],
      ''138'' \<mapsto> [IntCell 38, IntCell 191],
      ''168'' \<mapsto> [IntCell 56, IntCell 0]]"

section \<open>Statements about the frame loop\<close>



definition unselected_while_moving :: "sorting_system \<Rightarrow> bool" where
  "unselected_while_moving sys =
     (if is_moving (robot_sim sys)
      then selected_object (object_selector sys) = None \<and>
           selection_id (object_selector sys) = None
      else True)"

text \<open>
  Inputs and systems for examples: a frame with the red square and no key pressed (the
  low byte of \<^verbatim>\<open>-1\<close>), the space bar or the key f; the system as constructed, with the
  red object selected, and in the middle of a mission.
\<close>

definition no_key_input :: "scene frame_input" where
  "no_key_input =
     \<lparr> in_frame = Some red_scene, in_key = CHR 0xFF,
       in_t_done = 20, in_t_next = 21, in_t_key = 22 \<rparr>"

definition space_key_input :: "scene frame_input" where
  "space_key_input = no_key_input\<lparr> in_key := CHR '' '', in_t_key := 7 \<rparr>"

definition all_key_input :: "scene frame_input" where
  "all_key_input = no_key_input\<lparr> in_key := CHR ''f'' \<rparr>"

definition selected_system :: sorting_system where
  "selected_system =
     (RobotArmSortingSystem_init None)
       \<lparr> object_selector := select_object red_obj (ObjectSelector_init 40) \<rparr>"


text \<open>The last \<open>n\<close> elements of a list: what a deque of that capacity keeps.\<close>

definition keep_last :: "nat \<Rightarrow> 'a list \<Rightarrow> 'a list" where
  "keep_last n xs = drop (length xs - n) xs"

text \<open>
  A stabilizer whose buffer for the identity is full, with one outlier as its newest
  entry; and a sequence of seven positions: four equal ones, an outlier, and two of a
  new position.
\<close>

definition five_seen :: position_stabilizer where
  "five_seen =
     \<lparr> buffer_size = 5,
       position_buffers =
         [''Red_128_96'' \<mapsto> [(128, 96), (128, 96), (128, 96), (128, 96), (300, 10)]] \<rparr>"

definition seven_positions :: "pos2 list" where
  "seven_positions =
     [(128, 96), (128, 96), (128, 96), (128, 96), (300, 10), (130, 96), (130, 96)]"

text \<open>A detection of a colour that has no drop location.\<close>

definition purple_obj :: detected_object where
  "purple_obj = \<lparr> pixel_pos = (200, 300), robot_pos = (187, 250, 20), obj_size = (40, 40),
                  area = 1600, color = ''Purple'', bbox = (180, 280, 40, 40),
                  obj_id = ''Purple_200_300'' \<rparr>"

section \<open>Properties of the controller\<close>

lemma run_ticks_append:
  "run_ticks (xs @ ys) s = (case run_ticks xs s of Inl e \<Rightarrow> Inl e | Inr s' \<Rightarrow> run_ticks ys s')"
  by (induction xs arbitrary: s) (auto split: sum.splits)

lemma update_mission_below:
  "is_moving s \<Longrightarrow> current_mission s \<noteq> None \<Longrightarrow> mission_progress s + 2 < 100 \<Longrightarrow>
   update_mission a b s = Inr (s\<lparr>mission_progress := mission_progress s + 2\<rparr>)"
  by (simp add: update_mission_def Let_def)

lemma run_ticks_below:
  "is_moving s \<Longrightarrow> current_mission s \<noteq> None \<Longrightarrow>
   mission_progress s + 2 * int (length ts) < 100 \<Longrightarrow>
   run_ticks ts s = Inr (s\<lparr>mission_progress := mission_progress s + 2 * int (length ts)\<rparr>)"
proof (induction ts arbitrary: s)
  case Nil
  then show ?case by simp
next
  case (Cons t ts)
  let ?s1 = "s\<lparr>mission_progress := mission_progress s + 2\<rparr>"
  have step: "update_mission (fst t) (snd t) s = Inr ?s1"
    using Cons.prems by (intro update_mission_below) auto
  have "run_ticks ts ?s1 =
        Inr (?s1\<lparr>mission_progress := mission_progress ?s1 + 2 * int (length ts)\<rparr>)"
    using Cons.prems by (intro Cons.IH) auto
  then show ?case using step by (simp add: algebra_simps)
qed

lemma update_mission_reach:
  "is_moving s \<Longrightarrow> current_mission s \<noteq> None \<Longrightarrow> mission_progress s = 98 \<Longrightarrow>
   update_mission a b s = complete_mission a b (s\<lparr>mission_progress := 100\<rparr>)"
  by (simp add: update_mission_def Let_def)

lemma run_ticks_fifty:
  assumes "is_moving s" "current_mission s \<noteq> None" "mission_progress s = 0" "length ts = 49"
  shows "run_ticks (ts @ [t]) s = complete_mission (fst t) (snd t) (s\<lparr>mission_progress := 100\<rparr>)"
proof -
  have "run_ticks ts s = Inr (s\<lparr>mission_progress := 98\<rparr>)"
    using run_ticks_below[of s ts] assms by simp
  moreover have "update_mission (fst t) (snd t) (s\<lparr>mission_progress := 98\<rparr>) =
      complete_mission (fst t) (snd t) (s\<lparr>mission_progress := 100\<rparr>)"
    using update_mission_reach[of "s\<lparr>mission_progress := 98\<rparr>"] assms by simp
  ultimately show ?thesis
    by (simp add: run_ticks_append split: sum.splits)
qed

lemma complete_mission_last:
  assumes "current_mission s = Some m" "drop_locations s (object_color m) = Some d"
    "batch_queue s = []"
  shows "complete_mission a b s =
     Inr (s\<lparr> mission_progress := 0,
             robot_metrics := (count_pick (robot_metrics s))
               \<lparr> batch_completions := batch_completions (robot_metrics s) +
                                       (if batch_mode s then 1 else 0) \<rparr>,
             pick_history := pick_history s @ [history_entry m a d],
             current_mission := None, is_moving := False, batch_mode := False \<rparr>)"
  using assms by (simp add: complete_mission_def Let_def history_entry_def count_pick_def)

lemma complete_mission_next:
  assumes "current_mission s = Some m" "drop_locations s (object_color m) = Some d"
    "batch_queue s = q # qs"
    "calculate_pick_mission s (robot_pos q) (color q) = Inr steps"
  shows "complete_mission a b s =
     Inr (s\<lparr> mission_progress := 0,
             robot_metrics := count_pick (robot_metrics s),
             pick_history := pick_history s @ [history_entry m a d],
             batch_queue := qs,
             current_mission := Some (mission_of q b),
             mission_steps := steps \<rparr>)"
  using assms
  by (simp add: complete_mission_def Let_def history_entry_def start_next_mission_def
      calculate_pick_mission_def mission_of_def split: prod.splits option.splits)

lemma drop_table_known:
  "c \<in> {''Red'', ''Green'', ''Blue''} \<Longrightarrow> \<exists>d. drop_table c = Some d"
  by (auto simp: drop_table_def)

lemma calculate_pick_mission_known:
  "drop_locations s c = Some d \<Longrightarrow>
   calculate_pick_mission s p c = Inr (mission_plan p d (current_position s))"
  by (simp add: calculate_pick_mission_def mission_plan_def split: prod.splits)

lemma start_mission_idle:
  "\<not> is_moving s \<Longrightarrow> drop_locations s c = Some d \<Longrightarrow>
   start_mission t p c s =
     Inr (s\<lparr> current_mission := Some \<lparr> object_pos = p, object_color = c, start_time = t \<rparr>,
             mission_steps := mission_plan p d (current_position s),
             is_moving := True, mission_progress := 0 \<rparr>)"
  by (simp add: start_mission_def calculate_pick_mission_known)

subsection \<open>C1: a mission from start to completion\<close>

text \<open>
  Claim C1. For every position and every colour among Red, Green and Blue, \<^verbatim>\<open>start_mission\<close>
  on an idle controller (with the drop table of the constructor) makes it move, with
  progress 0 and the nine steps of the plan in their fixed order: approach above the
  object, lower to it, close the gripper, lift, move above the colour's drop zone, lower
  to drop height, open the gripper, lift from the drop zone, return home. Any fewer than
  50 ticks only add 2 to the progress each, and leave history, metrics and mission alone.
  The 50th tick raises the progress to 100 and is the call of \<^verbatim>\<open>complete_mission\<close>: with an
  empty queue it appends exactly one history entry, counts one pick and leaves the
  controller idle with no mission; with a queued object of a known colour it appends the
  same single entry and starts that object's mission.
\<close>

theorem start_mission_then_fifty_ticks:
  assumes idle: "\<not> is_moving s"
    and tbl: "drop_locations s = drop_table"
    and col: "c \<in> {''Red'', ''Green'', ''Blue''}"
  shows "\<exists>s0 d.
      drop_table c = Some d
    \<and> start_mission t0 p c s = Inr s0
    \<and> is_moving s0 \<and> mission_progress s0 = 0
    \<and> current_mission s0 = Some \<lparr> object_pos = p, object_color = c, start_time = t0 \<rparr>
    \<and> mission_steps s0 = mission_plan p d (current_position s)
    \<and> length (mission_steps s0) = 9
    \<and> pick_history s0 = pick_history s \<and> robot_metrics s0 = robot_metrics s
    \<and> batch_queue s0 = batch_queue s
    \<and> (\<forall>ts. length ts < 50 \<longrightarrow>
          run_ticks ts s0 = Inr (s0\<lparr> mission_progress := 2 * int (length ts) \<rparr>))
    \<and> (\<forall>ts t. length ts = 49 \<longrightarrow>
          run_ticks (ts @ [t]) s0 =
            complete_mission (fst t) (snd t) (s0\<lparr> mission_progress := 100 \<rparr>))
    \<and> (\<forall>ts t. length ts = 49 \<and> batch_queue s = [] \<longrightarrow>
          run_ticks (ts @ [t]) s0 =
            Inr (s\<lparr> mission_steps := mission_plan p d (current_position s),
                    mission_progress := 0,
                    robot_metrics := (count_pick (robot_metrics s))
                      \<lparr> batch_completions := batch_completions (robot_metrics s) +
                                              (if batch_mode s then 1 else 0) \<rparr>,
                    pick_history := pick_history s @
                      [history_entry \<lparr> object_pos = p, object_color = c, start_time = t0 \<rparr>
                         (fst t) d],
                    current_mission := None, is_moving := False, batch_mode := False \<rparr>))
    \<and> (\<forall>ts t q qs dq. length ts = 49 \<and> batch_queue s = q # qs \<and>
                       drop_table (color q) = Some dq \<longrightarrow>
          run_ticks (ts @ [t]) s0 =
            Inr (s\<lparr> is_moving := True,
                    mission_progress := 0,
                    robot_metrics := count_pick (robot_metrics s),
                    pick_history := pick_history s @
                      [history_entry \<lparr> object_pos = p, object_color = c, start_time = t0 \<rparr>
                         (fst t) d],
                    batch_queue := qs,
                    current_mission := Some (mission_of q (snd t)),
                    mission_steps := mission_plan (robot_pos q) dq (current_position s) \<rparr>))"
proof -
  from col obtain d where d: "drop_table c = Some d"
    using drop_table_known by blast
  let ?m = "\<lparr> object_pos = p, object_color = c, start_time = t0 \<rparr>"
  define s0 where "s0 = s\<lparr> current_mission := Some ?m,
      mission_steps := mission_plan p d (current_position s),
      is_moving := True, mission_progress := 0 \<rparr>"
  define s100 where "s100 = s0\<lparr> mission_progress := 100 \<rparr>"
  have start: "start_mission t0 p c s = Inr s0"
    unfolding s0_def using idle d tbl by (intro start_mission_idle) auto
  have len: "length (mission_steps s0) = 9"
    by (simp add: s0_def mission_plan_def split: prod.splits)
  have below: "run_ticks ts s0 = Inr (s0\<lparr> mission_progress := 2 * int (length ts) \<rparr>)"
    if "length ts < 50" for ts
    using run_ticks_below[of s0 ts] that by (simp add: s0_def)
  have fifty: "run_ticks (ts @ [t]) s0 = complete_mission (fst t) (snd t) s100"
    if "length ts = 49" for ts t
    unfolding s100_def using that by (intro run_ticks_fifty) (simp_all add: s0_def)
  have cur: "current_mission s100 = Some ?m"
    and drp: "drop_locations s100 (object_color ?m) = Some d"
    using d tbl by (simp_all add: s100_def s0_def)
  have fin: "run_ticks (ts @ [t]) s0 =
            Inr (s\<lparr> mission_steps := mission_plan p d (current_position s),
                    mission_progress := 0,
                    robot_metrics := (count_pick (robot_metrics s))
                      \<lparr> batch_completions := batch_completions (robot_metrics s) +
                                              (if batch_mode s then 1 else 0) \<rparr>,
                    pick_history := pick_history s @ [history_entry ?m (fst t) d],
                    current_mission := None, is_moving := False, batch_mode := False \<rparr>)"
    if "length ts = 49 \<and> batch_queue s = []" for ts t
  proof -
    have "batch_queue s100 = []" using that by (simp add: s100_def s0_def)
    from complete_mission_last[OF cur drp this, of "fst t" "snd t"] fifty[of ts t] that
    show ?thesis by (simp add: s100_def s0_def)
  qed
  have nxt: "run_ticks (ts @ [t]) s0 =
            Inr (s\<lparr> is_moving := True,
                    mission_progress := 0,
                    robot_metrics := count_pick (robot_metrics s),
                    pick_history := pick_history s @ [history_entry ?m (fst t) d],
                    batch_queue := qs,
                    current_mission := Some (mission_of q (snd t)),
                    mission_steps := mission_plan (robot_pos q) dq (current_position s) \<rparr>)"
    if "length ts = 49 \<and> batch_queue s = q # qs \<and> drop_table (color q) = Some dq"
    for ts t q qs dq
  proof -
    have q: "batch_queue s100 = q # qs" using that by (simp add: s100_def s0_def)
    have "calculate_pick_mission s100 (robot_pos q) (color q) =
        Inr (mission_plan (robot_pos q) dq (current_position s100))"
      using that tbl by (intro calculate_pick_mission_known) (simp add: s100_def s0_def)
    from complete_mission_next[OF cur drp q this, of "fst t" "snd t"] fifty[of ts t] that
    show ?thesis by (simp add: s100_def s0_def)
  qed
  show ?thesis
  proof (intro exI[of _ s0] exI[of _ d] conjI allI impI)
    show "drop_table c = Some d" by (rule d)
    show "start_mission t0 p c s = Inr s0" by (rule start)
    show "length (mission_steps s0) = 9" by (rule len)
    show "run_ticks ts s0 = Inr (s0\<lparr> mission_progress := 2 * int (length ts) \<rparr>)"
      if "length ts < 50" for ts by (rule below[OF that])
    show "run_ticks (ts @ [t]) s0 =
        complete_mission (fst t) (snd t) (s0\<lparr> mission_progress := 100 \<rparr>)"
      if "length ts = 49" for ts t using fifty[OF that] by (simp add: s100_def)
    show "run_ticks (ts @ [t]) s0 =
            Inr (s\<lparr> mission_steps := mission_plan p d (current_position s),
                    mission_progress := 0,
                    robot_metrics := (count_pick (robot_metrics s))
                      \<lparr> batch_completions := batch_completions (robot_metrics s) +
                                              (if batch_mode s then 1 else 0) \<rparr>,
                    pick_history := pick_history s @ [history_entry ?m (fst t) d],
                    current_mission := None, is_moving := False, batch_mode := False \<rparr>)"
      if "length ts = 49 \<and> batch_queue s = []" for ts t
      by (rule fin[OF that])
    show "run_ticks (ts @ [t]) s0 =
            Inr (s\<lparr> is_moving := True,
                    mission_progress := 0,
                    robot_metrics := count_pick (robot_metrics s),
                    pick_history := pick_history s @ [history_entry ?m (fst t) d],
                    batch_queue := qs,
                    current_mission := Some (mission_of q (snd t)),
                    mission_steps := mission_plan (robot_pos q) dq (current_position s) \<rparr>)"
      if "length ts = 49 \<and> batch_queue s = q # qs \<and> drop_table (color q) = Some dq"
      for ts t q qs dq
      by (rule nxt[OF that])
  qed (simp_all add: s0_def)
qed

theorem start_mission_then_fifty_ticks_witness:
  "\<not> is_moving RobotArmSimulator_init
   \<and> drop_locations RobotArmSimulator_init = drop_table
   \<and> ''Red'' \<in> {''Red'', ''Green'', ''Blue''}
   \<and> (\<exists>s0. start_mission 7 (120, 80, 20) ''Red'' RobotArmSimulator_init = Inr s0
        \<and> mission_steps s0 =
            [ Move (120, 80, 70) ''Approach object'',
              Move (120, 80, 20) ''Lower to object'',
              Gripper ''close'' ''Pick up object'',
              Move (120, 80, 100) ''Lift object'',
              Move (100, 350, 100) ''Move above drop zone'',
              Move (100, 350, 50) ''Lower to drop height'',
              Gripper ''open'' ''Release object'',
              Move (100, 350, 130) ''Lift from drop zone'',
              Move (300, 200, 100) ''Return to home'' ]
        \<and> run_ticks (replicate 49 (8, 9)) s0 = Inr (s0\<lparr> mission_progress := 98 \<rparr>)
        \<and> (\<exists>s'. run_ticks (replicate 49 (8, 9) @ [(8, 9)]) s0 = Inr s'
              \<and> \<not> is_moving s' \<and> current_mission s' = None \<and> mission_progress s' = 0
              \<and> length (pick_history s') = 1
              \<and> total_picks (robot_metrics s') = 1))"
proof -
  have h1: "\<not> is_moving RobotArmSimulator_init"
    and h2: "drop_locations RobotArmSimulator_init = drop_table"
    and q: "batch_queue RobotArmSimulator_init = []"
    by (simp_all add: RobotArmSimulator_init_def)
  have h3: "''Red'' \<in> {''Red'', ''Green'', ''Blue''}" by simp
  have d: "drop_table ''Red'' = Some (100, 350, 50)" by (simp add: drop_table_def)
  from start_mission_then_fifty_ticks[OF h1 h2 h3, of 7 "(120, 80, 20)"]
  obtain s0 d' where
    a: "drop_table ''Red'' = Some d'"
    and b: "start_mission 7 (120, 80, 20) ''Red'' RobotArmSimulator_init = Inr s0"
    and c: "mission_steps s0 = mission_plan (120, 80, 20) d' (current_position RobotArmSimulator_init)"
    and e: "\<forall>ts. length ts < 50 \<longrightarrow>
          run_ticks ts s0 = Inr (s0\<lparr> mission_progress := 2 * int (length ts) \<rparr>)"
    and f: "\<forall>ts t. length ts = 49 \<and> batch_queue RobotArmSimulator_init = [] \<longrightarrow>
          run_ticks (ts @ [t]) s0 =
            Inr (RobotArmSimulator_init\<lparr> mission_steps := mission_plan (120, 80, 20) d' (current_position RobotArmSimulator_init),
                    mission_progress := 0,
                    robot_metrics := (count_pick (robot_metrics RobotArmSimulator_init))
                      \<lparr> batch_completions := batch_completions (robot_metrics RobotArmSimulator_init) +
                                              (if batch_mode RobotArmSimulator_init then 1 else 0) \<rparr>,
                    pick_history := pick_history RobotArmSimulator_init @
                      [history_entry \<lparr> object_pos = (120, 80, 20), object_color = ''Red'', start_time = 7 \<rparr>
                         (fst t) d'],
                    current_mission := None, is_moving := False, batch_mode := False \<rparr>)"
    by blast
  have d': "d' = (100, 350, 50)" using a d by simp
  have steps: "mission_steps s0 =
            [ Move (120, 80, 70) ''Approach object'',
              Move (120, 80, 20) ''Lower to object'',
              Gripper ''close'' ''Pick up object'',
              Move (120, 80, 100) ''Lift object'',
              Move (100, 350, 100) ''Move above drop zone'',
              Move (100, 350, 50) ''Lower to drop height'',
              Gripper ''open'' ''Release object'',
              Move (100, 350, 130) ''Lift from drop zone'',
              Move (300, 200, 100) ''Return to home'' ]"
    using c d' by (simp add: mission_plan_def RobotArmSimulator_init_def home_position_def)
  have t49: "run_ticks (replicate 49 (8, 9)) s0 = Inr (s0\<lparr> mission_progress := 98 \<rparr>)"
    using e[rule_format, of "replicate 49 (8, 9)"] by simp
  have t50: "\<exists>s'. run_ticks (replicate 49 (8, 9) @ [(8, 9)]) s0 = Inr s'
              \<and> \<not> is_moving s' \<and> current_mission s' = None \<and> mission_progress s' = 0
              \<and> length (pick_history s') = 1
              \<and> total_picks (robot_metrics s') = 1"
    using f[rule_format, of "replicate 49 (8, 9)" "(8, 9)"] q
    by (simp add: RobotArmSimulator_init_def count_pick_def)
  show ?thesis using h1 h2 h3 b steps t49 t50 by blast
qed

lemma busy_example_started:
  "start_mission 7 (120, 80, 20) ''Red'' RobotArmSimulator_init = Inr busy_example"
  by (simp add: start_mission_def calculate_pick_mission_def RobotArmSimulator_init_def
      drop_table_def busy_example_def mission_plan_def)

lemma busy_example_reachable: "reachable busy_example"
  using reachable_init busy_example_started
  by (blast intro: reachable_step step_start_mission)

subsection \<open>C7: no second mission while one runs\<close>

text \<open>
  Claim C7. On every controller state with \<^verbatim>\<open>is_moving\<close> set, and for every position and
  colour, \<^verbatim>\<open>start_mission\<close> returns without changing the state: the mission, its steps
  and progress, the queue, the batch flag, the history and the metrics are what they
  were.
\<close>

theorem start_mission_noop_while_moving:
  "is_moving s \<Longrightarrow> start_mission t p c s = Inr s"
  by (simp add: start_mission_def)

theorem start_mission_noop_while_moving_witness:
  "is_moving busy_example \<and> start_mission 9 (1, 2, 3) ''Purple'' busy_example = Inr busy_example"
proof -
  have h: "is_moving busy_example" by (simp add: busy_example_def)
  from start_mission_noop_while_moving[OF h] show ?thesis using h by simp
qed

subsection \<open>What each method does to the metrics and the history\<close>

lemma start_next_mission_keeps:
  "start_next_mission t s = Inr s' \<Longrightarrow>
   robot_metrics s' = robot_metrics s \<and> pick_history s' = pick_history s"
  by (auto simp: start_next_mission_def split: list.splits sum.splits)

lemma start_mission_keeps:
  "start_mission t p c s = Inr s' \<Longrightarrow>
   robot_metrics s' = robot_metrics s \<and> pick_history s' = pick_history s"
  by (auto simp: start_mission_def split: if_splits sum.splits)

lemma start_batch_pick_keeps:
  "start_batch_pick t objs s = Inr s' \<Longrightarrow>
   robot_metrics s' = robot_metrics s \<and> pick_history s' = pick_history s"
  by (auto simp: start_batch_pick_def split: if_splits dest!: start_mission_keeps)

lemma start_color_batch_pick_keeps:
  "start_color_batch_pick t objs c s = Inr s' \<Longrightarrow>
   robot_metrics s' = robot_metrics s \<and> pick_history s' = pick_history s"
  by (auto simp: start_color_batch_pick_def Let_def split: if_splits dest!: start_batch_pick_keeps)

lemma start_all_objects_batch_keeps:
  "start_all_objects_batch t objs s = Inr s' \<Longrightarrow>
   robot_metrics s' = robot_metrics s \<and> pick_history s' = pick_history s"
  by (auto simp: start_all_objects_batch_def split: if_splits dest!: start_batch_pick_keeps)

lemma complete_mission_counts:
  assumes "complete_mission a b s = Inr s'"
  shows "total_picks (robot_metrics s') = total_picks (robot_metrics s) + 1
       \<and> successful_picks (robot_metrics s') = successful_picks (robot_metrics s) + 1
       \<and> failed_picks (robot_metrics s') = failed_picks (robot_metrics s)
       \<and> average_pick_time (robot_metrics s') = average_pick_time (robot_metrics s)
       \<and> batch_completions (robot_metrics s) \<le> batch_completions (robot_metrics s')
       \<and> (\<exists>e. pick_history s' = pick_history s @ [e] \<and> entry_success e)"
proof -
  from assms obtain m d where m: "current_mission s = Some m"
    and d: "drop_locations s (object_color m) = Some d"
    by (auto simp: complete_mission_def Let_def split: option.splits)
  let ?s3 = "s\<lparr> mission_progress := 0, robot_metrics := count_pick (robot_metrics s),
                pick_history := pick_history s @ [history_entry m a d] \<rparr>"
  show ?thesis
  proof (cases "batch_queue s = []")
    case True
    then show ?thesis using assms complete_mission_last[OF m d True, of a b]
      by (auto simp: count_pick_def history_entry_def)
  next
    case False
    then have "start_next_mission b ?s3 = Inr s'"
      using assms m d by (simp add: complete_mission_def Let_def history_entry_def)
    from start_next_mission_keeps[OF this] show ?thesis
      by (simp add: count_pick_def history_entry_def)
  qed
qed

lemma update_mission_cases:
  "update_mission a b s = Inr s' \<Longrightarrow>
   (robot_metrics s' = robot_metrics s \<and> pick_history s' = pick_history s) \<or>
   complete_mission a b (s\<lparr> mission_progress := mission_progress s + 2 \<rparr>) = Inr s'"
  by (auto simp: update_mission_def Let_def split: if_splits)

lemma controller_step_effect:
  assumes "controller_step s s'"
  shows "(robot_metrics s' = robot_metrics s \<and> pick_history s' = pick_history s) \<or>
         (total_picks (robot_metrics s') = total_picks (robot_metrics s) + 1
       \<and> successful_picks (robot_metrics s') = successful_picks (robot_metrics s) + 1
       \<and> failed_picks (robot_metrics s') = failed_picks (robot_metrics s)
       \<and> average_pick_time (robot_metrics s') = average_pick_time (robot_metrics s)
       \<and> batch_completions (robot_metrics s) \<le> batch_completions (robot_metrics s')
       \<and> (\<exists>e. pick_history s' = pick_history s @ [e] \<and> entry_success e))"
  using assms
proof cases
  case (step_update_mission t_done t_next)
  from update_mission_cases[OF this] show ?thesis
    using complete_mission_counts[of t_done t_next "s\<lparr> mission_progress := mission_progress s + 2 \<rparr>" s']
    by auto
next
  case (step_complete_mission t_done t_next)
  from complete_mission_counts[OF this] show ?thesis by blast
qed (auto dest: start_mission_keeps start_batch_pick_keeps start_color_batch_pick_keeps
      start_all_objects_batch_keeps start_next_mission_keeps)

lemma controller_step_bookkeeping:
  "pick_bookkeeping s \<Longrightarrow> controller_step s s' \<Longrightarrow> pick_bookkeeping s'"
  using controller_step_effect[of s s'] by (auto simp: pick_bookkeeping_def)

lemma controller_step_history_kept:
  "controller_step s s' \<Longrightarrow> history_kept s s'"
  using controller_step_effect[of s s'] by (auto simp: history_kept_def counters_kept_def)

lemma reachable_bookkeeping: "reachable s \<Longrightarrow> pick_bookkeeping s"
proof (induction rule: reachable.induct)
  case reachable_init
  show ?case by (simp add: pick_bookkeeping_def RobotArmSimulator_init_def)
next
  case (reachable_step s s')
  then show ?case by (blast intro: controller_step_bookkeeping)
qed

lemma done_example_completed: "complete_mission 8 9 busy_example = Inr done_example"
  by (simp add: complete_mission_def Let_def busy_example_def done_example_def
      RobotArmSimulator_init_def drop_table_def count_pick_def)

lemma done_example_reachable: "reachable done_example"
  using busy_example_reachable done_example_completed
  by (blast intro: reachable_step step_complete_mission)

lemma done_example_restart:
  "start_mission 10 (300, 100, 20) ''Blue'' done_example =
     Inr (done_example
            \<lparr> current_mission :=
                Some \<lparr> object_pos = (300, 100, 20), object_color = ''Blue'', start_time = 10 \<rparr>,
              mission_steps := mission_plan (300, 100, 20) (500, 350, 50) home_position,
              is_moving := True,
              mission_progress := 0 \<rparr>)"
  by (simp add: start_mission_def calculate_pick_mission_def done_example_def
      RobotArmSimulator_init_def drop_table_def mission_plan_def)

subsection \<open>C10: picks, history and metrics\<close>

text \<open>
  Claim C10. In every state the controller can reach, the total picks equal the
  successful picks and the length of the pick history, the failed picks are 0, every
  history entry has success true, and no method lowers a counter or removes or changes
  an entry of the history: the old history is a prefix of the new one.
\<close>

theorem picks_and_history_agree:
  assumes "reachable s"
  shows "total_picks (robot_metrics s) = successful_picks (robot_metrics s)
       \<and> successful_picks (robot_metrics s) = int (length (pick_history s))
       \<and> failed_picks (robot_metrics s) = 0
       \<and> (\<forall>e \<in> set (pick_history s). entry_success e = True)
       \<and> (\<forall>s'. controller_step s s' \<longrightarrow>
             total_picks (robot_metrics s) \<le> total_picks (robot_metrics s')
           \<and> successful_picks (robot_metrics s) \<le> successful_picks (robot_metrics s')
           \<and> failed_picks (robot_metrics s) \<le> failed_picks (robot_metrics s')
           \<and> average_pick_time (robot_metrics s) \<le> average_pick_time (robot_metrics s')
           \<and> batch_completions (robot_metrics s) \<le> batch_completions (robot_metrics s')
           \<and> length (pick_history s) \<le> length (pick_history s')
           \<and> take (length (pick_history s)) (pick_history s') = pick_history s)"
  using reachable_bookkeeping[OF assms] controller_step_history_kept[of s]
  by (auto simp: pick_bookkeeping_def history_kept_def counters_kept_def list_all_iff)


theorem picks_and_history_agree_witness:
  "reachable done_example
   \<and> total_picks (robot_metrics done_example) = 1
   \<and> successful_picks (robot_metrics done_example) = 1
   \<and> int (length (pick_history done_example)) = 1
   \<and> failed_picks (robot_metrics done_example) = 0
   \<and> hd (pick_history done_example) \<in> set (pick_history done_example)
   \<and> entry_success (hd (pick_history done_example)) = True
   \<and> (\<exists>s'. controller_step done_example s'
          \<and> total_picks (robot_metrics done_example) \<le> total_picks (robot_metrics s')
          \<and> take (length (pick_history done_example)) (pick_history s') =
              pick_history done_example)"
proof -
  have r: "reachable done_example" by (rule done_example_reachable)
  have m: "hd (pick_history done_example) \<in> set (pick_history done_example)"
    by (simp add: done_example_def RobotArmSimulator_init_def)
  have st: "controller_step done_example (done_example
            \<lparr> current_mission :=
                Some \<lparr> object_pos = (300, 100, 20), object_color = ''Blue'', start_time = 10 \<rparr>,
              mission_steps := mission_plan (300, 100, 20) (500, 350, 50) home_position,
              is_moving := True,
              mission_progress := 0 \<rparr>)"
    using done_example_restart by (rule step_start_mission)
  have one: "total_picks (robot_metrics done_example) = 1"
    by (simp add: done_example_def RobotArmSimulator_init_def)
  from picks_and_history_agree[OF r] m st one show ?thesis
    by (metis r)
qed

subsection \<open>Missions of a batch, one after the other\<close>

lemma run_fifty:
  assumes "is_moving s" "current_mission s \<noteq> None" "mission_progress s = 0" "length ts = 50"
  shows "run_ticks ts s =
     complete_mission (fst (last ts)) (snd (last ts)) (s\<lparr>mission_progress := 100\<rparr>)"
proof -
  from assms(4) have ne: "ts \<noteq> []" by auto
  then have ts: "ts = butlast ts @ [last ts]" by simp
  have "length (butlast ts) = 49" using assms(4) by simp
  from run_ticks_fifty[OF assms(1-3) this, of "last ts"] ts show ?thesis by simp
qed

lemma run_fifty_last:
  assumes "is_moving s" "current_mission s = Some m" "mission_progress s = 0"
    "drop_locations s (object_color m) = Some d" "batch_queue s = []" "length ts = 50"
  shows "run_ticks ts s =
     Inr (s\<lparr> mission_progress := 0,
             robot_metrics := (count_pick (robot_metrics s))
               \<lparr> batch_completions := batch_completions (robot_metrics s) +
                                       (if batch_mode s then 1 else 0) \<rparr>,
             pick_history := pick_history s @ [history_entry m (fst (last ts)) d],
             current_mission := None, is_moving := False, batch_mode := False \<rparr>)"
proof -
  have "run_ticks ts s =
     complete_mission (fst (last ts)) (snd (last ts)) (s\<lparr>mission_progress := 100\<rparr>)"
    using assms by (intro run_fifty) auto
  also have "\<dots> = Inr ((s\<lparr>mission_progress := 100\<rparr>)\<lparr> mission_progress := 0,
             robot_metrics := (count_pick (robot_metrics (s\<lparr>mission_progress := 100\<rparr>)))
               \<lparr> batch_completions := batch_completions (robot_metrics (s\<lparr>mission_progress := 100\<rparr>)) +
                                       (if batch_mode (s\<lparr>mission_progress := 100\<rparr>) then 1 else 0) \<rparr>,
             pick_history := pick_history (s\<lparr>mission_progress := 100\<rparr>) @ [history_entry m (fst (last ts)) d],
             current_mission := None, is_moving := False, batch_mode := False \<rparr>)"
    using assms by (intro complete_mission_last) auto
  finally show ?thesis by simp
qed

lemma run_fifty_next:
  assumes "is_moving s" "current_mission s = Some m" "mission_progress s = 0"
    "drop_locations s (object_color m) = Some d" "batch_queue s = q # qs"
    "drop_locations s (color q) = Some dq" "length ts = 50"
  shows "run_ticks ts s =
     Inr (s\<lparr> mission_progress := 0,
             robot_metrics := count_pick (robot_metrics s),
             pick_history := pick_history s @ [history_entry m (fst (last ts)) d],
             batch_queue := qs,
             current_mission := Some (mission_of q (snd (last ts))),
             mission_steps := mission_plan (robot_pos q) dq (current_position s) \<rparr>)"
proof -
  let ?s = "s\<lparr>mission_progress := 100\<rparr>"
  have "run_ticks ts s = complete_mission (fst (last ts)) (snd (last ts)) ?s"
    using assms by (intro run_fifty) auto
  also have "\<dots> = Inr (?s\<lparr> mission_progress := 0,
             robot_metrics := count_pick (robot_metrics ?s),
             pick_history := pick_history ?s @ [history_entry m (fst (last ts)) d],
             batch_queue := qs,
             current_mission := Some (mission_of q (snd (last ts))),
             mission_steps := mission_plan (robot_pos q) dq (current_position ?s) \<rparr>)"
    using assms by (intro complete_mission_next) (auto simp: calculate_pick_mission_known)
  finally show ?thesis by simp
qed

lemma picked_append:
  "pick_history s' = pick_history s @ [history_entry m t d] \<Longrightarrow>
   picked s' = picked s @ [mission_target m]"
  by (simp add: picked_def history_entry_def mission_target_def)

lemma mission_target_of [simp]: "mission_target (mission_of q t) = target_of q"
  by (simp add: mission_target_def mission_of_def target_of_def)

text \<open>A batch under way: the first \<open>k\<close> missions, \<open>k\<close> at most the length of the queue.\<close>

lemma batch_prefix:
  assumes "is_moving s" "batch_mode s" "mission_progress s = 0" "drop_locations s = drop_table"
    "current_mission s = Some m" "drop_table (object_color m) \<noteq> None"
    "\<forall>q \<in> set (batch_queue s). drop_table (color q) \<noteq> None"
    "k \<le> length (batch_queue s)" "length ts = 50 * k"
  shows "\<exists>s' m'. run_ticks ts s = Inr s' \<and> is_moving s' \<and> batch_mode s'
      \<and> mission_progress s' = 0 \<and> drop_locations s' = drop_table
      \<and> current_mission s' = Some m'
      \<and> mission_target m' = (mission_target m # map target_of (batch_queue s)) ! k
      \<and> batch_queue s' = drop k (batch_queue s)
      \<and> picked s' = picked s @ take k (mission_target m # map target_of (batch_queue s))
      \<and> batch_completions (robot_metrics s') = batch_completions (robot_metrics s)
      \<and> total_picks (robot_metrics s') = total_picks (robot_metrics s) + int k"
  using assms
proof (induction k arbitrary: s m ts)
  case 0
  then show ?case by simp
next
  case (Suc k)
  from Suc.prems obtain q qs where q: "batch_queue s = q # qs"
    by (cases "batch_queue s") auto
  from Suc.prems obtain d where d: "drop_locations s (object_color m) = Some d" by auto
  from Suc.prems q obtain dq where dq: "drop_locations s (color q) = Some dq" by auto
  let ?t1 = "take 50 ts" and ?t2 = "drop 50 ts"
  have l1: "length ?t1 = 50" and l2: "length ?t2 = 50 * k" using Suc.prems by auto
  define s1 where "s1 = s\<lparr> mission_progress := 0,
             robot_metrics := count_pick (robot_metrics s),
             pick_history := pick_history s @ [history_entry m (fst (last ?t1)) d],
             batch_queue := qs,
             current_mission := Some (mission_of q (snd (last ?t1))),
             mission_steps := mission_plan (robot_pos q) dq (current_position s) \<rparr>"
  have r1: "run_ticks ?t1 s = Inr s1"
    unfolding s1_def using Suc.prems q d dq l1 by (intro run_fifty_next) auto
  have "\<exists>s' m'. run_ticks ?t2 s1 = Inr s' \<and> is_moving s' \<and> batch_mode s'
      \<and> mission_progress s' = 0 \<and> drop_locations s' = drop_table
      \<and> current_mission s' = Some m'
      \<and> mission_target m' = (mission_target (mission_of q (snd (last ?t1))) # map target_of (batch_queue s1)) ! k
      \<and> batch_queue s' = drop k (batch_queue s1)
      \<and> picked s' = picked s1 @ take k (mission_target (mission_of q (snd (last ?t1))) # map target_of (batch_queue s1))
      \<and> batch_completions (robot_metrics s') = batch_completions (robot_metrics s1)
      \<and> total_picks (robot_metrics s') = total_picks (robot_metrics s1) + int k"
    using Suc.prems q dq l2
    by (intro Suc.IH) (auto simp: s1_def mission_of_def)
  then obtain s' m' where r2: "run_ticks ?t2 s1 = Inr s'"
    and p: "is_moving s'" "batch_mode s'" "mission_progress s' = 0"
      "drop_locations s' = drop_table" "current_mission s' = Some m'"
      "mission_target m' = (target_of q # map target_of qs) ! k"
      "batch_queue s' = drop k qs"
      "picked s' = picked s1 @ take k (target_of q # map target_of qs)"
      "batch_completions (robot_metrics s') = batch_completions (robot_metrics s1)"
      "total_picks (robot_metrics s') = total_picks (robot_metrics s1) + int k"
    by (auto simp: s1_def)
  have run: "run_ticks ts s = Inr s'"
    using run_ticks_append[of ?t1 ?t2 s] r1 r2 by simp
  have pk: "picked s1 = picked s @ [mission_target m]"
    by (rule picked_append[of _ _ m "fst (last ?t1)" d]) (simp add: s1_def)
  show ?case
    using run p pk q by (auto simp: s1_def count_pick_def)
qed

lemma batch_complete:
  assumes "is_moving s" "batch_mode s" "mission_progress s = 0" "drop_locations s = drop_table"
    "current_mission s = Some m" "drop_table (object_color m) \<noteq> None"
    "\<forall>q \<in> set (batch_queue s). drop_table (color q) \<noteq> None"
    "length ts = 50 * Suc (length (batch_queue s))"
  shows "\<exists>s'. run_ticks ts s = Inr s' \<and> \<not> is_moving s' \<and> \<not> batch_mode s'
      \<and> current_mission s' = None \<and> batch_queue s' = []
      \<and> picked s' = picked s @ mission_target m # map target_of (batch_queue s)
      \<and> batch_completions (robot_metrics s') = batch_completions (robot_metrics s) + 1
      \<and> total_picks (robot_metrics s') =
          total_picks (robot_metrics s) + 1 + int (length (batch_queue s))"
proof -
  let ?n = "length (batch_queue s)"
  let ?t1 = "take (50 * ?n) ts" and ?t2 = "drop (50 * ?n) ts"
  have l1: "length ?t1 = 50 * ?n" and l2: "length ?t2 = 50" using assms by auto
  from batch_prefix[OF assms(1-7) le_refl l1]
  obtain s1 m1 where r1: "run_ticks ?t1 s = Inr s1"
    and p: "is_moving s1" "batch_mode s1" "mission_progress s1 = 0"
      "drop_locations s1 = drop_table" "current_mission s1 = Some m1"
      "mission_target m1 = (mission_target m # map target_of (batch_queue s)) ! ?n"
      "batch_queue s1 = drop ?n (batch_queue s)"
      "picked s1 = picked s @ take ?n (mission_target m # map target_of (batch_queue s))"
      "batch_completions (robot_metrics s1) = batch_completions (robot_metrics s)"
      "total_picks (robot_metrics s1) = total_picks (robot_metrics s) + int ?n"
    by blast
  let ?all = "mission_target m # map target_of (batch_queue s)"
  have "object_color m1 = fst (?all ! ?n)"
    using arg_cong[OF p(6), of fst] by (simp add: mission_target_def)
  moreover have "?all ! ?n \<in> set ?all" by (intro nth_mem) simp
  ultimately have "drop_table (object_color m1) \<noteq> None"
    using assms(6,7) by (auto simp: mission_target_def target_of_def)
  then obtain d1 where d1: "drop_locations s1 (object_color m1) = Some d1"
    using p(4) by auto
  define s' where "s' = s1\<lparr> mission_progress := 0,
             robot_metrics := (count_pick (robot_metrics s1))
               \<lparr> batch_completions := batch_completions (robot_metrics s1) +
                                       (if batch_mode s1 then 1 else 0) \<rparr>,
             pick_history := pick_history s1 @ [history_entry m1 (fst (last ?t2)) d1],
             current_mission := None, is_moving := False, batch_mode := False \<rparr>"
  have r2: "run_ticks ?t2 s1 = Inr s'"
    unfolding s'_def using p d1 l2 by (intro run_fifty_last) auto
  have run: "run_ticks ts s = Inr s'"
    using run_ticks_append[of ?t1 ?t2 s] r1 r2 by simp
  have "picked s' = picked s1 @ [mission_target m1]"
    by (rule picked_append[of _ _ m1 "fst (last ?t2)" d1]) (simp add: s'_def)
  also have "\<dots> = picked s @ take ?n ?all @ [?all ! ?n]" using p by simp
  also have "take ?n ?all @ [?all ! ?n] = ?all"
    by (metis length_Cons length_map lessI take_Suc_conv_app_nth take_all order_refl)
  finally have pk: "picked s' = picked s @ ?all" .
  show ?thesis
    using run pk p by (intro exI[of _ s']) (auto simp: s'_def count_pick_def)
qed

lemma batch_order_sorted: "sorted (map (\<lambda>x. color_order (color x)) (batch_order objs))"
  by (simp add: batch_order_def)

lemma batch_order_mset: "mset (batch_order objs) = mset objs"
  by (simp add: batch_order_def)

lemma batch_order_stable:
  "filter (\<lambda>x. color_order (color x) = k) (batch_order objs) =
   filter (\<lambda>x. color_order (color x) = k) objs"
  unfolding batch_order_def by (rule sort_key_stable)

lemma batch_order_length: "length (batch_order objs) = length objs"
  by (simp add: batch_order_def)

lemma batch_order_set: "set (batch_order objs) = set objs"
  by (simp add: batch_order_def)

lemma drop_table_dom: "drop_table c \<noteq> None \<longleftrightarrow> c \<in> {''Red'', ''Green'', ''Blue''}"
  by (auto simp: drop_table_def)

lemma start_all_objects_batch_idle:
  assumes "\<not> is_moving s" "objs \<noteq> []" "batch_order objs = x # xs"
    "drop_locations s (color x) = Some d"
  shows "start_all_objects_batch t objs s =
     Inr (s\<lparr> batch_mode := True, batch_queue := xs,
             current_mission := Some (mission_of x t),
             mission_steps := mission_plan (robot_pos x) d (current_position s),
             is_moving := True, mission_progress := 0 \<rparr>)"
proof -
  let ?s = "s\<lparr> batch_mode := True, batch_queue := xs \<rparr>"
  have "start_all_objects_batch t objs s = start_mission t (robot_pos x) (color x) ?s"
    using assms by (simp add: start_all_objects_batch_def start_batch_pick_def batch_order_def)
  also have "\<dots> = Inr (?s\<lparr> current_mission :=
        Some \<lparr> object_pos = robot_pos x, object_color = color x, start_time = t \<rparr>,
      mission_steps := mission_plan (robot_pos x) d (current_position ?s),
      is_moving := True, mission_progress := 0 \<rparr>)"
    using assms by (intro start_mission_idle) auto
  finally show ?thesis by (simp add: mission_of_def)
qed

lemma batch_order_example: "batch_order [blue_obj, red_obj, green_obj] = [red_obj, green_obj, blue_obj]"
  by (simp add: batch_order_def color_order_def red_obj_def green_obj_def blue_obj_def)

subsection \<open>The median of five values\<close>

lemma length_five:
  assumes "length xs = 5"
  shows "\<exists>a b c d e. xs = [a, b, c, d, e]"
proof -
  from assms have "length xs = Suc (Suc (Suc (Suc (Suc 0))))" by simp
  then show ?thesis by (auto simp: length_Suc_conv)
qed

lemma filter_sort_length: "length (filter P (sort xs)) = length (filter P (xs :: int list))"
proof -
  have "mset (filter P (sort xs)) = mset (filter P xs)" by simp
  then show ?thesis by (metis size_mset)
qed

lemma median_int_five:
  assumes "length xs = 5"
  shows "is_median (median_int xs) xs"
proof -
  have "length (sort xs) = 5" using assms by simp
  then obtain a b c d e where s: "sort xs = [a, b, c, d, e]"
    using length_five by blast
  have srt: "sorted [a, b, c, d, e]" using sorted_sort[of xs] s by simp
  have m: "median_int xs = c"
    using s assms by (simp add: median_int_def Let_def)
  have "c \<in> set (sort xs)" using s by simp
  then have mem: "c \<in> set xs" by simp
  have "length (filter (\<lambda>x. x < c) (sort xs)) \<le> 2"
    using srt unfolding s by auto
  then have lo: "length (filter (\<lambda>x. x < c) xs) \<le> 2" by (simp add: filter_sort_length)
  have "length (filter (\<lambda>x. c < x) (sort xs)) \<le> 2"
    using srt unfolding s by auto
  then have hi: "length (filter (\<lambda>x. c < x) xs) \<le> 2" by (simp add: filter_sort_length)
  show ?thesis using mem lo hi assms by (simp add: is_median_def m)
qed

lemma median_int_majority:
  assumes "length xs = 5" "3 \<le> length (filter (\<lambda>x. x = v) xs)"
  shows "median_int xs = v"
proof -
  have "length (sort xs) = 5" using assms by simp
  then obtain a b c d e where s: "sort xs = [a, b, c, d, e]"
    using length_five by blast
  have srt: "sorted [a, b, c, d, e]" using sorted_sort[of xs] s by simp
  have m: "median_int xs = c"
    using s assms by (simp add: median_int_def Let_def)
  have "3 \<le> length (filter (\<lambda>x. x = v) (sort xs))"
    using assms by (simp add: filter_sort_length)
  then have "c = v" using srt unfolding s by (auto split: if_splits)
  then show ?thesis using m by simp
qed


lemma filter_pair_fst:
  "length (filter (\<lambda>p. p = v) ps) \<le> length (filter (\<lambda>x. x = fst v) (map fst ps))"
  by (induction ps) auto

lemma filter_pair_snd:
  "length (filter (\<lambda>p. p = v) ps) \<le> length (filter (\<lambda>x. x = snd v) (map snd ps))"
  by (induction ps) auto

lemma deque_append_length: "length (deque_append n buf x) = min n (Suc (length buf))"
  by (simp add: deque_append_def Let_def)

lemma deque_append_short:
  "length buf < n \<Longrightarrow> deque_append n buf x = buf @ [x]"
  by (simp add: deque_append_def Let_def)

lemma update_at_capacity:
  assumes "buffer_size st = n" "0 < n"
  shows "update oid pos st =
     (let buf = deque_append n (history_of st oid) pos;
          st' = st\<lparr> position_buffers := (position_buffers st)(oid \<mapsto> buf) \<rparr>
      in if length buf = n
         then Inr ((median_int (map fst buf), median_int (map snd buf)), st')
         else Inr (pos, st'))"
proof -
  have "deque_append n (history_of st oid) pos \<noteq> []"
    using assms(2) deque_append_length[of n "history_of st oid" pos]
    by (metis length_0_conv less_numeral_extra(3) min_less_iff_conj zero_less_Suc)
  then show ?thesis
    using assms by (simp add: update_def history_of_def Let_def)
qed

lemma update_first_example:
  "update ''Red_128_96'' p (PositionStabilizer_init 5) =
     Inr (p, \<lparr> buffer_size = 5, position_buffers = [''Red_128_96'' \<mapsto> [p]] \<rparr>)"
  by (simp add: update_def deque_append_def Let_def PositionStabilizer_init_def)

lemma update_short_example:
  "length b < 4 \<Longrightarrow>
   update ''Red_128_96'' p \<lparr> buffer_size = 5, position_buffers = [''Red_128_96'' \<mapsto> b] \<rparr> =
     Inr (p, \<lparr> buffer_size = 5, position_buffers = [''Red_128_96'' \<mapsto> b @ [p]] \<rparr>)"
  by (simp add: update_def deque_append_def Let_def)

lemma four_seen_fed:
  "feed ''Red_128_96'' [(128, 96), (128, 96), (128, 96), (128, 96)] (PositionStabilizer_init 5) =
     Inr ([(128, 96), (128, 96), (128, 96), (128, 96)], four_seen)"
  by (simp add: update_first_example update_short_example four_seen_def)

subsection \<open>The history as a sliding window\<close>

lemma deque_append_keep_last: "deque_append n buf x = keep_last n (buf @ [x])"
  by (simp add: deque_append_def keep_last_def Let_def)

lemma keep_last_length: "length (keep_last n xs) = min n (length xs)"
  by (simp add: keep_last_def)

lemma keep_last_short: "length xs \<le> n \<Longrightarrow> keep_last n xs = xs"
  by (simp add: keep_last_def)

lemma keep_last_keep_last: "keep_last n (keep_last n xs @ ys) = keep_last n (xs @ ys)"
proof (cases "length xs \<le> n")
  case True
  then show ?thesis by (simp add: keep_last_short)
next
  case False
  then have "length xs - n + length ys = length xs + length ys - n" by simp
  with False show ?thesis by (simp add: keep_last_def add.commute)
qed

lemma update_general:
  assumes "buffer_size st = n" "0 < n"
  shows "update oid pos st =
     (let buf = keep_last n (history_of st oid @ [pos])
      in Inr (if length buf = n then (median_int (map fst buf), median_int (map snd buf))
              else pos,
              st\<lparr> position_buffers := (position_buffers st)(oid \<mapsto> buf) \<rparr>))"
  using update_at_capacity[OF assms, of oid pos]
  by (simp add: Let_def deque_append_keep_last)

lemma history_of_upd [simp]:
  "history_of (st\<lparr> position_buffers := (position_buffers st)(oid \<mapsto> buf) \<rparr>) oid = buf"
  by (simp add: history_of_def)

lemma feed_windows:
  assumes "buffer_size st = n" "0 < n"
  shows "\<exists>outs st'. feed oid ps st = Inr (outs, st')
      \<and> length outs = length ps
      \<and> buffer_size st' = n
      \<and> history_of st' oid = (if ps = [] then history_of st oid
                               else keep_last n (history_of st oid @ ps))
      \<and> (\<forall>i < length ps.
            outs ! i =
              (let w = keep_last n (history_of st oid @ take (Suc i) ps)
               in if length w = n then (median_int (map fst w), median_int (map snd w))
                  else ps ! i))"
  using assms
proof (induction ps arbitrary: st)
  case Nil
  then show ?case by simp
next
  case (Cons p ps)
  let ?old = "history_of st oid"
  let ?buf = "keep_last n (?old @ [p])"
  let ?r = "if length ?buf = n then (median_int (map fst ?buf), median_int (map snd ?buf)) else p"
  let ?st1 = "st\<lparr> position_buffers := (position_buffers st)(oid \<mapsto> ?buf) \<rparr>"
  have upd: "update oid p st = Inr (?r, ?st1)"
    using update_general[OF Cons.prems, of oid p] by (simp add: Let_def)
  have b1: "buffer_size ?st1 = n" using Cons.prems by simp
  from Cons.IH[OF b1 Cons.prems(2)] obtain outs st' where
    f: "feed oid ps ?st1 = Inr (outs, st')"
    and l: "length outs = length ps"
    and b: "buffer_size st' = n"
    and h: "history_of st' oid = (if ps = [] then history_of ?st1 oid
                               else keep_last n (history_of ?st1 oid @ ps))"
    and o: "\<forall>i < length ps.
            outs ! i =
              (let w = keep_last n (history_of ?st1 oid @ take (Suc i) ps)
               in if length w = n then (median_int (map fst w), median_int (map snd w))
                  else ps ! i)"
    by blast
  have feed: "feed oid (p # ps) st = Inr (?r # outs, st')"
    using upd f by simp
  have hist: "history_of st' oid = keep_last n (?old @ p # ps)"
    using h keep_last_keep_last[of n "?old @ [p]" ps] by simp
  have outs: "(?r # outs) ! i =
              (let w = keep_last n (?old @ take (Suc i) (p # ps))
               in if length w = n then (median_int (map fst w), median_int (map snd w))
                  else (p # ps) ! i)" if "i < length (p # ps)" for i
  proof (cases i)
    case 0
    then show ?thesis by (simp add: Let_def)
  next
    case (Suc j)
    with that have j: "j < length ps" by simp
    have "keep_last n (history_of ?st1 oid @ take (Suc j) ps) =
          keep_last n (?old @ take (Suc (Suc j)) (p # ps))"
      using keep_last_keep_last[of n "?old @ [p]" "take (Suc j) ps"] by simp
    with o[rule_format, OF j] Suc show ?thesis by (simp add: Let_def)
  qed
  show ?case
    using feed l b hist outs by (intro exI[of _ "?r # outs"] exI[of _ st']) simp
qed


subsection \<open>C6: raw positions, then medians\<close>

text \<open>
  Claim C6. With capacity 5, \<^verbatim>\<open>update\<close> appends the position to the history of the
  identity and keeps the last 5 entries of the result: the buffer after the call is the
  old history with the new position at its end, without its oldest entries beyond five.
  While the buffer then holds fewer than 5 entries the call returns the position it was
  given, unchanged. Once it holds 5, the call returns, coordinate by coordinate, the median
  of the buffered positions; so when at least 4 of the 5 buffered positions are the same
  value, that value is returned, whatever the fifth is. For every sequence of positions
  fed for one identity, the \<open>i\<close>-th result is therefore the \<open>i\<close>-th position itself while
  fewer than five positions are in the history, and afterwards the median of the five most
  recent positions, the \<open>i\<close>-th included.
\<close>

theorem update_raw_then_median:
  assumes "buffer_size st = 5"
  shows "(\<exists>buf r.
       buf = drop (Suc (length (history_of st oid)) - 5) (history_of st oid @ [pos])
     \<and> length buf = min 5 (Suc (length (history_of st oid)))
     \<and> update oid pos st =
         Inr (r, st\<lparr> position_buffers := (position_buffers st)(oid \<mapsto> buf) \<rparr>)
     \<and> (length buf < 5 \<longrightarrow> r = pos \<and> buf = history_of st oid @ [pos])
     \<and> (4 \<le> length (history_of st oid) \<longrightarrow>
            buf = drop (length (history_of st oid) - 4) (history_of st oid) @ [pos])
     \<and> (length buf = 5 \<longrightarrow>
            r = (median_int (map fst buf), median_int (map snd buf))
          \<and> is_median (fst r) (map fst buf) \<and> is_median (snd r) (map snd buf)
          \<and> (\<forall>v. 4 \<le> length (filter (\<lambda>p. p = v) buf) \<longrightarrow> r = v)))
   \<and> (\<forall>ps. \<exists>outs st'.
          feed oid ps st = Inr (outs, st')
        \<and> length outs = length ps
        \<and> buffer_size st' = 5
        \<and> (ps \<noteq> [] \<longrightarrow>
              history_of st' oid =
                drop (length (history_of st oid @ ps) - 5) (history_of st oid @ ps))
        \<and> (\<forall>i < length ps. \<exists>w.
              w = drop (length (history_of st oid) + Suc i - 5)
                    (history_of st oid @ take (Suc i) ps)
            \<and> (length w < 5 \<longrightarrow> outs ! i = ps ! i)
            \<and> (length w = 5 \<longrightarrow>
                  outs ! i = (median_int (map fst w), median_int (map snd w))
                \<and> is_median (fst (outs ! i)) (map fst w)
                \<and> is_median (snd (outs ! i)) (map snd w))))"
proof (rule conjI)
  let ?old = "history_of st oid"
  define buf where "buf = drop (Suc (length ?old) - 5) (?old @ [pos])"
  have kl: "buf = keep_last 5 (?old @ [pos])" by (simp add: buf_def keep_last_def)
  define r where "r = (if length buf = 5
      then (median_int (map fst buf), median_int (map snd buf)) else pos)"
  have len: "length buf = min 5 (Suc (length ?old))"
    by (simp add: buf_def)
  have upd: "update oid pos st =
      Inr (r, st\<lparr> position_buffers := (position_buffers st)(oid \<mapsto> buf) \<rparr>)"
    using update_general[OF assms, of oid pos]
    by (simp add: Let_def kl r_def)
  have short: "r = pos \<and> buf = ?old @ [pos]" if "length buf < 5"
  proof -
    from that len have "Suc (length ?old) - 5 = 0" by simp
    then have "buf = ?old @ [pos]" unfolding buf_def by (simp only: drop_0)
    moreover from that have "r = pos" unfolding r_def by simp
    ultimately show ?thesis by simp
  qed
  have slide: "buf = drop (length ?old - 4) ?old @ [pos]" if "4 \<le> length ?old"
  proof -
    from that have "Suc (length ?old) - 5 = length ?old - 4" by simp
    moreover from that have "length ?old - 4 \<le> length ?old" by simp
    ultimately show ?thesis by (simp add: buf_def)
  qed
  have full: "r = (median_int (map fst buf), median_int (map snd buf))
          \<and> is_median (fst r) (map fst buf) \<and> is_median (snd r) (map snd buf)
          \<and> (\<forall>v. 4 \<le> length (filter (\<lambda>p. p = v) buf) \<longrightarrow> r = v)"
    if five: "length buf = 5"
  proof -
    have r: "r = (median_int (map fst buf), median_int (map snd buf))"
      using five by (simp add: r_def)
    have mx: "is_median (fst r) (map fst buf)" and my: "is_median (snd r) (map snd buf)"
      using five by (simp_all add: r median_int_five)
    have maj: "r = v" if "4 \<le> length (filter (\<lambda>p. p = v) buf)" for v
    proof -
      have "3 \<le> length (filter (\<lambda>x. x = fst v) (map fst buf))"
        using that filter_pair_fst[of v buf] by linarith
      then have x: "median_int (map fst buf) = fst v"
        using five by (intro median_int_majority) simp_all
      have "3 \<le> length (filter (\<lambda>x. x = snd v) (map snd buf))"
        using that filter_pair_snd[of v buf] by linarith
      then have y: "median_int (map snd buf) = snd v"
        using five by (intro median_int_majority) simp_all
      show ?thesis using x y by (simp add: r)
    qed
    show ?thesis using r mx my maj by blast
  qed
  show "\<exists>buf r.
       buf = drop (Suc (length ?old) - 5) (?old @ [pos])
     \<and> length buf = min 5 (Suc (length ?old))
     \<and> update oid pos st =
         Inr (r, st\<lparr> position_buffers := (position_buffers st)(oid \<mapsto> buf) \<rparr>)
     \<and> (length buf < 5 \<longrightarrow> r = pos \<and> buf = ?old @ [pos])
     \<and> (4 \<le> length ?old \<longrightarrow> buf = drop (length ?old - 4) ?old @ [pos])
     \<and> (length buf = 5 \<longrightarrow>
            r = (median_int (map fst buf), median_int (map snd buf))
          \<and> is_median (fst r) (map fst buf) \<and> is_median (snd r) (map snd buf)
          \<and> (\<forall>v. 4 \<le> length (filter (\<lambda>p. p = v) buf) \<longrightarrow> r = v))"
    using len upd short slide full buf_def by blast
next
  let ?old = "history_of st oid"
  show "\<forall>ps. \<exists>outs st'.
          feed oid ps st = Inr (outs, st')
        \<and> length outs = length ps
        \<and> buffer_size st' = 5
        \<and> (ps \<noteq> [] \<longrightarrow>
              history_of st' oid = drop (length (?old @ ps) - 5) (?old @ ps))
        \<and> (\<forall>i < length ps. \<exists>w.
              w = drop (length ?old + Suc i - 5) (?old @ take (Suc i) ps)
            \<and> (length w < 5 \<longrightarrow> outs ! i = ps ! i)
            \<and> (length w = 5 \<longrightarrow>
                  outs ! i = (median_int (map fst w), median_int (map snd w))
                \<and> is_median (fst (outs ! i)) (map fst w)
                \<and> is_median (snd (outs ! i)) (map snd w)))"
  proof
    fix ps
    from feed_windows[OF assms, of oid ps] obtain outs st' where
      f: "feed oid ps st = Inr (outs, st')"
      and l: "length outs = length ps"
      and b: "buffer_size st' = 5"
      and h: "history_of st' oid = (if ps = [] then ?old else keep_last 5 (?old @ ps))"
      and o: "\<forall>i < length ps.
            outs ! i =
              (let w = keep_last 5 (?old @ take (Suc i) ps)
               in if length w = 5 then (median_int (map fst w), median_int (map snd w))
                  else ps ! i)"
      by auto
    have hist: "history_of st' oid = drop (length (?old @ ps) - 5) (?old @ ps)" if "ps \<noteq> []"
      using h that by (simp add: keep_last_def)
    have win: "\<exists>w. w = drop (length ?old + Suc i - 5) (?old @ take (Suc i) ps)
            \<and> (length w < 5 \<longrightarrow> outs ! i = ps ! i)
            \<and> (length w = 5 \<longrightarrow>
                  outs ! i = (median_int (map fst w), median_int (map snd w))
                \<and> is_median (fst (outs ! i)) (map fst w)
                \<and> is_median (snd (outs ! i)) (map snd w))" if i: "i < length ps" for i
    proof -
      define w where "w = drop (length ?old + Suc i - 5) (?old @ take (Suc i) ps)"
      have lt: "length (?old @ take (Suc i) ps) = length ?old + Suc i"
        using i by simp
      have kw: "keep_last 5 (?old @ take (Suc i) ps) = w"
        unfolding keep_last_def w_def by (simp only: lt)
      from o[rule_format, OF i] have out:
        "outs ! i = (if length w = 5 then (median_int (map fst w), median_int (map snd w))
                     else ps ! i)"
        unfolding kw by (simp only: Let_def)
      have a: "outs ! i = ps ! i" if "length w < 5" using out that by simp
      have c: "outs ! i = (median_int (map fst w), median_int (map snd w))
                \<and> is_median (fst (outs ! i)) (map fst w)
                \<and> is_median (snd (outs ! i)) (map snd w)" if "length w = 5"
        using out that by (simp add: median_int_five)
      show ?thesis using a c w_def by blast
    qed
    show "\<exists>outs st'.
          feed oid ps st = Inr (outs, st')
        \<and> length outs = length ps
        \<and> buffer_size st' = 5
        \<and> (ps \<noteq> [] \<longrightarrow>
              history_of st' oid = drop (length (?old @ ps) - 5) (?old @ ps))
        \<and> (\<forall>i < length ps. \<exists>w.
              w = drop (length ?old + Suc i - 5) (?old @ take (Suc i) ps)
            \<and> (length w < 5 \<longrightarrow> outs ! i = ps ! i)
            \<and> (length w = 5 \<longrightarrow>
                  outs ! i = (median_int (map fst w), median_int (map snd w))
                \<and> is_median (fst (outs ! i)) (map fst w)
                \<and> is_median (snd (outs ! i)) (map snd w)))"
      using f l b hist win by blast
  qed
qed


theorem update_raw_then_median_witness:
  "buffer_size (PositionStabilizer_init 5) = 5 \<and> buffer_size four_seen = 5
   \<and> buffer_size five_seen = 5
   \<and> update ''Red_128_96'' (128, 96) (PositionStabilizer_init 5) =
       Inr ((128, 96),
            \<lparr> buffer_size = 5, position_buffers = [''Red_128_96'' \<mapsto> [(128, 96)]] \<rparr>)
   \<and> update ''Red_128_96'' (300, 10) four_seen = Inr ((128, 96), five_seen)
   \<and> update ''Red_128_96'' (130, 96) five_seen =
       Inr ((128, 96),
            \<lparr> buffer_size = 5,
              position_buffers =
                [''Red_128_96'' \<mapsto> [(128, 96), (128, 96), (128, 96), (300, 10), (130, 96)]] \<rparr>)
   \<and> (\<exists>outs st'. feed ''Red_128_96'' seven_positions (PositionStabilizer_init 5) =
                      Inr (outs, st')
          \<and> length outs = 7
          \<and> outs ! 0 = (128, 96) \<and> outs ! 3 = (128, 96) \<and> outs ! 4 = (128, 96)
          \<and> outs ! 5 = (128, 96) \<and> outs ! 6 = (130, 96)
          \<and> history_of st' ''Red_128_96'' =
              [(128, 96), (128, 96), (300, 10), (130, 96), (130, 96)])"
proof -
  let ?id = "''Red_128_96''"
  have h0: "buffer_size (PositionStabilizer_init 5) = 5" by (simp add: PositionStabilizer_init_def)
  have h4: "buffer_size four_seen = 5" by (simp add: four_seen_def)
  have h5: "buffer_size five_seen = 5" by (simp add: five_seen_def)
  have hist0: "history_of (PositionStabilizer_init 5) ?id = []"
    by (simp add: history_of_def PositionStabilizer_init_def)
  have hist4: "history_of four_seen ?id = [(128, 96), (128, 96), (128, 96), (128, 96)]"
    by (simp add: history_of_def four_seen_def)
  have hist5: "history_of five_seen ?id = [(128, 96), (128, 96), (128, 96), (128, 96), (300, 10)]"
    by (simp add: history_of_def five_seen_def)
  note call = update_raw_then_median[THEN conjunct1]
  note run = update_raw_then_median[THEN conjunct2, rule_format]
  from call[OF h0, of ?id "(128, 96)"] obtain buf0 r0 where
    b0: "buf0 = drop (Suc (length (history_of (PositionStabilizer_init 5) ?id)) - 5)
           (history_of (PositionStabilizer_init 5) ?id @ [(128, 96)])"
    and u0: "update ?id (128, 96) (PositionStabilizer_init 5) =
         Inr (r0, (PositionStabilizer_init 5)\<lparr> position_buffers :=
                (position_buffers (PositionStabilizer_init 5))(?id \<mapsto> buf0) \<rparr>)"
    and f0: "length buf0 < 5 \<longrightarrow> r0 = (128, 96) \<and>
         buf0 = history_of (PositionStabilizer_init 5) ?id @ [(128, 96)]"
    by blast
  have buf0: "buf0 = [(128, 96)]" using b0 by (simp add: hist0)
  then have "r0 = (128, 96)" using f0 by simp
  then have first: "update ?id (128, 96) (PositionStabilizer_init 5) =
       Inr ((128, 96),
            \<lparr> buffer_size = 5, position_buffers = [?id \<mapsto> [(128, 96)]] \<rparr>)"
    using u0 by (simp add: buf0 PositionStabilizer_init_def)
  from call[OF h4, of ?id "(300, 10)"] obtain buf4 r4 where
    b4: "buf4 = drop (Suc (length (history_of four_seen ?id)) - 5)
           (history_of four_seen ?id @ [(300, 10)])"
    and u4: "update ?id (300, 10) four_seen =
         Inr (r4, four_seen\<lparr> position_buffers := (position_buffers four_seen)(?id \<mapsto> buf4) \<rparr>)"
    and f4: "length buf4 = 5 \<longrightarrow> (\<forall>v. 4 \<le> length (filter (\<lambda>p. p = v) buf4) \<longrightarrow> r4 = v)"
    by blast
  have buf4: "buf4 = [(128, 96), (128, 96), (128, 96), (128, 96), (300, 10)]"
    using b4 by (simp add: hist4)
  have "r4 = (128, 96)" using f4[rule_format, of "(128, 96)"] by (simp add: buf4)
  then have fifth: "update ?id (300, 10) four_seen = Inr ((128, 96), five_seen)"
    using u4 by (simp add: buf4 four_seen_def five_seen_def)
  from call[OF h5, of ?id "(130, 96)"] obtain buf5 r5 where
    b5: "buf5 = drop (Suc (length (history_of five_seen ?id)) - 5)
           (history_of five_seen ?id @ [(130, 96)])"
    and u5: "update ?id (130, 96) five_seen =
         Inr (r5, five_seen\<lparr> position_buffers := (position_buffers five_seen)(?id \<mapsto> buf5) \<rparr>)"
    and f5: "length buf5 = 5 \<longrightarrow>
         r5 = (median_int (map fst buf5), median_int (map snd buf5))"
    by blast
  have buf5: "buf5 = [(128, 96), (128, 96), (128, 96), (300, 10), (130, 96)]"
    using b5 by (simp add: hist5)
  have "r5 = (128, 96)" using f5 by (simp add: buf5 median_int_def)
  then have sixth: "update ?id (130, 96) five_seen =
       Inr ((128, 96),
            \<lparr> buffer_size = 5,
              position_buffers =
                [?id \<mapsto> [(128, 96), (128, 96), (128, 96), (300, 10), (130, 96)]] \<rparr>)"
    using u5 by (simp add: buf5 five_seen_def)
  from run[OF h0, of ?id seven_positions] obtain outs st' where
    fd: "feed ?id seven_positions (PositionStabilizer_init 5) = Inr (outs, st')"
    and ln: "length outs = length seven_positions"
    and hs: "seven_positions \<noteq> [] \<longrightarrow> history_of st' ?id =
        drop (length (history_of (PositionStabilizer_init 5) ?id @ seven_positions) - 5)
          (history_of (PositionStabilizer_init 5) ?id @ seven_positions)"
    and ws: "\<forall>i < length seven_positions. \<exists>w.
              w = drop (length (history_of (PositionStabilizer_init 5) ?id) + Suc i - 5)
                    (history_of (PositionStabilizer_init 5) ?id @ take (Suc i) seven_positions)
            \<and> (length w < 5 \<longrightarrow> outs ! i = seven_positions ! i)
            \<and> (length w = 5 \<longrightarrow>
                  outs ! i = (median_int (map fst w), median_int (map snd w)))"
    by blast
  have l7: "length outs = 7" using ln by (simp add: seven_positions_def)
  have hist: "history_of st' ?id = [(128, 96), (128, 96), (300, 10), (130, 96), (130, 96)]"
    using hs by (simp add: hist0 seven_positions_def)
  have o0: "outs ! 0 = (128, 96)"
    using ws[rule_format, of 0] by (simp add: hist0 seven_positions_def)
  have o3: "outs ! 3 = (128, 96)"
    using ws[rule_format, of 3] by (simp add: hist0 seven_positions_def)
  have o4: "outs ! 4 = (128, 96)"
    using ws[rule_format, of 4] by (simp add: hist0 seven_positions_def median_int_def)
  have o5: "outs ! 5 = (128, 96)"
    using ws[rule_format, of 5] by (simp add: hist0 seven_positions_def median_int_def)
  have o6: "outs ! 6 = (130, 96)"
    using ws[rule_format, of 6] by (simp add: hist0 seven_positions_def median_int_def)
  show ?thesis
    using h0 h4 h5 first fifth sixth fd l7 hist o0 o3 o4 o5 o6 by blast
qed

subsection \<open>The head of a stable sort\<close>

lemma distance_le_iff:
  assumes "0 \<le> r"
  shows "distance a b \<le> real_of_int r \<longleftrightarrow> (fst a - fst b)\<^sup>2 + (snd a - snd b)\<^sup>2 \<le> r\<^sup>2"
proof -
  let ?d = "(fst a - fst b)\<^sup>2 + (snd a - snd b)\<^sup>2"
  have "real_of_int r = sqrt ((real_of_int r)\<^sup>2)" using assms by simp
  then have "distance a b \<le> real_of_int r \<longleftrightarrow> sqrt (real_of_int ?d) \<le> sqrt ((real_of_int r)\<^sup>2)"
    by (simp add: distance_def)
  also have "\<dots> \<longleftrightarrow> real_of_int ?d \<le> (real_of_int r)\<^sup>2" by (rule real_sqrt_le_iff)
  also have "\<dots> \<longleftrightarrow> real_of_int ?d \<le> real_of_int (r\<^sup>2)" by simp
  also have "\<dots> \<longleftrightarrow> ?d \<le> r\<^sup>2" by (rule of_int_le_iff)
  finally show ?thesis .
qed

lemma matching_objects_eq:
  "matching_objects sp tol objs =
     map (\<lambda>obj. (obj, distance (pixel_pos obj) sp))
       (filter (\<lambda>obj. distance (pixel_pos obj) sp \<le> real_of_int tol) objs)"
  by (induction objs) (simp_all add: Let_def)

lemma sorted_map_hd:
  "ys \<noteq> [] \<Longrightarrow> sorted (map f ys) \<Longrightarrow> \<forall>y \<in> set ys. f (hd ys) \<le> f y"
  by (cases ys) auto

lemma hd_sort_key:
  assumes "xs \<noteq> []"
  shows "\<exists>us vs. xs = us @ hd (sort_key f xs) # vs
      \<and> (\<forall>u \<in> set us. f (hd (sort_key f xs)) < f u)
      \<and> (\<forall>v \<in> set vs. f (hd (sort_key f xs)) \<le> f v)"
proof -
  let ?s = "sort_key f xs"
  let ?h = "hd ?s"
  have ne: "?s \<noteq> []" using assms by (metis length_0_conv length_sort)
  then obtain rest where s: "?s = ?h # rest" by (cases ?s) auto
  have "sorted (map f ?s)" by simp
  then have "\<forall>y \<in> set ?s. f ?h \<le> f y"
    using ne by (rule sorted_map_hd[rotated])
  then have least: "\<forall>y \<in> set xs. f ?h \<le> f y" by simp
  have "filter (\<lambda>y. f y = f ?h) xs = filter (\<lambda>y. f y = f ?h) ?s"
    by (rule sort_key_stable[symmetric])
  also have "\<dots> = ?h # filter (\<lambda>y. f y = f ?h) rest"
    by (subst s) simp
  finally obtain us vs where xs: "xs = us @ ?h # vs" and us: "\<forall>u \<in> set us. f u \<noteq> f ?h"
    unfolding filter_eq_Cons_iff by blast
  have "\<forall>u \<in> set us. f ?h < f u"
    using us least xs by (metis Un_iff order_le_imp_less_or_eq set_append)
  moreover have "\<forall>v \<in> set vs. f ?h \<le> f v"
    using least xs by (metis Un_iff list.set_intros(2) set_append)
  ultimately show ?thesis using xs by blast
qed


lemma filter_split:
  "filter P xs = us @ m # vs \<Longrightarrow>
   \<exists>pre post. xs = pre @ m # post \<and> filter P pre = us \<and> filter P post = vs \<and> P m"
proof (induction xs arbitrary: us)
  case Nil
  then show ?case by simp
next
  case (Cons x xs)
  show ?case
  proof (cases "P x")
    case False
    with Cons.prems have "filter P xs = us @ m # vs" by simp
    from Cons.IH[OF this] obtain pre post where
      "xs = pre @ m # post" "filter P pre = us" "filter P post = vs" "P m" by blast
    then have "x # xs = (x # pre) @ m # post \<and> filter P (x # pre) = us \<and>
        filter P post = vs \<and> P m" using False by simp
    then show ?thesis by blast
  next
    case True
    show ?thesis
    proof (cases us)
      case Nil
      with Cons.prems True have "x # xs = [] @ m # xs \<and> filter P [] = us \<and>
          filter P xs = vs \<and> P m" by simp
      then show ?thesis by blast
    next
      case (Cons u us')
      with Cons.prems True have x: "x = u" and "filter P xs = us' @ m # vs" by simp_all
      from Cons.IH[OF this(2)] obtain pre post where
        "xs = pre @ m # post" "filter P pre = us'" "filter P post = vs" "P m" by blast
      then have "x # xs = (x # pre) @ m # post \<and> filter P (x # pre) = us \<and>
          filter P post = vs \<and> P m" using True x Cons by simp
      then show ?thesis by blast
    qed
  qed
qed

lemma closest_match:
  assumes "matching_objects sp tol objs \<noteq> []"
  shows "\<exists>pre m post. objs = pre @ m # post
      \<and> fst (hd (sort_key snd (matching_objects sp tol objs))) = m
      \<and> distance (pixel_pos m) sp \<le> real_of_int tol
      \<and> (\<forall>obj \<in> set pre. distance (pixel_pos obj) sp \<le> real_of_int tol \<longrightarrow>
            distance (pixel_pos m) sp < distance (pixel_pos obj) sp)
      \<and> (\<forall>obj \<in> set post. distance (pixel_pos obj) sp \<le> real_of_int tol \<longrightarrow>
            distance (pixel_pos m) sp \<le> distance (pixel_pos obj) sp)"
proof -
  let ?g = "\<lambda>obj. (obj, distance (pixel_pos obj) sp)"
  let ?W = "\<lambda>obj. distance (pixel_pos obj) sp \<le> real_of_int tol"
  let ?ms = "matching_objects sp tol objs"
  let ?h = "hd (sort_key snd ?ms)"
  have ms: "?ms = map ?g (filter ?W objs)" by (rule matching_objects_eq)
  from hd_sort_key[OF assms, of snd] obtain us vs where
    split: "?ms = us @ ?h # vs"
    and us: "\<forall>u \<in> set us. snd ?h < snd u"
    and vs: "\<forall>v \<in> set vs. snd ?h \<le> snd v"
    by blast
  from split ms have "map ?g (filter ?W objs) = us @ ?h # vs" by simp
  then obtain us' m vs' where f: "filter ?W objs = us' @ m # vs'"
    and u': "us = map ?g us'" and h: "?h = ?g m" and v': "vs = map ?g vs'"
    by (auto simp: map_eq_append_conv map_eq_Cons_conv)
  from filter_split[OF f] obtain pre post where
    objs: "objs = pre @ m # post" and pre: "filter ?W pre = us'"
    and post: "filter ?W post = vs'" and m: "?W m"
    by blast
  have a: "distance (pixel_pos m) sp < distance (pixel_pos obj) sp"
    if "obj \<in> set pre" "?W obj" for obj
  proof -
    from that pre have "obj \<in> set us'" by auto
    then have "?g obj \<in> set us" using u' by simp
    with us h show ?thesis by auto
  qed
  have b: "distance (pixel_pos m) sp \<le> distance (pixel_pos obj) sp"
    if "obj \<in> set post" "?W obj" for obj
  proof -
    from that post have "obj \<in> set vs'" by auto
    then have "?g obj \<in> set vs" using v' by simp
    with vs h show ?thesis by auto
  qed
  have "fst ?h = m" using h by simp
  then show ?thesis using objs m a b by blast
qed

lemma within_tolerance_iff:
  "0 \<le> tolerance_radius sel \<Longrightarrow>
   within_tolerance sel so obj \<longleftrightarrow>
     (fst (pixel_pos obj) - fst (pixel_pos so))\<^sup>2 + (snd (pixel_pos obj) - snd (pixel_pos so))\<^sup>2
       \<le> (tolerance_radius sel)\<^sup>2"
  unfolding within_tolerance_def by (rule distance_le_iff)

lemma distance_euclidean:
  "(distance a b)\<^sup>2 = real_of_int ((fst a - fst b)\<^sup>2 + (snd a - snd b)\<^sup>2)"
  "0 \<le> distance a b"
  by (simp_all add: distance_def)

lemma within_tolerance_squares:
  "within_tolerance sel so obj \<longleftrightarrow>
     0 \<le> tolerance_radius sel \<and>
     (fst (pixel_pos obj) - fst (pixel_pos so))\<^sup>2 + (snd (pixel_pos obj) - snd (pixel_pos so))\<^sup>2
       \<le> (tolerance_radius sel)\<^sup>2"
proof (cases "0 \<le> tolerance_radius sel")
  case True
  then show ?thesis by (simp add: within_tolerance_iff)
next
  case False
  then have "real_of_int (tolerance_radius sel) < 0" by simp
  moreover have "0 \<le> distance (pixel_pos obj) (pixel_pos so)" by (simp add: distance_def)
  ultimately show ?thesis using False by (simp add: within_tolerance_def)
qed

lemma distance_less_iff:
  "distance a c < distance b c \<longleftrightarrow>
     (fst a - fst c)\<^sup>2 + (snd a - snd c)\<^sup>2 < (fst b - fst c)\<^sup>2 + (snd b - snd c)\<^sup>2"
  unfolding distance_def by (simp only: real_sqrt_less_iff of_int_less_iff)

lemma two_split:
  "[a, b] = pre @ m # post \<longleftrightarrow> (pre = [] \<and> m = a \<and> post = [b]) \<or> (pre = [a] \<and> m = b \<and> post = [])"
  by (auto simp: Cons_eq_append_conv)

lemma selector_example_within:
  "within_tolerance selector_example (object_at 100 100) (object_at x y) \<longleftrightarrow>
     (x - 100)\<^sup>2 + (y - 100)\<^sup>2 \<le> 1600"
  by (simp add: within_tolerance_squares selector_example_def object_at_def)

lemma one_split: "[a] = pre @ m # post \<longleftrightarrow> pre = [] \<and> m = a \<and> post = []"
  by (auto simp: Cons_eq_append_conv)

subsection \<open>C4: the selection follows the closest detection\<close>

text \<open>
  Claim C4. The distance of a detection from the selected position is the Euclidean one
  in the pixel plane: it is not negative and its square is the sum of the squares of the
  two coordinate differences; a detection is within tolerance when that sum is at most the
  square of a tolerance radius that is not negative. With an object selected,
  \<^verbatim>\<open>update_selection\<close> looks at the detections within tolerance. If there is none, the
  selector is left exactly as it was: neither cleared nor updated. Otherwise the stored
  object and the stored identity are replaced by the detection of least distance among
  them, the earliest in the detection list among equally close ones: every matching
  detection before it is strictly farther, every one after it is at least as far. With
  nothing selected the call changes nothing.
\<close>

theorem update_selection_rebinds_to_closest:
  "(\<forall>a b. (distance a b)\<^sup>2 = real_of_int ((fst a - fst b)\<^sup>2 + (snd a - snd b)\<^sup>2) \<and>
           0 \<le> distance a b)
   \<and> (\<forall>so obj. within_tolerance sel so obj \<longleftrightarrow>
          0 \<le> tolerance_radius sel \<and>
          (fst (pixel_pos obj) - fst (pixel_pos so))\<^sup>2 +
          (snd (pixel_pos obj) - snd (pixel_pos so))\<^sup>2 \<le> (tolerance_radius sel)\<^sup>2)
   \<and> (selected_object sel = None \<longrightarrow> update_selection objs sel = (None, sel))
   \<and> (\<forall>so. selected_object sel = Some so \<longrightarrow>
        ((\<forall>obj \<in> set objs. \<not> within_tolerance sel so obj) \<longrightarrow>
            update_selection objs sel = (None, sel))
      \<and> ((\<exists>obj \<in> set objs. within_tolerance sel so obj) \<longrightarrow>
            (\<exists>pre m post. objs = pre @ m # post
               \<and> within_tolerance sel so m
               \<and> (\<forall>obj \<in> set pre. within_tolerance sel so obj \<longrightarrow>
                     distance (pixel_pos m) (pixel_pos so) <
                     distance (pixel_pos obj) (pixel_pos so))
               \<and> (\<forall>obj \<in> set post. within_tolerance sel so obj \<longrightarrow>
                     distance (pixel_pos m) (pixel_pos so) \<le>
                     distance (pixel_pos obj) (pixel_pos so))
               \<and> update_selection objs sel =
                   (Some m, sel\<lparr> selected_object := Some m,
                                 selection_id := Some (obj_id m) \<rparr>))))"
proof (intro conjI allI impI)
  show "(distance a b)\<^sup>2 = real_of_int ((fst a - fst b)\<^sup>2 + (snd a - snd b)\<^sup>2)"
    and "0 \<le> distance a b" for a b
    by (rule distance_euclidean)+
  show "within_tolerance sel so obj \<longleftrightarrow>
          0 \<le> tolerance_radius sel \<and>
          (fst (pixel_pos obj) - fst (pixel_pos so))\<^sup>2 +
          (snd (pixel_pos obj) - snd (pixel_pos so))\<^sup>2 \<le> (tolerance_radius sel)\<^sup>2"
    for so obj
    by (rule within_tolerance_squares)
next
  show "update_selection objs sel = (None, sel)" if "selected_object sel = None"
    using that by (simp add: update_selection_def)
next
  fix so
  assume so: "selected_object sel = Some so"
  let ?ms = "matching_objects (pixel_pos so) (tolerance_radius sel) objs"
  have ms: "?ms = [] \<longleftrightarrow> (\<forall>obj \<in> set objs. \<not> within_tolerance sel so obj)"
    by (simp add: matching_objects_eq within_tolerance_def filter_empty_conv)
  show "update_selection objs sel = (None, sel)"
    if "\<forall>obj \<in> set objs. \<not> within_tolerance sel so obj"
    using that so ms by (simp add: update_selection_def)
  show "\<exists>pre m post. objs = pre @ m # post
               \<and> within_tolerance sel so m
               \<and> (\<forall>obj \<in> set pre. within_tolerance sel so obj \<longrightarrow>
                     distance (pixel_pos m) (pixel_pos so) <
                     distance (pixel_pos obj) (pixel_pos so))
               \<and> (\<forall>obj \<in> set post. within_tolerance sel so obj \<longrightarrow>
                     distance (pixel_pos m) (pixel_pos so) \<le>
                     distance (pixel_pos obj) (pixel_pos so))
               \<and> update_selection objs sel =
                   (Some m, sel\<lparr> selected_object := Some m,
                                 selection_id := Some (obj_id m) \<rparr>)"
    if "\<exists>obj \<in> set objs. within_tolerance sel so obj"
  proof -
    from that ms have ne: "?ms \<noteq> []" by blast
    from closest_match[OF ne] obtain pre m post where
      p: "objs = pre @ m # post" "fst (hd (sort_key snd ?ms)) = m"
      "distance (pixel_pos m) (pixel_pos so) \<le> real_of_int (tolerance_radius sel)"
      "\<forall>obj \<in> set pre. distance (pixel_pos obj) (pixel_pos so) \<le> real_of_int (tolerance_radius sel) \<longrightarrow>
            distance (pixel_pos m) (pixel_pos so) < distance (pixel_pos obj) (pixel_pos so)"
      "\<forall>obj \<in> set post. distance (pixel_pos obj) (pixel_pos so) \<le> real_of_int (tolerance_radius sel) \<longrightarrow>
            distance (pixel_pos m) (pixel_pos so) \<le> distance (pixel_pos obj) (pixel_pos so)"
      by blast
    have "update_selection objs sel =
        (Some m, sel\<lparr> selected_object := Some m, selection_id := Some (obj_id m) \<rparr>)"
      using so ne p(2) by (simp add: update_selection_def Let_def)
    with p show ?thesis unfolding within_tolerance_def by blast
  qed
qed




theorem update_selection_rebinds_to_closest_witness:
  "selected_object selector_example = Some (object_at 100 100)
   \<and> pixel_pos (object_at 100 100) = (100, 100) \<and> tolerance_radius selector_example = 40
   \<and> pixel_pos (object_at 120 100) = (120, 100) \<and> pixel_pos (object_at 200 100) = (200, 100)
   \<and> update_selection [object_at 120 100, object_at 200 100] selector_example =
       (Some (object_at 120 100),
        selector_example\<lparr> selected_object := Some (object_at 120 100),
                          selection_id := Some (obj_id (object_at 120 100)) \<rparr>)
   \<and> update_selection [object_at 200 100, object_at 120 100] selector_example =
       (Some (object_at 120 100),
        selector_example\<lparr> selected_object := Some (object_at 120 100),
                          selection_id := Some (obj_id (object_at 120 100)) \<rparr>)
   \<and> update_selection [object_at 100 120, object_at 120 100] selector_example =
       (Some (object_at 100 120),
        selector_example\<lparr> selected_object := Some (object_at 100 120),
                          selection_id := Some (obj_id (object_at 100 120)) \<rparr>)
   \<and> update_selection [object_at 110 130, object_at 120 100] selector_example =
       (Some (object_at 120 100),
        selector_example\<lparr> selected_object := Some (object_at 120 100),
                          selection_id := Some (obj_id (object_at 120 100)) \<rparr>)
   \<and> update_selection [object_at 124 132] selector_example =
       (Some (object_at 124 132),
        selector_example\<lparr> selected_object := Some (object_at 124 132),
                          selection_id := Some (obj_id (object_at 124 132)) \<rparr>)
   \<and> update_selection [object_at 200 100] selector_example = (None, selector_example)
   \<and> update_selection [object_at 100 400] selector_example = (None, selector_example)
   \<and> update_selection [object_at 130 140] selector_example = (None, selector_example)"
proof -
  let ?so = "object_at 100 100"
  have so: "selected_object selector_example = Some ?so" by (simp add: selector_example_def)
  have eqd: "distance (pixel_pos (object_at 120 100)) (pixel_pos ?so) =
             distance (pixel_pos (object_at 100 120)) (pixel_pos ?so)"
    by (simp add: distance_def object_at_def)
  have "distance (pixel_pos (object_at 120 100)) (pixel_pos ?so) <
        distance (pixel_pos (object_at 110 130)) (pixel_pos ?so)"
    unfolding distance_less_iff by (simp add: object_at_def)
  then have off: "\<not> distance (pixel_pos (object_at 110 130)) (pixel_pos ?so) \<le>
               distance (pixel_pos (object_at 120 100)) (pixel_pos ?so)"
    by simp
  note inst = update_selection_rebinds_to_closest[of selector_example,
      THEN conjunct2, THEN conjunct2, THEN conjunct2, rule_format, OF so]
  have one: "update_selection [object_at 120 100, object_at 200 100] selector_example =
       (Some (object_at 120 100),
        selector_example\<lparr> selected_object := Some (object_at 120 100),
                          selection_id := Some (obj_id (object_at 120 100)) \<rparr>)"
    using inst[of "[object_at 120 100, object_at 200 100]", THEN conjunct2]
    by (auto simp: two_split selector_example_within)
  have two: "update_selection [object_at 200 100, object_at 120 100] selector_example =
       (Some (object_at 120 100),
        selector_example\<lparr> selected_object := Some (object_at 120 100),
                          selection_id := Some (obj_id (object_at 120 100)) \<rparr>)"
    using inst[of "[object_at 200 100, object_at 120 100]", THEN conjunct2]
    by (auto simp: two_split selector_example_within)
  have tie: "update_selection [object_at 100 120, object_at 120 100] selector_example =
       (Some (object_at 100 120),
        selector_example\<lparr> selected_object := Some (object_at 100 120),
                          selection_id := Some (obj_id (object_at 100 120)) \<rparr>)"
    using inst[of "[object_at 100 120, object_at 120 100]", THEN conjunct2] eqd
    by (auto simp: two_split selector_example_within)
  have diag: "update_selection [object_at 110 130, object_at 120 100] selector_example =
       (Some (object_at 120 100),
        selector_example\<lparr> selected_object := Some (object_at 120 100),
                          selection_id := Some (obj_id (object_at 120 100)) \<rparr>)"
    using inst[of "[object_at 110 130, object_at 120 100]", THEN conjunct2] off
    by (auto simp: two_split selector_example_within)
  have edge: "update_selection [object_at 124 132] selector_example =
       (Some (object_at 124 132),
        selector_example\<lparr> selected_object := Some (object_at 124 132),
                          selection_id := Some (obj_id (object_at 124 132)) \<rparr>)"
    using inst[of "[object_at 124 132]", THEN conjunct2]
    by (auto simp: one_split selector_example_within)
  have none: "update_selection [object_at 200 100] selector_example = (None, selector_example)"
    using inst[of "[object_at 200 100]", THEN conjunct1]
    by (simp add: selector_example_within)
  have vert: "update_selection [object_at 100 400] selector_example = (None, selector_example)"
    using inst[of "[object_at 100 400]", THEN conjunct1]
    by (simp add: selector_example_within)
  have far: "update_selection [object_at 130 140] selector_example = (None, selector_example)"
    using inst[of "[object_at 130 140]", THEN conjunct1]
    by (simp add: selector_example_within)
  show ?thesis
    using so one two tie diag edge none vert far
    by (simp add: object_at_def selector_example_def)
qed

section \<open>Properties of the detector\<close>

lemma filter_contours_eq:
  "filter_contours cv min_area cnts =
     filter (\<lambda>cnt. min_area < contourArea cv cnt \<and> 7 / 10 < solidity cv cnt) cnts"
  by (induction cnts) simp_all

lemma scene_solidity:
  "solidity scene_cv b = (if 0 < blob_hull_area b then blob_area b / blob_hull_area b else 0)"
  by (simp add: solidity_def scene_cv_def Let_def)

subsection \<open>C3: the contour filter\<close>

text \<open>
  Claim C3, as the code has it. \<^verbatim>\<open>find_contours\<close> keeps, in their order, the contours of
  the mask whose area is greater than \<^verbatim>\<open>min_area\<close> and whose solidity is greater than 0.7:
  a contour is rejected if and only if its area is at most \<^verbatim>\<open>min_area\<close> or its solidity is
  at most 0.7. The solidity is the area divided by the area of the convex hull, and 0
  when the hull has no area. A contour whose area equals \<^verbatim>\<open>min_area\<close> is rejected, whatever
  its solidity: the second theorem below is that case, against the claim as it was
  written (rejection only below \<^verbatim>\<open>min_area\<close>).
\<close>

theorem find_contours_keeps_large_solid:
  "find_contours cv msk min_area =
     filter (\<lambda>cnt. \<not> (contourArea cv cnt \<le> min_area \<or> solidity cv cnt \<le> 7 / 10))
       (findContours cv msk)
   \<and> (\<forall>cnt. cnt \<in> set (find_contours cv msk min_area) \<longleftrightarrow>
         cnt \<in> set (findContours cv msk) \<and>
         \<not> (contourArea cv cnt \<le> min_area \<or> solidity cv cnt \<le> 7 / 10))
   \<and> (\<forall>cnt. contourArea cv (convexHull cv cnt) \<le> 0 \<longrightarrow> solidity cv cnt = 0)
   \<and> (\<forall>cnt. 0 < contourArea cv (convexHull cv cnt) \<longrightarrow>
         solidity cv cnt = contourArea cv cnt / contourArea cv (convexHull cv cnt))"
proof -
  have eq: "find_contours cv msk min_area =
     filter (\<lambda>cnt. \<not> (contourArea cv cnt \<le> min_area \<or> solidity cv cnt \<le> 7 / 10))
       (findContours cv msk)"
    by (simp add: find_contours_def filter_contours_eq not_le)
  show ?thesis
    by (subst (1 2) eq) (auto simp: solidity_def Let_def)
qed

theorem find_contours_keeps_large_solid_witness:
  "findContours scene_cv [square_blob, boundary_blob, concave_blob] =
     [square_blob, boundary_blob, concave_blob]
   \<and> contourArea scene_cv square_blob = 1600 \<and> solidity scene_cv square_blob = 1
   \<and> contourArea scene_cv concave_blob = 1200 \<and> solidity scene_cv concave_blob = 6 / 10
   \<and> find_contours scene_cv [square_blob, boundary_blob, concave_blob] 1000 = [square_blob]"
proof -
  have a: "contourArea scene_cv square_blob = 1600" "solidity scene_cv square_blob = 1"
    "contourArea scene_cv concave_blob = 1200" "solidity scene_cv concave_blob = 6 / 10"
    "contourArea scene_cv boundary_blob = 1000" "solidity scene_cv boundary_blob = 1"
    by (simp_all add: scene_solidity square_blob_def concave_blob_def boundary_blob_def)
      (simp_all add: scene_cv_def)
  have f: "findContours scene_cv [square_blob, boundary_blob, concave_blob] =
     [square_blob, boundary_blob, concave_blob]"
    by (simp add: scene_cv_def)
  from find_contours_keeps_large_solid[of scene_cv "[square_blob, boundary_blob, concave_blob]" 1000]
  have "find_contours scene_cv [square_blob, boundary_blob, concave_blob] 1000 = [square_blob]"
    by (simp add: f a)
  then show ?thesis using a f by simp
qed

text \<open>
  The rectangle of area exactly 1000, with solidity 1, is a contour of its mask and is not
  among the contours kept for \<^verbatim>\<open>min_area = 1000\<close>.
\<close>

theorem area_equal_to_min_area_rejected:
  "contourArea scene_cv boundary_blob = 1000
   \<and> 7 / 10 < solidity scene_cv boundary_blob
   \<and> boundary_blob \<in> set (findContours scene_cv [boundary_blob])
   \<and> boundary_blob \<notin> set (find_contours scene_cv [boundary_blob] 1000)"
  by (simp add: find_contours_def scene_solidity boundary_blob_def)
     (simp add: scene_cv_def)

lemma hsv_ranges_init:
  "hsv_ranges (ColorDetector_init csv) =
     [ (''Red'', [((0, 100, 100), (10, 255, 255)), ((160, 100, 100), (180, 255, 255))]),
       (''Green'', [((35, 50, 50), (90, 255, 255))]),
       (''Blue'', [((95, 50, 50), (135, 255, 255))]) ]"
  by (simp add: ColorDetector_init_def setup_hsv_ranges_def)

lemma create_color_mask_cong:
  "hsv_ranges d1 = hsv_ranges d2 \<Longrightarrow>
   create_color_mask cv d1 hsv_frame c = create_color_mask cv d2 hsv_frame c"
  by (simp add: create_color_mask_def)

lemma detect_colors_cong:
  "hsv_ranges d1 = hsv_ranges d2 \<Longrightarrow>
   detect_colors cv d1 frame hsv_frame min_area names =
   detect_colors cv d2 frame hsv_frame min_area names"
  by (induction names)
     (auto simp: create_color_mask_cong[of d1 d2] split: sum.splits option.splits)

lemma detect_objects_cong:
  "hsv_ranges d1 = hsv_ranges d2 \<Longrightarrow>
   detect_objects cv d1 frame min_area = detect_objects cv d2 frame min_area"
  by (simp add: detect_objects_def detect_colors_cong[of d1 d2])

lemma str_int_128: "str_int 128 = ''128''" and str_int_96: "str_int 96 = ''96''"
  by code_simp+

lemma detect_red_scene:
  "detect_objects scene_cv (ColorDetector_init csv) red_scene 1000 = Inr [red_obj]"
  by (simp add: detect_objects_def hsv_ranges_init preprocess_frame_def create_color_mask_def
      clean_mask_def find_contours_def solidity_def scene_cv_def hsv_in_range_def
      red_scene_def square_blob_def int_of_quotient_def str_int_128 str_int_96 red_obj_def
      Let_def)


lemma colors_csv_loaded:
  "color_names (ColorDetector_init (Some colors_csv)) =
     [StrCell ''Alabama Crimson'', StrCell ''Amber'']"
  by (simp add: ColorDetector_init_def setup_hsv_ranges_def load_color_dataset_def colors_csv_def)

subsection \<open>C8: detection does not depend on the colour dataset\<close>

text \<open>
  Claim C8. For every frame and every \<^verbatim>\<open>min_area\<close>, \<^verbatim>\<open>detect_objects\<close> returns the same
  result in the run in which the colour dataset was loaded as in the run in which loading
  failed and the built-in table of Red, Green and Blue was used, and so for any two
  outcomes of the load: the HSV ranges are the same constants in every run, and the
  detection reads nothing else of the detector.
\<close>

theorem detect_objects_ignores_dataset:
  "detect_objects cv (ColorDetector_init (Some df)) frame min_area =
   detect_objects cv (ColorDetector_init None) frame min_area
   \<and> detect_objects cv (ColorDetector_init csv1) frame min_area =
     detect_objects cv (ColorDetector_init csv2) frame min_area
   \<and> color_names (ColorDetector_init None) = [StrCell ''Red'', StrCell ''Green'', StrCell ''Blue'']
   \<and> hsv_ranges (ColorDetector_init csv1) = hsv_ranges (ColorDetector_init None)"
proof -
  have same: "hsv_ranges (ColorDetector_init a) = hsv_ranges (ColorDetector_init b)" for a b
    by (simp add: hsv_ranges_init)
  have fallback: "color_names (ColorDetector_init None) =
      [StrCell ''Red'', StrCell ''Green'', StrCell ''Blue'']"
    by (simp add: ColorDetector_init_def setup_hsv_ranges_def load_color_dataset_def
        setup_default_colors_def)
  show ?thesis
  proof (intro conjI)
    show "detect_objects cv (ColorDetector_init (Some df)) frame min_area =
          detect_objects cv (ColorDetector_init None) frame min_area"
      by (rule detect_objects_cong[OF same])
    show "detect_objects cv (ColorDetector_init csv1) frame min_area =
          detect_objects cv (ColorDetector_init csv2) frame min_area"
      by (rule detect_objects_cong[OF same])
    show "color_names (ColorDetector_init None) =
          [StrCell ''Red'', StrCell ''Green'', StrCell ''Blue'']"
      by (rule fallback)
    show "hsv_ranges (ColorDetector_init csv1) = hsv_ranges (ColorDetector_init None)"
      by (rule same)
  qed
qed

theorem detect_objects_ignores_dataset_witness:
  "color_names (ColorDetector_init (Some colors_csv)) =
     [StrCell ''Alabama Crimson'', StrCell ''Amber'']
   \<and> color_names (ColorDetector_init None) = [StrCell ''Red'', StrCell ''Green'', StrCell ''Blue'']
   \<and> detect_objects scene_cv (ColorDetector_init (Some colors_csv)) red_scene 1000 = Inr [red_obj]
   \<and> detect_objects scene_cv (ColorDetector_init None) red_scene 1000 = Inr [red_obj]"
proof -
  have "detect_objects scene_cv (ColorDetector_init (Some colors_csv)) red_scene 1000 =
        detect_objects scene_cv (ColorDetector_init None) red_scene 1000"
    and "color_names (ColorDetector_init None) =
        [StrCell ''Red'', StrCell ''Green'', StrCell ''Blue'']"
    using detect_objects_ignores_dataset[of scene_cv colors_csv red_scene 1000] by blast+
  then show ?thesis
    using colors_csv_loaded detect_red_scene[of None] by simp
qed

section \<open>Properties of a batch over detected objects\<close>

subsection \<open>A colour without a drop location\<close>

lemma complete_mission_next_unknown:
  assumes "current_mission s = Some m" "drop_locations s (object_color m) = Some d"
    "batch_queue s = q # qs" "drop_locations s (color q) = None"
  shows "complete_mission a b s = Inl (KeyError (color q))"
  using assms
  by (simp add: complete_mission_def Let_def start_next_mission_def calculate_pick_mission_def
      split: prod.splits)

lemma run_fifty_unknown:
  assumes "is_moving s" "current_mission s = Some m" "mission_progress s = 0"
    "drop_locations s (object_color m) = Some d" "batch_queue s = q # qs"
    "drop_locations s (color q) = None" "length ts = 50"
  shows "run_ticks ts s = Inl (KeyError (color q))"
proof -
  let ?s = "s\<lparr>mission_progress := 100\<rparr>"
  have "run_ticks ts s = complete_mission (fst (last ts)) (snd (last ts)) ?s"
    using assms by (intro run_fifty) auto
  also have "\<dots> = Inl (KeyError (color q))"
    using assms by (intro complete_mission_next_unknown[of _ m d q qs]) auto
  finally show ?thesis .
qed

lemma batch_prefix_upto:
  assumes "is_moving s" "batch_mode s" "mission_progress s = 0" "drop_locations s = drop_table"
    "current_mission s = Some m" "drop_table (object_color m) \<noteq> None"
    "\<forall>q \<in> set (take k (batch_queue s)). drop_table (color q) \<noteq> None"
    "k \<le> length (batch_queue s)" "length ts = 50 * k"
  shows "\<exists>s' m'. run_ticks ts s = Inr s' \<and> is_moving s' \<and> batch_mode s'
      \<and> mission_progress s' = 0 \<and> drop_locations s' = drop_table
      \<and> current_mission s' = Some m'
      \<and> mission_target m' = (mission_target m # map target_of (batch_queue s)) ! k
      \<and> batch_queue s' = drop k (batch_queue s)
      \<and> picked s' = picked s @ take k (mission_target m # map target_of (batch_queue s))
      \<and> batch_completions (robot_metrics s') = batch_completions (robot_metrics s)
      \<and> total_picks (robot_metrics s') = total_picks (robot_metrics s) + int k"
  using assms
proof (induction k arbitrary: s m ts)
  case 0
  then show ?case by simp
next
  case (Suc k)
  from Suc.prems obtain q qs where q: "batch_queue s = q # qs"
    by (cases "batch_queue s") auto
  from Suc.prems obtain d where d: "drop_locations s (object_color m) = Some d" by auto
  from Suc.prems q obtain dq where dq: "drop_locations s (color q) = Some dq" by auto
  let ?t1 = "take 50 ts" and ?t2 = "drop 50 ts"
  have l1: "length ?t1 = 50" and l2: "length ?t2 = 50 * k" using Suc.prems by auto
  define s1 where "s1 = s\<lparr> mission_progress := 0,
             robot_metrics := count_pick (robot_metrics s),
             pick_history := pick_history s @ [history_entry m (fst (last ?t1)) d],
             batch_queue := qs,
             current_mission := Some (mission_of q (snd (last ?t1))),
             mission_steps := mission_plan (robot_pos q) dq (current_position s) \<rparr>"
  have r1: "run_ticks ?t1 s = Inr s1"
    unfolding s1_def using Suc.prems q d dq l1 by (intro run_fifty_next) auto
  have "\<exists>s' m'. run_ticks ?t2 s1 = Inr s' \<and> is_moving s' \<and> batch_mode s'
      \<and> mission_progress s' = 0 \<and> drop_locations s' = drop_table
      \<and> current_mission s' = Some m'
      \<and> mission_target m' = (mission_target (mission_of q (snd (last ?t1))) # map target_of (batch_queue s1)) ! k
      \<and> batch_queue s' = drop k (batch_queue s1)
      \<and> picked s' = picked s1 @ take k (mission_target (mission_of q (snd (last ?t1))) # map target_of (batch_queue s1))
      \<and> batch_completions (robot_metrics s') = batch_completions (robot_metrics s1)
      \<and> total_picks (robot_metrics s') = total_picks (robot_metrics s1) + int k"
    using Suc.prems q dq l2
    by (intro Suc.IH) (auto simp: s1_def mission_of_def)
  then obtain s' m' where r2: "run_ticks ?t2 s1 = Inr s'"
    and p: "is_moving s'" "batch_mode s'" "mission_progress s' = 0"
      "drop_locations s' = drop_table" "current_mission s' = Some m'"
      "mission_target m' = (target_of q # map target_of qs) ! k"
      "batch_queue s' = drop k qs"
      "picked s' = picked s1 @ take k (target_of q # map target_of qs)"
      "batch_completions (robot_metrics s') = batch_completions (robot_metrics s1)"
      "total_picks (robot_metrics s') = total_picks (robot_metrics s1) + int k"
    by (auto simp: s1_def)
  have run: "run_ticks ts s = Inr s'"
    using run_ticks_append[of ?t1 ?t2 s] r1 r2 by simp
  have pk: "picked s1 = picked s @ [mission_target m]"
    by (rule picked_append[of _ _ m "fst (last ?t1)" d]) (simp add: s1_def)
  show ?case
    using run p pk q by (auto simp: s1_def count_pick_def)
qed

lemma batch_stops_at_unknown:
  assumes "is_moving s" "batch_mode s" "mission_progress s = 0" "drop_locations s = drop_table"
    "current_mission s = Some m" "drop_table (object_color m) \<noteq> None"
    "\<forall>q \<in> set (take k (batch_queue s)). drop_table (color q) \<noteq> None"
    "k < length (batch_queue s)" "drop_table (color (batch_queue s ! k)) = None"
    "length ts = 50 * Suc k"
  shows "run_ticks ts s = Inl (KeyError (color (batch_queue s ! k)))"
proof -
  let ?t1 = "take (50 * k) ts" and ?t2 = "drop (50 * k) ts"
  have l1: "length ?t1 = 50 * k" and l2: "length ?t2 = 50" using assms by auto
  have kl: "k \<le> length (batch_queue s)" using assms(8) by simp
  from batch_prefix_upto[OF assms(1-7) kl l1]
  obtain s1 m1 where r1: "run_ticks ?t1 s = Inr s1"
    and p: "is_moving s1" "mission_progress s1 = 0"
      "drop_locations s1 = drop_table" "current_mission s1 = Some m1"
      "mission_target m1 = (mission_target m # map target_of (batch_queue s)) ! k"
      "batch_queue s1 = drop k (batch_queue s)"
    by blast
  let ?all = "mission_target m # map target_of (batch_queue s)"
  have known: "\<forall>x \<in> set (take (Suc k) ?all). drop_table (fst x) \<noteq> None"
    using assms(6,7) by (auto simp: mission_target_def target_of_def take_map)
  have "?all ! k \<in> set (take (Suc k) ?all)"
    using assms(8) by (metis length_Cons length_map lessI less_Suc_eq nth_take nth_mem length_take
        min.absorb2 Suc_leI)
  with known have "drop_table (fst (?all ! k)) \<noteq> None" by blast
  moreover have "object_color m1 = fst (?all ! k)"
    using arg_cong[OF p(5), of fst] by (simp add: mission_target_def)
  ultimately obtain d1 where d1: "drop_locations s1 (object_color m1) = Some d1"
    using p(3) by auto
  have q: "batch_queue s1 = batch_queue s ! k # drop (Suc k) (batch_queue s)"
    using p(6) assms(8) by (simp add: Cons_nth_drop_Suc)
  have unk: "drop_locations s1 (color (batch_queue s ! k)) = None"
    using assms(9) p(3) by simp
  have r2: "run_ticks ?t2 s1 = Inl (KeyError (color (batch_queue s ! k)))"
    by (rule run_fifty_unknown[OF p(1) p(4) p(2) d1 q unk l2])
  show ?thesis
    using run_ticks_append[of ?t1 ?t2 s] r1 r2 by simp
qed

lemma start_all_objects_batch_unknown:
  assumes "\<not> is_moving s" "objs \<noteq> []" "batch_order objs = x # xs"
    "drop_locations s (color x) = None"
  shows "start_all_objects_batch t objs s = Inl (KeyError (color x))"
  using assms
  by (simp add: start_all_objects_batch_def start_batch_pick_def batch_order_def
      start_mission_def calculate_pick_mission_def split: prod.splits)

lemma process_contours_color:
  "process_contours cv cnts c shape = Inr objs \<Longrightarrow> \<forall>obj \<in> set objs. color obj = c"
proof (induction cnts arbitrary: objs)
  case Nil
  then show ?case by simp
next
  case (Cons cnt cnts)
  then show ?case
    by (auto simp: Let_def split: prod.splits sum.splits)
qed

lemma detect_colors_color:
  "detect_colors cv det frame hsv_frame min_area names = Inr objs \<Longrightarrow>
   \<forall>obj \<in> set objs. color obj \<in> set names"
proof (induction names arbitrary: objs)
  case Nil
  then show ?case by simp
next
  case (Cons c names)
  then show ?case
    by (auto split: option.splits sum.splits dest!: process_contours_color)
qed

lemma detect_objects_colors:
  assumes "detect_objects cv (ColorDetector_init csv) frame min_area = Inr objs"
  shows "\<forall>obj \<in> set objs. color obj \<in> {''Red'', ''Green'', ''Blue''}"
  using detect_colors_color[OF assms[unfolded detect_objects_def]]
  by (simp add: hsv_ranges_init)


lemma drop_table_none: "c \<notin> {''Red'', ''Green'', ''Blue''} \<Longrightarrow> drop_table c = None"
  by (auto simp: drop_table_def)

lemma drop_table_some: "c \<in> {''Red'', ''Green'', ''Blue''} \<Longrightarrow> drop_table c \<noteq> None"
  by (auto simp: drop_table_def)

lemma batch_order_purple: "batch_order [purple_obj, red_obj] = [red_obj, purple_obj]"
  by (simp add: batch_order_def color_order_def red_obj_def purple_obj_def)

subsection \<open>C5: a batch over all objects\<close>

text \<open>
  Claim C5, as the code has it. \<^verbatim>\<open>start_all_objects_batch\<close> orders every list of objects
  by the colour priority Red 0, Green 1, Blue 2, any other colour 3, keeping the input
  order within a colour (the ordered list is sorted by priority, a permutation of the
  input, and equal to the input on each priority class). On the empty list and on a
  moving controller it changes nothing. On an idle controller and a non-empty list:

  \<^item> if the colour of the first object of the order is none of Red, Green and Blue, the
    call raises \<^verbatim>\<open>KeyError\<close> on that colour (\<^verbatim>\<open>calculate_pick_mission\<close> looks it up in
    \<^verbatim>\<open>drop_locations\<close>);
  \<^item> otherwise it starts the first object of the order as the current mission and queues
    the rest, history and metrics unchanged. The queue is then used first in, first
    out: as long as the \<open>k + 1\<close> first objects of the order have colours among Red,
    Green and Blue, after \<open>50 k\<close> ticks the \<open>k\<close> first objects have been picked, object
    \<open>k\<close> is the current mission, the batch flag is still set and the batch counter has
    not moved;
  \<^item> if object \<open>k\<close> of the order is the first one of another colour, the tick that
    completes mission \<open>k - 1\<close> raises \<^verbatim>\<open>KeyError\<close> on its colour;
  \<^item> if all colours are among Red, Green and Blue, after the last mission of the batch
    the batch counter is higher by exactly 1, the batch flag is cleared and the
    controller is idle.

  Every object that \<^verbatim>\<open>detect_objects\<close> returns has a colour among Red, Green and Blue, so
  the lists the frame loop passes to the batch are of the last kind.
\<close>

theorem batch_runs_in_color_order:
  "color_order ''Red'' = 0 \<and> color_order ''Green'' = 1 \<and> color_order ''Blue'' = 2
   \<and> (\<forall>c. c \<notin> {''Red'', ''Green'', ''Blue''} \<longrightarrow> color_order c = 3)
   \<and> sorted (map (\<lambda>x. color_order (color x)) (batch_order objs))
   \<and> mset (batch_order objs) = mset objs
   \<and> (\<forall>k. filter (\<lambda>x. color_order (color x) = k) (batch_order objs) =
           filter (\<lambda>x. color_order (color x) = k) objs)
   \<and> start_all_objects_batch t [] s = Inr s
   \<and> (is_moving s \<longrightarrow> start_all_objects_batch t objs s = Inr s)
   \<and> (detect_objects cv (ColorDetector_init csv) frame min_area = Inr found \<longrightarrow>
        (\<forall>obj \<in> set found. color obj \<in> {''Red'', ''Green'', ''Blue''}))
   \<and> (\<not> is_moving s \<and> drop_locations s = drop_table \<and> objs \<noteq> [] \<longrightarrow>
        (color (hd (batch_order objs)) \<notin> {''Red'', ''Green'', ''Blue''} \<longrightarrow>
           start_all_objects_batch t objs s = Inl (KeyError (color (hd (batch_order objs)))))
      \<and> (color (hd (batch_order objs)) \<in> {''Red'', ''Green'', ''Blue''} \<longrightarrow>
           (\<exists>s0. start_all_objects_batch t objs s = Inr s0
          \<and> is_moving s0 \<and> batch_mode s0 \<and> mission_progress s0 = 0
          \<and> current_mission s0 = Some (mission_of (hd (batch_order objs)) t)
          \<and> batch_queue s0 = tl (batch_order objs)
          \<and> pick_history s0 = pick_history s \<and> robot_metrics s0 = robot_metrics s
          \<and> (\<forall>k ts. k < length objs \<and> length ts = 50 * k \<and>
                   (\<forall>obj \<in> set (take (Suc k) (batch_order objs)). color obj \<in> {''Red'', ''Green'', ''Blue''}) \<longrightarrow>
                (\<exists>s' m'. run_ticks ts s0 = Inr s' \<and> is_moving s' \<and> batch_mode s'
                   \<and> current_mission s' = Some m'
                   \<and> mission_target m' = target_of (batch_order objs ! k)
                   \<and> batch_queue s' = drop (Suc k) (batch_order objs)
                   \<and> picked s' = picked s @ map target_of (take k (batch_order objs))
                   \<and> batch_completions (robot_metrics s') =
                       batch_completions (robot_metrics s)))
          \<and> (\<forall>k ts. 0 < k \<and> k < length objs \<and> length ts = 50 * k \<and>
                   (\<forall>obj \<in> set (take k (batch_order objs)). color obj \<in> {''Red'', ''Green'', ''Blue''}) \<and>
                   color (batch_order objs ! k) \<notin> {''Red'', ''Green'', ''Blue''} \<longrightarrow>
                run_ticks ts s0 = Inl (KeyError (color (batch_order objs ! k))))
          \<and> (\<forall>ts. length ts = 50 * length objs \<and> (\<forall>obj \<in> set objs. color obj \<in> {''Red'', ''Green'', ''Blue''}) \<longrightarrow>
                (\<exists>s'. run_ticks ts s0 = Inr s' \<and> \<not> is_moving s' \<and> \<not> batch_mode s'
                   \<and> current_mission s' = None \<and> batch_queue s' = []
                   \<and> picked s' = picked s @ map target_of (batch_order objs)
                   \<and> batch_completions (robot_metrics s') =
                       batch_completions (robot_metrics s) + 1
                   \<and> total_picks (robot_metrics s') =
                       total_picks (robot_metrics s) + int (length objs))))))"
proof (intro conjI allI impI)
  show "color_order ''Red'' = 0" "color_order ''Green'' = 1" "color_order ''Blue'' = 2"
    by (simp_all add: color_order_def)
  show "color_order c = 3" if "c \<notin> {''Red'', ''Green'', ''Blue''}" for c
    using that by (simp add: color_order_def)
  show "sorted (map (\<lambda>x. color_order (color x)) (batch_order objs))"
    by (rule batch_order_sorted)
  show "mset (batch_order objs) = mset objs" by (rule batch_order_mset)
  show "filter (\<lambda>x. color_order (color x) = k) (batch_order objs) =
        filter (\<lambda>x. color_order (color x) = k) objs" for k
    by (rule batch_order_stable)
  show "start_all_objects_batch t [] s = Inr s"
    by (simp add: start_all_objects_batch_def)
  show "start_all_objects_batch t objs s = Inr s" if "is_moving s"
    using that by (simp add: start_all_objects_batch_def start_batch_pick_def)
  show "\<forall>obj \<in> set found. color obj \<in> {''Red'', ''Green'', ''Blue''}"
    if "detect_objects cv (ColorDetector_init csv) frame min_area = Inr found"
    by (rule detect_objects_colors[OF that])
next
  assume pre: "\<not> is_moving s \<and> drop_locations s = drop_table \<and> objs \<noteq> []"
  assume unk: "color (hd (batch_order objs)) \<notin> {''Red'', ''Green'', ''Blue''}"
  from pre obtain x xs where xs: "batch_order objs = x # xs"
    using batch_order_length[of objs] by (cases "batch_order objs") auto
  have "drop_locations s (color x) = None"
    using unk pre xs drop_table_none[of "color x"] by simp
  from start_all_objects_batch_unknown[OF _ _ xs this, of t] pre xs
  show "start_all_objects_batch t objs s = Inl (KeyError (color (hd (batch_order objs))))"
    by simp
next
  assume pre: "\<not> is_moving s \<and> drop_locations s = drop_table \<and> objs \<noteq> []"
  assume hdk: "color (hd (batch_order objs)) \<in> {''Red'', ''Green'', ''Blue''}"
  from pre obtain x xs where xs: "batch_order objs = x # xs"
    using batch_order_length[of objs] by (cases "batch_order objs") auto
  have "drop_table (color x) \<noteq> None" using hdk xs by (intro drop_table_some) simp
  then obtain d where d: "drop_table (color x) = Some d" by auto
  define s0 where "s0 = s\<lparr> batch_mode := True, batch_queue := xs,
             current_mission := Some (mission_of x t),
             mission_steps := mission_plan (robot_pos x) d (current_position s),
             is_moving := True, mission_progress := 0 \<rparr>"
  have start: "start_all_objects_batch t objs s = Inr s0"
    unfolding s0_def using pre xs d by (intro start_all_objects_batch_idle) auto
  have len: "length objs = Suc (length xs)"
    using batch_order_length[of objs] xs by simp
  have s0: "is_moving s0" "batch_mode s0" "mission_progress s0 = 0"
    "drop_locations s0 = drop_table" "current_mission s0 = Some (mission_of x t)"
    "drop_table (object_color (mission_of x t)) \<noteq> None"
    using pre d by (simp_all add: s0_def mission_of_def)
  have q0: "batch_queue s0 = xs" by (simp add: s0_def)
  have all: "mission_target (mission_of x t) # map target_of (batch_queue s0) =
             map target_of (batch_order objs)"
    by (simp add: xs s0_def)
  have e4: "picked s0 = picked s" "robot_metrics s0 = robot_metrics s"
    by (simp_all add: s0_def picked_def)
  have prefix: "\<exists>s' m'. run_ticks ts s0 = Inr s' \<and> is_moving s' \<and> batch_mode s'
                   \<and> current_mission s' = Some m'
                   \<and> mission_target m' = target_of (batch_order objs ! k)
                   \<and> batch_queue s' = drop (Suc k) (batch_order objs)
                   \<and> picked s' = picked s @ map target_of (take k (batch_order objs))
                   \<and> batch_completions (robot_metrics s') =
                       batch_completions (robot_metrics s)"
    if h: "k < length objs \<and> length ts = 50 * k \<and>
                   (\<forall>obj \<in> set (take (Suc k) (batch_order objs)). color obj \<in> {''Red'', ''Green'', ''Blue''})" for k ts
  proof -
    have k: "k \<le> length (batch_queue s0)" and l: "length ts = 50 * k"
      using h len by (simp_all add: s0_def)
    have kk: "k < length (batch_order objs)" using h batch_order_length[of objs] by simp
    have kn: "\<forall>q \<in> set (take k (batch_queue s0)). drop_table (color q) \<noteq> None"
    proof
      fix q assume "q \<in> set (take k (batch_queue s0))"
      then have "q \<in> set (take (Suc k) (batch_order objs))" using xs q0 by simp
      with h have "color q \<in> {''Red'', ''Green'', ''Blue''}" by blast
      then show "drop_table (color q) \<noteq> None" by (rule drop_table_some)
    qed
    have e1: "(mission_target (mission_of x t) # map target_of (batch_queue s0)) ! k =
        target_of (batch_order objs ! k)"
      by (simp only: all nth_map[OF kk])
    have e2: "take k (mission_target (mission_of x t) # map target_of (batch_queue s0)) =
        map target_of (take k (batch_order objs))"
      by (simp only: all take_map)
    have e3: "drop k (batch_queue s0) = drop (Suc k) (batch_order objs)"
      by (simp add: xs s0_def)
    from batch_prefix_upto[OF s0 kn k l] show ?thesis
      unfolding e1 e2 e3 e4 by blast
  qed
  have stops: "run_ticks ts s0 = Inl (KeyError (color (batch_order objs ! k)))"
    if h: "0 < k \<and> k < length objs \<and> length ts = 50 * k \<and>
                   (\<forall>obj \<in> set (take k (batch_order objs)). color obj \<in> {''Red'', ''Green'', ''Blue''}) \<and>
                   color (batch_order objs ! k) \<notin> {''Red'', ''Green'', ''Blue''}" for k ts
  proof -
    from h obtain j where j: "k = Suc j" by (cases k) auto
    have jl: "j < length (batch_queue s0)" using h j len q0 by simp
    have nth: "batch_queue s0 ! j = batch_order objs ! k" using j xs q0 by simp
    have kn: "\<forall>q \<in> set (take j (batch_queue s0)). drop_table (color q) \<noteq> None"
    proof
      fix q assume "q \<in> set (take j (batch_queue s0))"
      then have "q \<in> set (take k (batch_order objs))" using j xs q0 by simp
      with h have "color q \<in> {''Red'', ''Green'', ''Blue''}" by blast
      then show "drop_table (color q) \<noteq> None" by (rule drop_table_some)
    qed
    have un: "drop_table (color (batch_queue s0 ! j)) = None"
      using h nth drop_table_none[of "color (batch_order objs ! k)"] by simp
    have l: "length ts = 50 * Suc j" using h j by simp
    from batch_stops_at_unknown[OF s0 kn jl un l] nth show ?thesis by simp
  qed
  have complete: "\<exists>s'. run_ticks ts s0 = Inr s' \<and> \<not> is_moving s' \<and> \<not> batch_mode s'
                   \<and> current_mission s' = None \<and> batch_queue s' = []
                   \<and> picked s' = picked s @ map target_of (batch_order objs)
                   \<and> batch_completions (robot_metrics s') =
                       batch_completions (robot_metrics s) + 1
                   \<and> total_picks (robot_metrics s') =
                       total_picks (robot_metrics s) + int (length objs)"
    if h: "length ts = 50 * length objs \<and> (\<forall>obj \<in> set objs. color obj \<in> {''Red'', ''Green'', ''Blue''})" for ts
  proof -
    have l: "length ts = 50 * Suc (length (batch_queue s0))"
      using h len by (simp add: s0_def)
    have sub: "set xs \<subseteq> set objs" using batch_order_set[of objs] xs by auto
    have kn: "\<forall>q \<in> set (batch_queue s0). drop_table (color q) \<noteq> None"
    proof
      fix q assume "q \<in> set (batch_queue s0)"
      then have "q \<in> set objs" using sub q0 by auto
      with h have "color q \<in> {''Red'', ''Green'', ''Blue''}" by blast
      then show "drop_table (color q) \<noteq> None" by (rule drop_table_some)
    qed
    have e5: "total_picks (robot_metrics s) + 1 + int (length (batch_queue s0)) =
        total_picks (robot_metrics s) + int (length objs)"
      using len by (simp add: s0_def)
    from batch_complete[OF s0 kn l] show ?thesis
      unfolding all e4 e5 by blast
  qed
  show "(\<exists>s0. start_all_objects_batch t objs s = Inr s0
          \<and> is_moving s0 \<and> batch_mode s0 \<and> mission_progress s0 = 0
          \<and> current_mission s0 = Some (mission_of (hd (batch_order objs)) t)
          \<and> batch_queue s0 = tl (batch_order objs)
          \<and> pick_history s0 = pick_history s \<and> robot_metrics s0 = robot_metrics s
          \<and> (\<forall>k ts. k < length objs \<and> length ts = 50 * k \<and>
                   (\<forall>obj \<in> set (take (Suc k) (batch_order objs)). color obj \<in> {''Red'', ''Green'', ''Blue''}) \<longrightarrow>
                (\<exists>s' m'. run_ticks ts s0 = Inr s' \<and> is_moving s' \<and> batch_mode s'
                   \<and> current_mission s' = Some m'
                   \<and> mission_target m' = target_of (batch_order objs ! k)
                   \<and> batch_queue s' = drop (Suc k) (batch_order objs)
                   \<and> picked s' = picked s @ map target_of (take k (batch_order objs))
                   \<and> batch_completions (robot_metrics s') =
                       batch_completions (robot_metrics s)))
          \<and> (\<forall>k ts. 0 < k \<and> k < length objs \<and> length ts = 50 * k \<and>
                   (\<forall>obj \<in> set (take k (batch_order objs)). color obj \<in> {''Red'', ''Green'', ''Blue''}) \<and>
                   color (batch_order objs ! k) \<notin> {''Red'', ''Green'', ''Blue''} \<longrightarrow>
                run_ticks ts s0 = Inl (KeyError (color (batch_order objs ! k))))
          \<and> (\<forall>ts. length ts = 50 * length objs \<and> (\<forall>obj \<in> set objs. color obj \<in> {''Red'', ''Green'', ''Blue''}) \<longrightarrow>
                (\<exists>s'. run_ticks ts s0 = Inr s' \<and> \<not> is_moving s' \<and> \<not> batch_mode s'
                   \<and> current_mission s' = None \<and> batch_queue s' = []
                   \<and> picked s' = picked s @ map target_of (batch_order objs)
                   \<and> batch_completions (robot_metrics s') =
                       batch_completions (robot_metrics s) + 1
                   \<and> total_picks (robot_metrics s') =
                       total_picks (robot_metrics s) + int (length objs))))"
  proof (rule exI[of _ s0], intro conjI allI impI)
    show "start_all_objects_batch t objs s = Inr s0" by (rule start)
    show "\<exists>s' m'. run_ticks ts s0 = Inr s' \<and> is_moving s' \<and> batch_mode s'
                   \<and> current_mission s' = Some m'
                   \<and> mission_target m' = target_of (batch_order objs ! k)
                   \<and> batch_queue s' = drop (Suc k) (batch_order objs)
                   \<and> picked s' = picked s @ map target_of (take k (batch_order objs))
                   \<and> batch_completions (robot_metrics s') =
                       batch_completions (robot_metrics s)"
      if "k < length objs \<and> length ts = 50 * k \<and>
                   (\<forall>obj \<in> set (take (Suc k) (batch_order objs)). color obj \<in> {''Red'', ''Green'', ''Blue''})" for k ts by (rule prefix[OF that])
    show "run_ticks ts s0 = Inl (KeyError (color (batch_order objs ! k)))"
      if "0 < k \<and> k < length objs \<and> length ts = 50 * k \<and>
                   (\<forall>obj \<in> set (take k (batch_order objs)). color obj \<in> {''Red'', ''Green'', ''Blue''}) \<and>
                   color (batch_order objs ! k) \<notin> {''Red'', ''Green'', ''Blue''}" for k ts by (rule stops[OF that])
    show "\<exists>s'. run_ticks ts s0 = Inr s' \<and> \<not> is_moving s' \<and> \<not> batch_mode s'
                   \<and> current_mission s' = None \<and> batch_queue s' = []
                   \<and> picked s' = picked s @ map target_of (batch_order objs)
                   \<and> batch_completions (robot_metrics s') =
                       batch_completions (robot_metrics s) + 1
                   \<and> total_picks (robot_metrics s') =
                       total_picks (robot_metrics s) + int (length objs)"
      if "length ts = 50 * length objs \<and> (\<forall>obj \<in> set objs. color obj \<in> {''Red'', ''Green'', ''Blue''})" for ts by (rule complete[OF that])
  qed (simp_all add: s0_def xs)
qed

theorem batch_runs_in_color_order_witness:
  "\<not> is_moving RobotArmSimulator_init
   \<and> drop_locations RobotArmSimulator_init = drop_table
   \<and> [blue_obj, red_obj, green_obj] \<noteq> []
   \<and> color blue_obj = ''Blue'' \<and> color red_obj = ''Red'' \<and> color green_obj = ''Green''
   \<and> color purple_obj = ''Purple''
   \<and> batch_order [blue_obj, red_obj, green_obj] = [red_obj, green_obj, blue_obj]
   \<and> (\<exists>s0. start_all_objects_batch 1 [blue_obj, red_obj, green_obj] RobotArmSimulator_init = Inr s0
         \<and> current_mission s0 = Some (mission_of red_obj 1)
         \<and> batch_queue s0 = [green_obj, blue_obj]
         \<and> (\<exists>s'. run_ticks (replicate 100 (2, 3)) s0 = Inr s'
               \<and> is_moving s' \<and> batch_mode s' \<and> batch_queue s' = []
               \<and> picked s' = [(''Red'', (120, 80, 20)), (''Green'', (300, 200, 20))]
               \<and> batch_completions (robot_metrics s') = 0)
         \<and> (\<exists>s'. run_ticks (replicate 150 (2, 3)) s0 = Inr s'
               \<and> \<not> is_moving s' \<and> \<not> batch_mode s'
               \<and> picked s' = [(''Red'', (120, 80, 20)), (''Green'', (300, 200, 20)),
                               (''Blue'', (450, 100, 20))]
               \<and> batch_completions (robot_metrics s') = 1))
   \<and> batch_order [purple_obj, red_obj] = [red_obj, purple_obj]
   \<and> (\<exists>s0. start_all_objects_batch 1 [purple_obj, red_obj] RobotArmSimulator_init = Inr s0
         \<and> current_mission s0 = Some (mission_of red_obj 1)
         \<and> batch_queue s0 = [purple_obj]
         \<and> run_ticks (replicate 50 (2, 3)) s0 = Inl (KeyError ''Purple''))"
proof -
  let ?objs = "[blue_obj, red_obj, green_obj]"
  let ?mixed = "[purple_obj, red_obj]"
  have cols: "color blue_obj = ''Blue''" "color red_obj = ''Red''" "color green_obj = ''Green''"
    "color purple_obj = ''Purple''"
    by (simp_all add: red_obj_def green_obj_def blue_obj_def purple_obj_def)
  have idle: "\<not> is_moving RobotArmSimulator_init"
    "drop_locations RobotArmSimulator_init = drop_table"
    by (simp_all add: RobotArmSimulator_init_def)
  have ini: "picked RobotArmSimulator_init = []"
    "batch_completions (robot_metrics RobotArmSimulator_init) = 0"
    by (simp_all add: picked_def RobotArmSimulator_init_def)
  have tg: "map target_of [red_obj, green_obj, blue_obj] =
      [(''Red'', (120, 80, 20)), (''Green'', (300, 200, 20)), (''Blue'', (450, 100, 20))]"
    by (simp add: target_of_def red_obj_def green_obj_def blue_obj_def)
  note main = batch_runs_in_color_order[THEN conjunct2, THEN conjunct2, THEN conjunct2,
      THEN conjunct2, THEN conjunct2, THEN conjunct2, THEN conjunct2, THEN conjunct2,
      THEN conjunct2, THEN conjunct2, rule_format, THEN conjunct2, rule_format]
  have pre: "\<not> is_moving RobotArmSimulator_init \<and>
      drop_locations RobotArmSimulator_init = drop_table \<and> ?objs \<noteq> []"
    using idle by simp
  have hd1: "color (hd (batch_order ?objs)) \<in> {''Red'', ''Green'', ''Blue''}"
    by (simp add: batch_order_example cols)
  from main[OF pre hd1, of 1]
  obtain s0 where
    a: "start_all_objects_batch 1 ?objs RobotArmSimulator_init = Inr s0"
    and b: "current_mission s0 = Some (mission_of (hd (batch_order ?objs)) 1)"
    and c: "batch_queue s0 = tl (batch_order ?objs)"
    and d: "\<forall>k ts. k < length ?objs \<and> length ts = 50 * k \<and>
                   (\<forall>obj \<in> set (take (Suc k) (batch_order ?objs)).
                       color obj \<in> {''Red'', ''Green'', ''Blue''}) \<longrightarrow>
                (\<exists>s' m'. run_ticks ts s0 = Inr s' \<and> is_moving s' \<and> batch_mode s'
                   \<and> current_mission s' = Some m'
                   \<and> mission_target m' = target_of (batch_order ?objs ! k)
                   \<and> batch_queue s' = drop (Suc k) (batch_order ?objs)
                   \<and> picked s' = picked RobotArmSimulator_init @
                        map target_of (take k (batch_order ?objs))
                   \<and> batch_completions (robot_metrics s') =
                       batch_completions (robot_metrics RobotArmSimulator_init))"
    and e: "\<forall>ts. length ts = 50 * length ?objs \<and>
                 (\<forall>obj \<in> set ?objs. color obj \<in> {''Red'', ''Green'', ''Blue''}) \<longrightarrow>
                (\<exists>s'. run_ticks ts s0 = Inr s' \<and> \<not> is_moving s' \<and> \<not> batch_mode s'
                   \<and> current_mission s' = None \<and> batch_queue s' = []
                   \<and> picked s' = picked RobotArmSimulator_init @ map target_of (batch_order ?objs)
                   \<and> batch_completions (robot_metrics s') =
                       batch_completions (robot_metrics RobotArmSimulator_init) + 1
                   \<and> total_picks (robot_metrics s') =
                       total_picks (robot_metrics RobotArmSimulator_init) + int (length ?objs))"
    by blast
  have two: "\<exists>s'. run_ticks (replicate 100 (2, 3)) s0 = Inr s'
               \<and> is_moving s' \<and> batch_mode s' \<and> batch_queue s' = []
               \<and> picked s' = [(''Red'', (120, 80, 20)), (''Green'', (300, 200, 20))]
               \<and> batch_completions (robot_metrics s') = 0"
    using d[rule_format, of 2 "replicate 100 (2, 3)"] tg
    by (auto simp: batch_order_example ini cols)
  have three: "\<exists>s'. run_ticks (replicate 150 (2, 3)) s0 = Inr s'
               \<and> \<not> is_moving s' \<and> \<not> batch_mode s'
               \<and> picked s' = [(''Red'', (120, 80, 20)), (''Green'', (300, 200, 20)),
                               (''Blue'', (450, 100, 20))]
               \<and> batch_completions (robot_metrics s') = 1"
    using e[rule_format, of "replicate 150 (2, 3)"] tg
    by (auto simp: batch_order_example ini cols)
  have first: "\<exists>s0. start_all_objects_batch 1 ?objs RobotArmSimulator_init = Inr s0
         \<and> current_mission s0 = Some (mission_of red_obj 1)
         \<and> batch_queue s0 = [green_obj, blue_obj]
         \<and> (\<exists>s'. run_ticks (replicate 100 (2, 3)) s0 = Inr s'
               \<and> is_moving s' \<and> batch_mode s' \<and> batch_queue s' = []
               \<and> picked s' = [(''Red'', (120, 80, 20)), (''Green'', (300, 200, 20))]
               \<and> batch_completions (robot_metrics s') = 0)
         \<and> (\<exists>s'. run_ticks (replicate 150 (2, 3)) s0 = Inr s'
               \<and> \<not> is_moving s' \<and> \<not> batch_mode s'
               \<and> picked s' = [(''Red'', (120, 80, 20)), (''Green'', (300, 200, 20)),
                               (''Blue'', (450, 100, 20))]
               \<and> batch_completions (robot_metrics s') = 1)"
    using a b c two three by (intro exI[of _ s0]) (simp add: batch_order_example)
  have pre2: "\<not> is_moving RobotArmSimulator_init \<and>
      drop_locations RobotArmSimulator_init = drop_table \<and> ?mixed \<noteq> []"
    using idle by simp
  have hd2: "color (hd (batch_order ?mixed)) \<in> {''Red'', ''Green'', ''Blue''}"
    by (simp add: batch_order_purple cols)
  from main[OF pre2 hd2, of 1]
  obtain s1 where
    a1: "start_all_objects_batch 1 ?mixed RobotArmSimulator_init = Inr s1"
    and b1: "current_mission s1 = Some (mission_of (hd (batch_order ?mixed)) 1)"
    and c1: "batch_queue s1 = tl (batch_order ?mixed)"
    and d1: "\<forall>k ts. 0 < k \<and> k < length ?mixed \<and> length ts = 50 * k \<and>
                   (\<forall>obj \<in> set (take k (batch_order ?mixed)).
                       color obj \<in> {''Red'', ''Green'', ''Blue''}) \<and>
                   color (batch_order ?mixed ! k) \<notin> {''Red'', ''Green'', ''Blue''} \<longrightarrow>
                run_ticks ts s1 = Inl (KeyError (color (batch_order ?mixed ! k)))"
    by blast
  have err: "run_ticks (replicate 50 (2, 3)) s1 = Inl (KeyError ''Purple'')"
    using d1[rule_format, of 1 "replicate 50 (2, 3)"]
    by (simp add: batch_order_purple cols)
  have second: "\<exists>s0. start_all_objects_batch 1 ?mixed RobotArmSimulator_init = Inr s0
         \<and> current_mission s0 = Some (mission_of red_obj 1)
         \<and> batch_queue s0 = [purple_obj]
         \<and> run_ticks (replicate 50 (2, 3)) s0 = Inl (KeyError ''Purple'')"
    using a1 b1 c1 err by (intro exI[of _ s1]) (simp add: batch_order_purple)
  show ?thesis
    using idle cols batch_order_example batch_order_purple first second by simp
qed

text \<open>
  The claim as the specification words it covers every detection list and names the
  unknown colours as a priority class. On the one-object list of a purple object the
  idle controller starts no mission and queues nothing: the call raises
  \<^verbatim>\<open>KeyError\<close>.
\<close>

theorem unknown_colour_batch_raises:
  "\<not> is_moving RobotArmSimulator_init
   \<and> batch_queue RobotArmSimulator_init = []
   \<and> color purple_obj = ''Purple''
   \<and> batch_order [purple_obj] = [purple_obj]
   \<and> start_all_objects_batch 1 [purple_obj] RobotArmSimulator_init = Inl (KeyError ''Purple'')"
proof -
  have idle: "\<not> is_moving RobotArmSimulator_init" "batch_queue RobotArmSimulator_init = []"
    by (simp_all add: RobotArmSimulator_init_def)
  have col: "color purple_obj = ''Purple''" by (simp add: purple_obj_def)
  have ord: "batch_order [purple_obj] = [purple_obj]" by (simp add: batch_order_def)
  have "drop_locations RobotArmSimulator_init (color purple_obj) = None"
    by (simp add: RobotArmSimulator_init_def drop_table_def col)
  from start_all_objects_batch_unknown[OF idle(1) _ ord this, of 1]
  have "start_all_objects_batch 1 [purple_obj] RobotArmSimulator_init = Inl (KeyError ''Purple'')"
    by (simp add: col)
  then show ?thesis using idle col ord by simp
qed


section \<open>Properties of the frame loop\<close>

subsection \<open>The keyboard handler, key by key\<close>


lemma handle_keyboard_input_moving:
  assumes "is_moving (robot_sim sys)"
  shows "handle_keyboard_input key objs t sys =
     (if key = CHR ''q'' then Inr (False, sys)
      else if key = CHR ''c'' then
        Inr (True, sys\<lparr> object_selector := clear_selection (object_selector sys) \<rparr>)
      else if key = CHR ''+'' then
        Inr (True, sys\<lparr> object_selector := (object_selector sys)
               \<lparr> tolerance_radius := min 100 (tolerance_radius (object_selector sys) + 5) \<rparr> \<rparr>)
      else if key = CHR ''-'' then
        Inr (True, sys\<lparr> object_selector := (object_selector sys)
               \<lparr> tolerance_radius := max 10 (tolerance_radius (object_selector sys) - 5) \<rparr> \<rparr>)
      else Inr (True, sys))"
  using assms by (simp add: handle_keyboard_input_def Let_def)

lemma handle_keyboard_input_idle:
  assumes "\<not> is_moving (robot_sim sys)"
  shows "handle_keyboard_input key objs t sys =
     (if key = CHR ''q'' then Inr (False, sys)
      else if key = CHR ''c'' then
        Inr (True, sys\<lparr> object_selector := clear_selection (object_selector sys) \<rparr>)
      else if key = CHR ''+'' then
        Inr (True, sys\<lparr> object_selector := (object_selector sys)
               \<lparr> tolerance_radius := min 100 (tolerance_radius (object_selector sys) + 5) \<rparr> \<rparr>)
      else if key = CHR ''-'' then
        Inr (True, sys\<lparr> object_selector := (object_selector sys)
               \<lparr> tolerance_radius := max 10 (tolerance_radius (object_selector sys) - 5) \<rparr> \<rparr>)
      else if key = CHR '' '' then
        (case selected_object (object_selector sys) of
           None \<Rightarrow> Inr (True, sys)
         | Some obj \<Rightarrow>
             (case start_mission t (robot_pos obj) (color obj) (robot_sim sys) of
                Inl e \<Rightarrow> Inl e
              | Inr rob' \<Rightarrow>
                  Inr (True, sys\<lparr> robot_sim := rob',
                                  object_selector := clear_selection (object_selector sys) \<rparr>)))
      else if key = CHR ''f'' then
        (case start_all_objects_batch t objs (robot_sim sys) of
           Inl e \<Rightarrow> Inl e
         | Inr rob' \<Rightarrow>
             Inr (True, sys\<lparr> robot_sim := rob',
                             object_selector := clear_selection (object_selector sys) \<rparr>))
      else if key \<in> {CHR ''r'', CHR ''g'', CHR ''b''} then
        (case start_color_batch_pick t objs (color_map key) (robot_sim sys) of
           Inl e \<Rightarrow> Inl e
         | Inr rob' \<Rightarrow>
             Inr (True, sys\<lparr> robot_sim := rob',
                             object_selector := clear_selection (object_selector sys) \<rparr>))
      else if key \<in> set ''123456'' then
        (if of_char key - (49 :: nat) < length objs
         then Inr (True, sys\<lparr> object_selector :=
                 select_object (objs ! (of_char key - (49 :: nat))) (object_selector sys) \<rparr>)
         else Inr (True, sys))
      else Inr (True, sys))"
  using assms unfolding handle_keyboard_input_def Let_def by (simp only: simp_thms)



lemma key_quit:
  assumes "handle_keyboard_input key objs t sys = Inr (c, sys')" "\<not> is_moving (robot_sim sys)"
    "key = CHR ''q''"
  shows "sys' = sys"
  using assms(1) unfolding handle_keyboard_input_idle[OF assms(2)] using assms(3) by simp

lemma key_clear:
  assumes "handle_keyboard_input key objs t sys = Inr (c, sys')" "\<not> is_moving (robot_sim sys)"
    "key = CHR ''c''"
  shows "sys' = sys\<lparr> object_selector := clear_selection (object_selector sys) \<rparr>"
  using assms(1) unfolding handle_keyboard_input_idle[OF assms(2)] using assms(3) by simp

lemma key_tolerance:
  assumes "handle_keyboard_input key objs t sys = Inr (c, sys')" "\<not> is_moving (robot_sim sys)"
  shows "key = CHR ''+'' \<or> key = CHR ''-'' \<Longrightarrow>
         trace sys' = trace sys \<and> robot_sim sys' = robot_sim sys"
  using assms(1) unfolding handle_keyboard_input_idle[OF assms(2)] by auto

lemma key_space:
  assumes "handle_keyboard_input key objs t sys = Inr (c, sys')" "\<not> is_moving (robot_sim sys)"
    "key = CHR '' ''"
  shows "trace sys' = trace sys \<and>
         (robot_sim sys' = robot_sim sys \<or>
          object_selector sys' = clear_selection (object_selector sys))"
  using assms(1) unfolding handle_keyboard_input_idle[OF assms(2)] using assms(3)
  by (auto split: option.splits sum.splits)

lemma key_all_batch:
  assumes "handle_keyboard_input key objs t sys = Inr (c, sys')" "\<not> is_moving (robot_sim sys)"
    "key = CHR ''f''"
  shows "trace sys' = trace sys \<and>
         (robot_sim sys' = robot_sim sys \<or>
          object_selector sys' = clear_selection (object_selector sys))"
  using assms(1) unfolding handle_keyboard_input_idle[OF assms(2)] using assms(3)
  by (auto split: sum.splits)


lemma key_color_batch:
  assumes "handle_keyboard_input key objs t sys = Inr (c, sys')" "\<not> is_moving (robot_sim sys)"
    "key \<in> {CHR ''r'', CHR ''g'', CHR ''b''}"
  shows "trace sys' = trace sys \<and>
         (robot_sim sys' = robot_sim sys \<or>
          object_selector sys' = clear_selection (object_selector sys))"
proof -
  have k: "key \<noteq> CHR ''q''" "key \<noteq> CHR ''c''" "key \<noteq> CHR ''+''" "key \<noteq> CHR ''-''"
    "key \<noteq> CHR '' ''" "key \<noteq> CHR ''f''"
    using assms(3) by auto
  have "(case start_color_batch_pick t objs (color_map key) (robot_sim sys) of
           Inl e \<Rightarrow> Inl e
         | Inr rob' \<Rightarrow>
             Inr (True, sys\<lparr> robot_sim := rob',
                             object_selector := clear_selection (object_selector sys) \<rparr>)) =
        Inr (c, sys')"
    using assms(1) unfolding handle_keyboard_input_idle[OF assms(2)]
    by (simp only: k assms(3) if_False if_True)
  then show ?thesis by (auto split: sum.splits)
qed


lemma key_select:
  assumes "handle_keyboard_input key objs t sys = Inr (c, sys')" "\<not> is_moving (robot_sim sys)"
    "key \<in> set ''123456''"
  shows "trace sys' = trace sys \<and>
         (robot_sim sys' = robot_sim sys \<or>
          object_selector sys' = clear_selection (object_selector sys))"
proof -
  have k: "key \<noteq> CHR ''q''" "key \<noteq> CHR ''c''" "key \<noteq> CHR ''+''" "key \<noteq> CHR ''-''"
    "key \<noteq> CHR '' ''" "key \<noteq> CHR ''f''" "key \<notin> {CHR ''r'', CHR ''g'', CHR ''b''}"
    using assms(3) by auto
  have "(if of_char key - (49 :: nat) < length objs
         then Inr (True, sys\<lparr> object_selector :=
                 select_object (objs ! (of_char key - (49 :: nat))) (object_selector sys) \<rparr>)
         else (Inr (True, sys) :: error + bool \<times> sorting_system)) = Inr (c, sys')"
    using assms(1) unfolding handle_keyboard_input_idle[OF assms(2)]
    by (simp only: k assms(3) if_False if_True)
  then show ?thesis by (auto split: if_splits)
qed

lemma key_other:
  assumes "handle_keyboard_input key objs t sys = Inr (c, sys')" "\<not> is_moving (robot_sim sys)"
    "key \<noteq> CHR ''q''" "key \<noteq> CHR ''c''" "key \<noteq> CHR ''+''" "key \<noteq> CHR ''-''"
    "key \<noteq> CHR '' ''" "key \<noteq> CHR ''f''" "key \<notin> {CHR ''r'', CHR ''g'', CHR ''b''}"
    "key \<notin> set ''123456''"
  shows "sys' = sys"
proof -
  have "(Inr (True, sys) :: error + bool \<times> sorting_system) = Inr (c, sys')"
    using assms(1) unfolding handle_keyboard_input_idle[OF assms(2)]
    by (simp only: assms(3-10) if_False)
  then show ?thesis by simp
qed


lemma handle_keyboard_input_idle_effect:
  assumes "handle_keyboard_input key objs t sys = Inr (c, sys')" "\<not> is_moving (robot_sim sys)"
  shows "trace sys' = trace sys \<and>
         (robot_sim sys' = robot_sim sys \<or>
          object_selector sys' = clear_selection (object_selector sys))"
proof -
  consider "key = CHR ''q''" | "key = CHR ''c''" | "key = CHR '' ''" | "key = CHR ''f''"
    | "key \<in> {CHR ''r'', CHR ''g'', CHR ''b''}" | "key \<in> set ''123456''"
    | "key = CHR ''+''" | "key = CHR ''-''"
    | "key \<noteq> CHR ''q''" "key \<noteq> CHR ''c''" "key \<noteq> CHR ''+''" "key \<noteq> CHR ''-''"
      "key \<noteq> CHR '' ''" "key \<noteq> CHR ''f''" "key \<notin> {CHR ''r'', CHR ''g'', CHR ''b''}"
      "key \<notin> set ''123456''"
    by blast
  then show ?thesis
  proof cases
    case 1
    from key_quit[OF assms this] show ?thesis by simp
  next
    case 2
    from key_clear[OF assms this] show ?thesis by simp
  next
    case 3
    from key_space[OF assms this] show ?thesis .
  next
    case 4
    from key_all_batch[OF assms this] show ?thesis .
  next
    case 5
    from key_color_batch[OF assms this] show ?thesis .
  next
    case 6
    from key_select[OF assms this] show ?thesis .
  next
    case 7
    from key_tolerance[OF assms] this show ?thesis by blast
  next
    case 8
    from key_tolerance[OF assms] this show ?thesis by blast
  next
    case 9
    from key_other[OF assms this] show ?thesis by simp
  qed
qed

lemma handle_keyboard_input_moving_effect:
  assumes "handle_keyboard_input key objs t sys = Inr (c, sys')" "is_moving (robot_sim sys)"
  shows "trace sys' = trace sys \<and> robot_sim sys' = robot_sim sys \<and>
         (object_selector sys' = clear_selection (object_selector sys) \<or>
          (selected_object (object_selector sys') = selected_object (object_selector sys) \<and>
           selection_id (object_selector sys') = selection_id (object_selector sys)))"
  using assms(1) unfolding handle_keyboard_input_moving[OF assms(2)]
  by (auto split: if_splits)



lemma handle_keyboard_input_unselected:
  assumes "handle_keyboard_input key objs t sys = Inr (c, sys')" "unselected_while_moving sys"
  shows "unselected_while_moving sys'"
proof (cases "is_moving (robot_sim sys)")
  case True
  from handle_keyboard_input_moving_effect[OF assms(1) True] assms(2) True
  show ?thesis by (auto simp: unselected_while_moving_def clear_selection_def)
next
  case False
  from handle_keyboard_input_idle_effect[OF assms(1) False] False
  show ?thesis by (auto simp: unselected_while_moving_def clear_selection_def)
qed

lemma run_iteration_steps:
  assumes "run_iteration cv frame inp sys = Inr (continue, sys')"
  shows "\<exists>objs sys1 rob sys4.
      process_frame cv frame sys = Inr (objs, sys1)
    \<and> update_mission (in_t_done inp) (in_t_next inp) (robot_sim sys1) = Inr rob
    \<and> handle_keyboard_input (in_key inp) objs (in_t_key inp)
         (sys1\<lparr> robot_sim := rob,
               object_selector :=
                 (if is_moving rob then clear_selection (object_selector sys1)
                  else snd (update_selection objs (object_selector sys1))),
               trace := trace sys1 @ [MissionAdvance, SelectionUpdate] \<rparr>) = Inr (continue, sys4)
    \<and> sys' = sys4\<lparr> trace := trace sys4 @ [KeyboardInput] \<rparr>"
proof -
  from assms obtain objs sys1 where pf: "process_frame cv frame sys = Inr (objs, sys1)"
    by (cases "process_frame cv frame sys") (auto simp: run_iteration_def)
  from assms pf obtain rob where
    um: "update_mission (in_t_done inp) (in_t_next inp) (robot_sim sys1) = Inr rob"
    by (cases "update_mission (in_t_done inp) (in_t_next inp) (robot_sim sys1)")
       (auto simp: run_iteration_def)
  let ?sys3 = "sys1\<lparr> robot_sim := rob,
               object_selector :=
                 (if is_moving rob then clear_selection (object_selector sys1)
                  else snd (update_selection objs (object_selector sys1))),
               trace := trace sys1 @ [MissionAdvance, SelectionUpdate] \<rparr>"
  let ?sys2 = "sys1\<lparr> robot_sim := rob, trace := trace sys1 @ [MissionAdvance] \<rparr>"
  let ?raw = "?sys2\<lparr> object_selector :=
                 (if is_moving (robot_sim ?sys2) then clear_selection (object_selector ?sys2)
                  else snd (update_selection objs (object_selector ?sys2))),
               trace := trace ?sys2 @ [SelectionUpdate] \<rparr>"
  have raw: "?raw = ?sys3" by (cases "is_moving rob") simp_all
  have "(case handle_keyboard_input (in_key inp) objs (in_t_key inp) ?raw of
           Inl e \<Rightarrow> Inl e
         | Inr (continue, sys4) \<Rightarrow>
             Inr (continue, sys4\<lparr> trace := trace sys4 @ [KeyboardInput] \<rparr>)) =
        Inr (continue, sys')"
    using assms pf um by (simp add: run_iteration_def Let_def)
  then obtain sys4 where
    "handle_keyboard_input (in_key inp) objs (in_t_key inp) ?sys3 = Inr (continue, sys4)"
    "sys' = sys4\<lparr> trace := trace sys4 @ [KeyboardInput] \<rparr>"
    unfolding raw
    by (cases "handle_keyboard_input (in_key inp) objs (in_t_key inp) ?sys3") auto
  with pf um show ?thesis by blast
qed

subsection \<open>One pass of the loop on the example scene\<close>

lemma stabilize_red:
  "stabilize [red_obj] (PositionStabilizer_init 5) =
     Inr ([red_obj], [''Red_128_96''],
          \<lparr> buffer_size = 5, position_buffers = [''Red_128_96'' \<mapsto> [(128, 96)]] \<rparr>)"
  by (simp add: red_obj_def update_first_example)

lemma cleanup_red:
  "cleanup [''Red_128_96'']
     \<lparr> buffer_size = 5, position_buffers = [''Red_128_96'' \<mapsto> [(128, 96)]] \<rparr> =
     \<lparr> buffer_size = 5, position_buffers = [''Red_128_96'' \<mapsto> [(128, 96)]] \<rparr>"
  by (simp add: cleanup_def)

lemma process_frame_red:
  assumes "color_detector sys = ColorDetector_init csv"
    "position_stabilizer sys = PositionStabilizer_init 5"
  shows "process_frame scene_cv red_scene sys =
     Inr ([red_obj],
          sys\<lparr> position_stabilizer :=
                  \<lparr> buffer_size = 5, position_buffers = [''Red_128_96'' \<mapsto> [(128, 96)]] \<rparr>,
                trace := trace sys @ [Segmentation, Stabilization] \<rparr>)"
  using assms
  by (simp add: process_frame_def detect_red_scene stabilize_red cleanup_red Let_def
      del: stabilize.simps)


lemma run_iteration_from_steps:
  assumes "process_frame cv frame sys = Inr (objs, sys1)"
    "update_mission (in_t_done inp) (in_t_next inp) (robot_sim sys1) = Inr rob"
    "handle_keyboard_input (in_key inp) objs (in_t_key inp)
         (sys1\<lparr> robot_sim := rob,
               object_selector :=
                 (if is_moving rob then clear_selection (object_selector sys1)
                  else snd (update_selection objs (object_selector sys1))),
               trace := trace sys1 @ [MissionAdvance, SelectionUpdate] \<rparr>) = Inr (continue, sys4)"
  shows "run_iteration cv frame inp sys =
     Inr (continue, sys4\<lparr> trace := trace sys4 @ [KeyboardInput] \<rparr>)"
proof -
  let ?sys2 = "sys1\<lparr> robot_sim := rob, trace := trace sys1 @ [MissionAdvance] \<rparr>"
  let ?raw = "?sys2\<lparr> object_selector :=
                 (if is_moving (robot_sim ?sys2) then clear_selection (object_selector ?sys2)
                  else snd (update_selection objs (object_selector ?sys2))),
               trace := trace ?sys2 @ [SelectionUpdate] \<rparr>"
  let ?sys3 = "sys1\<lparr> robot_sim := rob,
               object_selector :=
                 (if is_moving rob then clear_selection (object_selector sys1)
                  else snd (update_selection objs (object_selector sys1))),
               trace := trace sys1 @ [MissionAdvance, SelectionUpdate] \<rparr>"
  have raw: "?raw = ?sys3" by (cases "is_moving rob") simp_all
  have "run_iteration cv frame inp sys =
      (case handle_keyboard_input (in_key inp) objs (in_t_key inp) ?raw of
           Inl e \<Rightarrow> Inl e
         | Inr (continue, sys4) \<Rightarrow>
             Inr (continue, sys4\<lparr> trace := trace sys4 @ [KeyboardInput] \<rparr>))"
    using assms(1,2) by (simp add: run_iteration_def Let_def)
  also have "\<dots> = Inr (continue, sys4\<lparr> trace := trace sys4 @ [KeyboardInput] \<rparr>)"
    unfolding raw using assms(3) by simp
  finally show ?thesis .
qed




subsection \<open>C2: the order of the phases of a frame\<close>


lemma run_iteration_unselected:
  assumes "run_iteration cv frame inp sys = Inr (continue, sys')"
  shows "unselected_while_moving sys'"
proof -
  from run_iteration_steps[OF assms] obtain objs sys1 rob sys4 where
    kb: "handle_keyboard_input (in_key inp) objs (in_t_key inp)
         (sys1\<lparr> robot_sim := rob,
               object_selector :=
                 (if is_moving rob then clear_selection (object_selector sys1)
                  else snd (update_selection objs (object_selector sys1))),
               trace := trace sys1 @ [MissionAdvance, SelectionUpdate] \<rparr>) = Inr (continue, sys4)"
    and s': "sys' = sys4\<lparr> trace := trace sys4 @ [KeyboardInput] \<rparr>"
    by blast
  have "unselected_while_moving (sys1\<lparr> robot_sim := rob,
               object_selector :=
                 (if is_moving rob then clear_selection (object_selector sys1)
                  else snd (update_selection objs (object_selector sys1))),
               trace := trace sys1 @ [MissionAdvance, SelectionUpdate] \<rparr>)"
    by (simp add: unselected_while_moving_def clear_selection_def)
  from handle_keyboard_input_unselected[OF kb this] s' show ?thesis
    by (simp add: unselected_while_moving_def)
qed

lemma run_unselected:
  "unselected_while_moving sys \<Longrightarrow> run cv inps sys = Inr sys' \<Longrightarrow> unselected_while_moving sys'"
proof (induction inps arbitrary: sys)
  case Nil
  then show ?case by simp
next
  case (Cons inp inps)
  show ?case
  proof (cases "in_frame inp")
    case None
    with Cons.prems show ?thesis by simp
  next
    case (Some frame)
    from Cons.prems(2) Some obtain continue sys1 where
      it: "run_iteration cv frame inp sys = Inr (continue, sys1)"
      by (cases "run_iteration cv frame inp sys") auto
    have u1: "unselected_while_moving sys1" by (rule run_iteration_unselected[OF it])
    show ?thesis
    proof (cases continue)
      case True
      with Cons.prems(2) Some it have "run cv inps sys1 = Inr sys'" by simp
      from Cons.IH[OF u1 this] show ?thesis .
    next
      case False
      with Cons.prems(2) Some it have "sys' = sys1" by simp
      with u1 show ?thesis by simp
    qed
  qed
qed

subsection \<open>C9: a moving robot has no selection\<close>

text \<open>
  Claim C9. After every pass of the loop body, from whatever state it started, a moving
  robot has no selected object and no selection id; so it is after every run of the loop
  from the constructed system. The loop clears the selection in each frame in which the
  robot moves after the mission advance, the select keys are ignored while it moves, and
  every key that takes an idle robot to a moving one (space, f, r, g, b) clears the
  selection as well.
\<close>

theorem moving_robot_has_no_selection:
  "(run_iteration cv frame inp sys = Inr (continue, sys') \<and> is_moving (robot_sim sys') \<longrightarrow>
      selected_object (object_selector sys') = None \<and> selection_id (object_selector sys') = None)
   \<and> (run cv inps (RobotArmSortingSystem_init csv) = Inr sys2 \<and> is_moving (robot_sim sys2) \<longrightarrow>
      selected_object (object_selector sys2) = None \<and> selection_id (object_selector sys2) = None)
   \<and> (handle_keyboard_input key objs t sys = Inr (c, sys3) \<and>
       \<not> is_moving (robot_sim sys) \<and> is_moving (robot_sim sys3) \<longrightarrow>
      selected_object (object_selector sys3) = None \<and> selection_id (object_selector sys3) = None)"
proof (intro conjI impI)
  assume a: "run_iteration cv frame inp sys = Inr (continue, sys') \<and> is_moving (robot_sim sys')"
  then have it: "run_iteration cv frame inp sys = Inr (continue, sys')"
    and mv: "is_moving (robot_sim sys')" by simp_all
  from run_iteration_unselected[OF it] mv
  show "selected_object (object_selector sys') = None"
    "selection_id (object_selector sys') = None"
    by (simp_all add: unselected_while_moving_def)
next
  assume a: "run cv inps (RobotArmSortingSystem_init csv) = Inr sys2 \<and> is_moving (robot_sim sys2)"
  have "unselected_while_moving (RobotArmSortingSystem_init csv)"
    by (simp add: unselected_while_moving_def RobotArmSortingSystem_init_def
        RobotArmSimulator_init_def)
  from run_unselected[OF this conjunct1[OF a]] have "unselected_while_moving sys2" .
  with a show "selected_object (object_selector sys2) = None"
    "selection_id (object_selector sys2) = None"
    by (simp_all add: unselected_while_moving_def)
next
  assume a: "handle_keyboard_input key objs t sys = Inr (c, sys3) \<and>
       \<not> is_moving (robot_sim sys) \<and> is_moving (robot_sim sys3)"
  then have "robot_sim sys3 = robot_sim sys \<or>
      object_selector sys3 = clear_selection (object_selector sys)"
    using handle_keyboard_input_idle_effect[of key objs t sys c sys3] by blast
  with a have "object_selector sys3 = clear_selection (object_selector sys)" by auto
  then show "selected_object (object_selector sys3) = None"
    "selection_id (object_selector sys3) = None"
    by (simp_all add: clear_selection_def)
qed


lemma red_obj_reselected:
  "update_selection [red_obj] (select_object red_obj (ObjectSelector_init 40)) =
     (Some red_obj, select_object red_obj (ObjectSelector_init 40))"
  by (simp add: update_selection_def select_object_def ObjectSelector_init_def red_obj_def
      distance_def Let_def)

lemma space_key_starts_mission:
  assumes "robot_sim sys = RobotArmSimulator_init"
    "selected_object (object_selector sys) = Some red_obj"
  shows "handle_keyboard_input (CHR '' '') [red_obj] 7 sys =
     Inr (True, sys\<lparr> robot_sim := busy_example,
                     object_selector := clear_selection (object_selector sys) \<rparr>)"
proof -
  have idle: "\<not> is_moving (robot_sim sys)"
    using assms(1) by (simp add: RobotArmSimulator_init_def)
  have "start_mission 7 (robot_pos red_obj) (color red_obj) (robot_sim sys) = Inr busy_example"
    using busy_example_started assms(1) by (simp add: red_obj_def)
  then show ?thesis
    unfolding handle_keyboard_input_idle[OF idle] using assms(2) by simp
qed

lemma selected_system_iteration:
  "run_iteration scene_cv red_scene space_key_input selected_system =
     Inr (True,
          selected_system
            \<lparr> robot_sim := busy_example,
              object_selector := clear_selection (select_object red_obj (ObjectSelector_init 40)),
              position_stabilizer :=
                \<lparr> buffer_size = 5, position_buffers = [''Red_128_96'' \<mapsto> [(128, 96)]] \<rparr>,
              trace := [Segmentation, Stabilization, MissionAdvance, SelectionUpdate,
                        KeyboardInput] \<rparr>)"
proof -
  let ?sys1 = "selected_system\<lparr> position_stabilizer :=
                  \<lparr> buffer_size = 5, position_buffers = [''Red_128_96'' \<mapsto> [(128, 96)]] \<rparr>,
                trace := trace selected_system @ [Segmentation, Stabilization] \<rparr>"
  let ?rob = "RobotArmSimulator_init"
  let ?sys3 = "?sys1\<lparr> robot_sim := ?rob,
               object_selector :=
                 (if is_moving ?rob then clear_selection (object_selector ?sys1)
                  else snd (update_selection [red_obj] (object_selector ?sys1))),
               trace := trace ?sys1 @ [MissionAdvance, SelectionUpdate] \<rparr>"
  have pf: "process_frame scene_cv red_scene selected_system = Inr ([red_obj], ?sys1)"
    by (rule process_frame_red[of _ None])
       (simp_all add: selected_system_def RobotArmSortingSystem_init_def)
  have um: "update_mission (in_t_done space_key_input) (in_t_next space_key_input)
      (robot_sim ?sys1) = Inr ?rob"
    by (simp add: update_mission_def selected_system_def RobotArmSortingSystem_init_def
        RobotArmSimulator_init_def)
  have sel: "object_selector ?sys3 = select_object red_obj (ObjectSelector_init 40)"
    by (simp add: selected_system_def red_obj_reselected RobotArmSimulator_init_def)
  have kb: "handle_keyboard_input (in_key space_key_input) [red_obj] (in_t_key space_key_input)
      ?sys3 = Inr (True, ?sys3\<lparr> robot_sim := busy_example,
                     object_selector := clear_selection (object_selector ?sys3) \<rparr>)"
    unfolding space_key_input_def no_key_input_def
    using space_key_starts_mission[of ?sys3] sel
    by (simp add: select_object_def)
  from run_iteration_from_steps[OF pf um kb] show ?thesis
    unfolding sel by (simp add: selected_system_def RobotArmSortingSystem_init_def)
qed


lemma all_key_starts_batch:
  assumes "robot_sim sys = RobotArmSimulator_init"
  shows "\<exists>rob'. is_moving rob' \<and>
     handle_keyboard_input (CHR ''f'') [red_obj] t sys =
       Inr (True, sys\<lparr> robot_sim := rob',
                       object_selector := clear_selection (object_selector sys) \<rparr>)"
proof -
  have idle: "\<not> is_moving (robot_sim sys)"
    using assms by (simp add: RobotArmSimulator_init_def)
  have ord: "batch_order [red_obj] = [red_obj]" by (simp add: batch_order_def)
  have d: "drop_locations (robot_sim sys) (color red_obj) = Some (100, 350, 50)"
    using assms by (simp add: RobotArmSimulator_init_def drop_table_def red_obj_def)
  note st = start_all_objects_batch_idle[OF idle _ ord d, of t]
  show ?thesis
    unfolding handle_keyboard_input_idle[OF idle]
    by (rule exI[of _ "(robot_sim sys)\<lparr> batch_mode := True, batch_queue := [],
             current_mission := Some (mission_of red_obj t),
             mission_steps := mission_plan (robot_pos red_obj) (100, 350, 50)
                                (current_position (robot_sim sys)),
             is_moving := True, mission_progress := 0 \<rparr>"])
       (simp add: st)
qed

lemma init_system_all_key:
  "\<exists>sys'. run scene_cv [all_key_input] (RobotArmSortingSystem_init None) = Inr sys'
      \<and> is_moving (robot_sim sys')"
proof -
  let ?sys = "RobotArmSortingSystem_init None"
  let ?sys1 = "?sys\<lparr> position_stabilizer :=
                  \<lparr> buffer_size = 5, position_buffers = [''Red_128_96'' \<mapsto> [(128, 96)]] \<rparr>,
                trace := trace ?sys @ [Segmentation, Stabilization] \<rparr>"
  let ?rob = "RobotArmSimulator_init"
  let ?sys3 = "?sys1\<lparr> robot_sim := ?rob,
               object_selector :=
                 (if is_moving ?rob then clear_selection (object_selector ?sys1)
                  else snd (update_selection [red_obj] (object_selector ?sys1))),
               trace := trace ?sys1 @ [MissionAdvance, SelectionUpdate] \<rparr>"
  have pf: "process_frame scene_cv red_scene ?sys = Inr ([red_obj], ?sys1)"
    by (rule process_frame_red[of _ None]) (simp_all add: RobotArmSortingSystem_init_def)
  have um: "update_mission (in_t_done all_key_input) (in_t_next all_key_input)
      (robot_sim ?sys1) = Inr ?rob"
    by (simp add: update_mission_def RobotArmSortingSystem_init_def RobotArmSimulator_init_def)
  have "robot_sim ?sys3 = RobotArmSimulator_init" by simp
  from all_key_starts_batch[OF this, of "in_t_key all_key_input"] obtain rob' where
    mv: "is_moving rob'"
    and kb: "handle_keyboard_input (in_key all_key_input) [red_obj] (in_t_key all_key_input)
      ?sys3 = Inr (True, ?sys3\<lparr> robot_sim := rob',
                     object_selector := clear_selection (object_selector ?sys3) \<rparr>)"
    by (auto simp: all_key_input_def no_key_input_def)
  from run_iteration_from_steps[OF pf um kb]
  have "run scene_cv [all_key_input] ?sys =
      Inr ((?sys3\<lparr> robot_sim := rob',
                     object_selector := clear_selection (object_selector ?sys3) \<rparr>)
             \<lparr> trace := trace (?sys3\<lparr> robot_sim := rob',
                     object_selector := clear_selection (object_selector ?sys3) \<rparr>) @
                     [KeyboardInput] \<rparr>)"
    by (simp add: all_key_input_def no_key_input_def)
  then show ?thesis using mv by simp
qed




theorem moving_robot_has_no_selection_witness:
  "selected_object (object_selector selected_system) = Some red_obj
   \<and> \<not> is_moving (robot_sim selected_system)
   \<and> (\<exists>sys'. run_iteration scene_cv red_scene space_key_input selected_system = Inr (True, sys')
          \<and> is_moving (robot_sim sys')
          \<and> selected_object (object_selector sys') = None
          \<and> selection_id (object_selector sys') = None)
   \<and> (\<exists>sys2. run scene_cv [all_key_input] (RobotArmSortingSystem_init None) = Inr sys2
          \<and> is_moving (robot_sim sys2)
          \<and> selected_object (object_selector sys2) = None
          \<and> selection_id (object_selector sys2) = None)
   \<and> (\<exists>sys3. handle_keyboard_input (CHR '' '') [red_obj] 7 selected_system = Inr (True, sys3)
          \<and> is_moving (robot_sim sys3)
          \<and> selected_object (object_selector sys3) = None
          \<and> selection_id (object_selector sys3) = None)"
proof -
  note per_frame = moving_robot_has_no_selection[THEN conjunct1, rule_format]
  note whole_run = moving_robot_has_no_selection[THEN conjunct2, THEN conjunct1, rule_format]
  note command = moving_robot_has_no_selection[THEN conjunct2, THEN conjunct2, rule_format]
  have s0: "selected_object (object_selector selected_system) = Some red_obj"
    "\<not> is_moving (robot_sim selected_system)"
    "robot_sim selected_system = RobotArmSimulator_init"
    by (simp_all add: selected_system_def select_object_def RobotArmSortingSystem_init_def
        RobotArmSimulator_init_def)
  have busy: "is_moving busy_example" by (simp add: busy_example_def)
  let ?s1 = "selected_system
            \<lparr> robot_sim := busy_example,
              object_selector := clear_selection (select_object red_obj (ObjectSelector_init 40)),
              position_stabilizer :=
                \<lparr> buffer_size = 5, position_buffers = [''Red_128_96'' \<mapsto> [(128, 96)]] \<rparr>,
              trace := [Segmentation, Stabilization, MissionAdvance, SelectionUpdate,
                        KeyboardInput] \<rparr>"
  have a: "\<exists>sys'. run_iteration scene_cv red_scene space_key_input selected_system = Inr (True, sys')
          \<and> is_moving (robot_sim sys')
          \<and> selected_object (object_selector sys') = None
          \<and> selection_id (object_selector sys') = None"
    using selected_system_iteration
      per_frame[of scene_cv red_scene space_key_input selected_system True ?s1] busy
    by (intro exI[of _ ?s1]) simp
  from init_system_all_key obtain sys2 where
    r: "run scene_cv [all_key_input] (RobotArmSortingSystem_init None) = Inr sys2"
    and m: "is_moving (robot_sim sys2)" by blast
  have b: "\<exists>sys2. run scene_cv [all_key_input] (RobotArmSortingSystem_init None) = Inr sys2
          \<and> is_moving (robot_sim sys2)
          \<and> selected_object (object_selector sys2) = None
          \<and> selection_id (object_selector sys2) = None"
    using r m whole_run[of scene_cv "[all_key_input]" None sys2] by blast
  let ?s3 = "selected_system\<lparr> robot_sim := busy_example,
                     object_selector := clear_selection (object_selector selected_system) \<rparr>"
  have k: "handle_keyboard_input (CHR '' '') [red_obj] 7 selected_system = Inr (True, ?s3)"
    by (rule space_key_starts_mission[OF s0(3) s0(1)])
  have c: "\<exists>sys3. handle_keyboard_input (CHR '' '') [red_obj] 7 selected_system = Inr (True, sys3)
          \<and> is_moving (robot_sim sys3)
          \<and> selected_object (object_selector sys3) = None
          \<and> selection_id (object_selector sys3) = None"
    using k command[of "CHR '' ''" "[red_obj]" 7 selected_system True ?s3] s0(2) busy
    by (intro exI[of _ ?s3]) simp
  show ?thesis using s0(1,2) a b c by blast
qed

end
